(* ===== verification/HB_Prelude.thy ===== *)
theory HB_Prelude
  imports Main "HOL-Library.Word"
begin

text \<open>
  The prelude of the honeybrid development.  It fixes what every component
  shares: the way a fault of the C program (a null dereference, a use of freed
  memory, a read outside a buffer, an exit) is a value of the model, heaps as
  partial functions from addresses, bytes in memory as functions from offsets,
  and the byte-order macros of the network headers on a little-endian machine.
\<close>

unbundle bit_operations_syntax

named_theorems rbind_simps \<open>evaluation and inversion of the result monad\<close>
named_theorems mem_simps \<open>reads over writes in a byte buffer\<close>
named_theorems frame_simps \<open>fields an operation leaves alone\<close>

section \<open>Addresses, heaps and faults\<close>

type_synonym ptr = nat
type_synonym byte = "8 word"
type_synonym u16 = "16 word"
type_synonym u32 = "32 word"
type_synonym u64 = "64 word"
type_synonym mac_t = "48 word"

text \<open>
  A fault ends the program: C gives it no meaning, or the process exits.  A
  definition that can fault returns \<open>fault + 'a\<close>, with \<^const>\<open>Inl\<close> for the fault.
\<close>

datatype fault =
    NullDeref        \<comment> \<open>a NULL pointer is dereferenced\<close>
  | UseAfterFree     \<comment> \<open>an object that was freed is read or written\<close>
  | DoubleFree       \<comment> \<open>an object that was freed is freed again\<close>
  | OutOfBounds      \<comment> \<open>a buffer is read or written outside its bounds\<close>
  | Uninitialised    \<comment> \<open>an automatic variable is read before it is written\<close>
  | TypeConfusion    \<comment> \<open>an object is read as one of another type\<close>
  | IntOverflow      \<comment> \<open>an addition of signed integers overflows\<close>
  | DivByZero        \<comment> \<open>an integer is divided by zero\<close>
  | ExitCall         \<comment> \<open>errx, err or exit ends the process\<close>
  | Hangs            \<comment> \<open>a loop or a blocking call never returns\<close>

type_synonym 'a res = "fault + 'a"

definition rbind :: "'a res \<Rightarrow> ('a \<Rightarrow> 'b res) \<Rightarrow> 'b res" where
  "rbind m f = (case m of Inl e \<Rightarrow> Inl e | Inr x \<Rightarrow> f x)"

lemma rbind_Inl [simp]: "rbind (Inl e) f = Inl e"
  by (simp add: rbind_def)

lemma rbind_Inr [simp]: "rbind (Inr x) f = f x"
  by (simp add: rbind_def)

lemma rbind_eq_Inr [rbind_simps]: "rbind m f = Inr y \<longleftrightarrow> (\<exists>x. m = Inr x \<and> f x = Inr y)"
  by (cases m) (auto simp: rbind_def)

lemma rbind_eq_Inl [rbind_simps]:
  "rbind m f = Inl e \<longleftrightarrow> m = Inl e \<or> (\<exists>x. m = Inr x \<and> f x = Inl e)"
  by (cases m) (auto simp: rbind_def)

lemma rbind_assoc: "rbind (rbind m f) g = rbind m (\<lambda>x. rbind (f x) g)"
  by (cases m) auto

lemma rbind_cong [fundef_cong]:
  "m = m' \<Longrightarrow> (\<And>x. m' = Inr x \<Longrightarrow> f x = f' x) \<Longrightarrow> rbind m f = rbind m' f'"
  by (cases m') auto

lemma rbindE:
  assumes "rbind m f = Inr y"
  obtains x where "m = Inr x" and "f x = Inr y"
  using assms by (auto simp: rbind_eq_Inr)

definition guard :: "fault \<Rightarrow> bool \<Rightarrow> unit res" where
  "guard e b = (if b then Inr () else Inl e)"

lemma guard_True [simp]: "guard e True = Inr ()"
  by (simp add: guard_def)

lemma guard_False [simp]: "guard e False = Inl e"
  by (simp add: guard_def)

lemma guard_eq_Inr [rbind_simps]: "guard e b = Inr u \<longleftrightarrow> b"
  by (simp add: guard_def)

text \<open>A pointer that may be NULL, and the object behind an address.\<close>

definition nonnull :: "'a option \<Rightarrow> 'a res" where
  "nonnull x = (case x of None \<Rightarrow> Inl NullDeref | Some y \<Rightarrow> Inr y)"

definition deref :: "(ptr \<rightharpoonup> 'a) \<Rightarrow> ptr \<Rightarrow> 'a res" where
  "deref h p = (case h p of None \<Rightarrow> Inl UseAfterFree | Some x \<Rightarrow> Inr x)"

definition deref_opt :: "(ptr \<rightharpoonup> 'a) \<Rightarrow> ptr option \<Rightarrow> 'a res" where
  "deref_opt h p = rbind (nonnull p) (deref h)"

lemma nonnull_simps [simp]:
  "nonnull (Some x) = Inr x" "nonnull None = Inl NullDeref"
  by (simp_all add: nonnull_def)

lemma nonnull_eq_Inr [rbind_simps]: "nonnull x = Inr y \<longleftrightarrow> x = Some y"
  by (cases x) auto

lemma deref_eq_Inr [rbind_simps]: "deref h p = Inr x \<longleftrightarrow> h p = Some x"
  by (auto simp: deref_def split: option.splits)

lemma deref_Some [simp]: "h p = Some x \<Longrightarrow> deref h p = Inr x"
  by (simp add: deref_def)

lemma deref_None [simp]: "h p = None \<Longrightarrow> deref h p = Inl UseAfterFree"
  by (simp add: deref_def)

lemma deref_opt_simps [simp]:
  "deref_opt h (Some p) = deref h p" "deref_opt h None = Inl NullDeref"
  by (simp_all add: deref_opt_def)

lemma deref_opt_eq_Inr [rbind_simps]:
  "deref_opt h p = Inr x \<longleftrightarrow> (\<exists>q. p = Some q \<and> h q = Some x)"
  by (cases p) (auto simp: rbind_simps)

text \<open>
  A loop that may run for ever is a partial function whose value is
  \<^const>\<open>None\<close> when it does not return; its callers see a fault.
\<close>

definition returns :: "'a res option \<Rightarrow> 'a res" where
  "returns r = (case r of None \<Rightarrow> Inl Hangs | Some x \<Rightarrow> x)"

lemma returns_simps [simp]: "returns None = Inl Hangs" "returns (Some x) = x"
  by (simp_all add: returns_def)

lemma returns_eq_Inr [rbind_simps]: "returns r = Inr x \<longleftrightarrow> r = Some (Inr x)"
  by (cases r) auto

section \<open>Byte order\<close>

text \<open>
  The program runs on a little-endian machine: a 16-bit load takes its low
  byte from the lower address.  \<open>ntohs\<close> and \<open>htons\<close> are the same swap of the
  two bytes, \<open>ntohl\<close> and \<open>htonl\<close> the same reversal of four.
\<close>

definition ntohs :: "u16 \<Rightarrow> u16" where
  "ntohs w = word_cat (ucast w :: byte) (ucast (drop_bit 8 w) :: byte)"

abbreviation htons :: "u16 \<Rightarrow> u16" where
  "htons \<equiv> ntohs"

definition ntohl :: "u32 \<Rightarrow> u32" where
  "ntohl w = word_cat (ntohs (ucast w)) (ntohs (ucast (drop_bit 16 w)))"

abbreviation htonl :: "u32 \<Rightarrow> u32" where
  "htonl \<equiv> ntohl"


lemma word_cat_bytes16:
  "word_cat (ucast (drop_bit 8 w) :: byte) (ucast w :: byte) = (w :: u16)"
  by (rule bit_word_eqI) (auto simp: bit_word_cat_iff bit_simps)

lemma ucast_word_cat16:
  "ucast (word_cat (a :: byte) (b :: byte) :: u16) = b"
  "ucast (drop_bit 8 (word_cat (a :: byte) (b :: byte) :: u16)) = a"
  by (rule bit_word_eqI; auto simp: bit_word_cat_iff bit_simps)+

lemma word_cat_halves32:
  "word_cat (ucast (drop_bit 16 w) :: u16) (ucast w :: u16) = (w :: u32)"
  by (rule bit_word_eqI) (auto simp: bit_word_cat_iff bit_simps)

lemma ucast_word_cat32:
  "ucast (word_cat (a :: u16) (b :: u16) :: u32) = b"
  "ucast (drop_bit 16 (word_cat (a :: u16) (b :: u16) :: u32)) = a"
  by (rule bit_word_eqI; auto simp: bit_word_cat_iff bit_simps)+

lemma word_cat_parts48:
  "word_cat (ucast (drop_bit 32 w) :: u16) (ucast w :: u32) = (w :: mac_t)"
  by (rule bit_word_eqI) (auto simp: bit_word_cat_iff bit_simps)

lemma ntohs_ntohs [simp]: "ntohs (ntohs w) = w"
  by (simp add: ntohs_def ucast_word_cat16 word_cat_bytes16)

lemma ntohl_ntohl [simp]: "ntohl (ntohl w) = w"
  by (simp add: ntohl_def ucast_word_cat32 word_cat_halves32)

lemma ntohs_eq_iff [simp]: "ntohs a = ntohs b \<longleftrightarrow> a = b"
  by (metis ntohs_ntohs)

lemma ntohl_eq_iff [simp]: "ntohl a = ntohl b \<longleftrightarrow> a = b"
  by (metis ntohl_ntohl)

lemma ucast_ucast_byte [simp]: "(ucast (ucast (b :: byte) :: u16) :: u32) = ucast b"
  by (rule bit_word_eqI) (auto simp: bit_simps dest: bit_imp_le_length)

lemma ucast_NOT16: "(ucast (NOT (x :: u32)) :: u16) = NOT (ucast x)"
  by (rule bit_word_eqI) (auto simp: bit_simps)

lemma unat_bounds: "unat (a :: byte) \<le> 255" "unat (b :: u16) \<le> 65535"
  using unsigned_less [where 'a = nat, of a] unsigned_less [where 'a = nat, of b] by simp_all

lemma ucast_of_nat: "(ucast (x::'a::len word) :: 'b::len word) = of_nat (unat x)"
  by simp

section \<open>Bytes in memory\<close>

text \<open>
  A buffer is a function from offsets to bytes; its size is kept beside it
  where the code keeps it.  \<open>memput\<close> is the write of a run of bytes (a
  \<open>memcpy\<close> or \<open>memmove\<close> into the buffer), \<open>memget\<close> the read of one.
\<close>

type_synonym mem = "nat \<Rightarrow> byte"

definition memget :: "mem \<Rightarrow> nat \<Rightarrow> nat \<Rightarrow> byte list" where
  "memget f off n = map f [off ..< off + n]"

definition memput :: "mem \<Rightarrow> nat \<Rightarrow> byte list \<Rightarrow> mem" where
  "memput f off bs = (\<lambda>i. if off \<le> i \<and> i < off + length bs then bs ! (i - off) else f i)"

definition get16 :: "mem \<Rightarrow> nat \<Rightarrow> u16" where
  "get16 f off = word_cat (f (off + 1)) (f off)"

definition get32 :: "mem \<Rightarrow> nat \<Rightarrow> u32" where
  "get32 f off = word_cat (get16 f (off + 2)) (get16 f off)"

definition get48 :: "mem \<Rightarrow> nat \<Rightarrow> mac_t" where
  "get48 f off = word_cat (get16 f (off + 4)) (get32 f off)"

definition bytes16 :: "u16 \<Rightarrow> byte list" where
  "bytes16 w = [ucast w, ucast (drop_bit 8 w)]"

definition bytes32 :: "u32 \<Rightarrow> byte list" where
  "bytes32 w = bytes16 (ucast w) @ bytes16 (ucast (drop_bit 16 w))"

definition bytes48 :: "mac_t \<Rightarrow> byte list" where
  "bytes48 w = bytes32 (ucast w) @ bytes16 (ucast (drop_bit 32 w))"

definition put16 :: "mem \<Rightarrow> nat \<Rightarrow> u16 \<Rightarrow> mem" where
  "put16 f off w = memput f off (bytes16 w)"

definition put32 :: "mem \<Rightarrow> nat \<Rightarrow> u32 \<Rightarrow> mem" where
  "put32 f off w = memput f off (bytes32 w)"

definition put48 :: "mem \<Rightarrow> nat \<Rightarrow> mac_t \<Rightarrow> mem" where
  "put48 f off w = memput f off (bytes48 w)"

lemma length_bytes [simp]:
  "length (bytes16 a) = 2" "length (bytes32 b) = 4" "length (bytes48 c) = 6"
  by (simp_all add: bytes16_def bytes32_def bytes48_def)

lemma length_memget [simp]: "length (memget f off n) = n"
  by (simp add: memget_def)

lemma memget_nth [simp]: "i < n \<Longrightarrow> memget f off n ! i = f (off + i)"
  by (simp add: memget_def)

lemma memput_out [mem_simps]: "i < off \<or> off + length bs \<le> i \<Longrightarrow> memput f off bs i = f i"
  by (auto simp: memput_def)

lemma memput_in [mem_simps]:
  "off \<le> i \<Longrightarrow> i < off + length bs \<Longrightarrow> memput f off bs i = bs ! (i - off)"
  by (simp add: memput_def)

lemma put_out [mem_simps]:
  "i < off \<or> off + 2 \<le> i \<Longrightarrow> put16 f off a i = f i"
  "i < off \<or> off + 4 \<le> i \<Longrightarrow> put32 f off b i = f i"
  "i < off \<or> off + 6 \<le> i \<Longrightarrow> put48 f off c i = f i"
  by (simp_all add: put16_def put32_def put48_def memput_out)

lemma get_cong:
  "(\<And>i. off \<le> i \<Longrightarrow> i < off + 2 \<Longrightarrow> f i = g i) \<Longrightarrow> get16 f off = get16 g off"
  "(\<And>i. off \<le> i \<Longrightarrow> i < off + 4 \<Longrightarrow> f i = g i) \<Longrightarrow> get32 f off = get32 g off"
  "(\<And>i. off \<le> i \<Longrightarrow> i < off + 6 \<Longrightarrow> f i = g i) \<Longrightarrow> get48 f off = get48 g off"
  by (simp_all add: get48_def get32_def get16_def)

lemma memget_cong:
  "(\<And>i. off \<le> i \<Longrightarrow> i < off + n \<Longrightarrow> f i = g i) \<Longrightarrow> memget f off n = memget g off n"
  by (simp add: memget_def)

lemma get16_put16_same [mem_simps]: "get16 (put16 f off w) off = w"
  by (simp add: get16_def put16_def memput_def bytes16_def word_cat_bytes16)

lemma get_memput_other [mem_simps]:
  "o' + 2 \<le> off \<or> off + length bs \<le> o' \<Longrightarrow> get16 (memput f off bs) o' = get16 f o'"
  "o' + 4 \<le> off \<or> off + length bs \<le> o' \<Longrightarrow> get32 (memput f off bs) o' = get32 f o'"
  "o' + 6 \<le> off \<or> off + length bs \<le> o' \<Longrightarrow> get48 (memput f off bs) o' = get48 f o'"
  by (rule get_cong; auto simp: memput_def)+

lemma get_put16_other [mem_simps]:
  "o' + 2 \<le> off \<or> off + 2 \<le> o' \<Longrightarrow> get16 (put16 f off w) o' = get16 f o'"
  "o' + 4 \<le> off \<or> off + 2 \<le> o' \<Longrightarrow> get32 (put16 f off w) o' = get32 f o'"
  "o' + 6 \<le> off \<or> off + 2 \<le> o' \<Longrightarrow> get48 (put16 f off w) o' = get48 f o'"
  by (auto simp: put16_def get_memput_other)

lemma memput_append:
  "memput f off (as @ bs) = memput (memput f off as) (off + length as) bs"
  by (rule ext) (auto simp: memput_def nth_append)

lemma put32_split: "put32 f off w = put16 (put16 f off (ucast w)) (off + 2) (ucast (drop_bit 16 w))"
  by (simp add: put32_def bytes32_def memput_append put16_def)

lemma put48_split: "put48 f off w = put16 (put32 f off (ucast w)) (off + 4) (ucast (drop_bit 32 w))"
  by (simp add: put48_def bytes48_def memput_append put16_def put32_def)

lemma get32_put32_same [mem_simps]: "get32 (put32 f off w) off = w"
  by (simp add: get32_def put32_split get16_put16_same get_put16_other word_cat_halves32)

lemma get48_put48_same [mem_simps]: "get48 (put48 f off w) off = w"
  by (simp add: get48_def put48_split get16_put16_same get32_put32_same get_put16_other
      word_cat_parts48)

lemma get_put32_other [mem_simps]:
  "o' + 2 \<le> off \<or> off + 4 \<le> o' \<Longrightarrow> get16 (put32 f off w) o' = get16 f o'"
  "o' + 4 \<le> off \<or> off + 4 \<le> o' \<Longrightarrow> get32 (put32 f off w) o' = get32 f o'"
  "o' + 6 \<le> off \<or> off + 4 \<le> o' \<Longrightarrow> get48 (put32 f off w) o' = get48 f o'"
  by (auto simp: put32_def get_memput_other)

lemma get_put48_other [mem_simps]:
  "o' + 2 \<le> off \<or> off + 6 \<le> o' \<Longrightarrow> get16 (put48 f off w) o' = get16 f o'"
  "o' + 4 \<le> off \<or> off + 6 \<le> o' \<Longrightarrow> get32 (put48 f off w) o' = get32 f o'"
  "o' + 6 \<le> off \<or> off + 6 \<le> o' \<Longrightarrow> get48 (put48 f off w) o' = get48 f o'"
  by (auto simp: put48_def get_memput_other)

lemma memget_put_other [mem_simps]:
  "o' + n \<le> off \<or> off + length bs \<le> o' \<Longrightarrow> memget (memput f off bs) o' n = memget f o' n"
  by (rule memget_cong) (auto simp: memput_def)

lemma memget_put_same [mem_simps]:
  "length bs = n \<Longrightarrow> memget (memput f off bs) off n = bs"
  by (rule nth_equalityI) (auto simp: memput_def)

text \<open>A bitfield of one byte, by position and width from the low end.\<close>

definition bits :: "nat \<Rightarrow> nat \<Rightarrow> byte \<Rightarrow> byte" where
  "bits pos w b = take_bit w (drop_bit pos b)"

section \<open>The type int of C\<close>

text \<open>An \<open>int\<close> has 32 bits.  A conversion of a longer integer keeps the low 32 bits; the result of an addition or a
  subtraction that does not fit, and the conversion of a floating-point number that does not fit, are undefined.\<close>

definition to_int32 :: "int \<Rightarrow> int" where
  "to_int32 i = sint (word_of_int i :: u32)"

definition int_ok :: "int \<Rightarrow> bool" where
  "int_ok i \<longleftrightarrow> - (2 ^ 31) \<le> i \<and> i < 2 ^ 31"

definition c_int :: "int \<Rightarrow> int res" where
  "c_int i = rbind (guard IntOverflow (int_ok i)) (\<lambda>_. Inr i)"

lemma c_int_eq_Inr [rbind_simps]: "c_int i = Inr j \<longleftrightarrow> int_ok i \<and> j = i"
  by (auto simp: c_int_def guard_def)

lemma to_int32_ok [simp]: "int_ok i \<Longrightarrow> to_int32 i = i"
  by (simp add: int_ok_def to_int32_def signed_of_int signed_take_bit_int_eq_self)

text \<open>A floating-point number of seconds, here in microseconds, stored into an \<open>int\<close>: the fraction is cut off.\<close>

definition gint_of_double :: "int \<Rightarrow> int res" where
  "gint_of_double us = c_int (sgn us * (\<bar>us\<bar> div 1000000))"

end
