(* ===== verification/GTree.thy ===== *)
theory GTree
  imports HB_Prelude
begin

text \<open>
  The balanced trees of the container library that hold the connection
  tables, the pins, the targets and the handlers.  A tree is kept as the list
  of its entries in the order of its comparison function, the order in which
  \<open>g_tree_foreach\<close> visits them; the comparison function is an argument, as it
  is at the tree's creation.  The locale \<open>tree_map\<close> states what the program
  relies on (what a lookup finds after an insertion or a removal), the locale
  \<open>comparator\<close> what makes a comparison function usable, and the sublocale
  between them is the proof that sorted entry lists keep the contract.
\<close>

type_synonym ('k, 'v) gtree = "('k \<times> 'v) list"

fun g_tree_lookup :: "('k \<Rightarrow> 'k \<Rightarrow> int) \<Rightarrow> ('k, 'v) gtree \<Rightarrow> 'k \<Rightarrow> 'v option" where
  "g_tree_lookup cmp [] k = None"
| "g_tree_lookup cmp ((k', v) # t) k =
     (if cmp k k' = 0 then Some v else g_tree_lookup cmp t k)"

text \<open>An insertion under a key that is present replaces the value and keeps the key.\<close>

fun g_tree_insert :: "('k \<Rightarrow> 'k \<Rightarrow> int) \<Rightarrow> ('k, 'v) gtree \<Rightarrow> 'k \<Rightarrow> 'v \<Rightarrow> ('k, 'v) gtree" where
  "g_tree_insert cmp [] k v = [(k, v)]"
| "g_tree_insert cmp ((k', v') # t) k v =
     (if cmp k k' = 0 then (k', v) # t
      else if cmp k k' < 0 then (k, v) # (k', v') # t
      else (k', v') # g_tree_insert cmp t k v)"

fun g_tree_remove :: "('k \<Rightarrow> 'k \<Rightarrow> int) \<Rightarrow> ('k, 'v) gtree \<Rightarrow> 'k \<Rightarrow> ('k, 'v) gtree" where
  "g_tree_remove cmp [] k = []"
| "g_tree_remove cmp ((k', v) # t) k =
     (if cmp k k' = 0 then t else (k', v) # g_tree_remove cmp t k)"

text \<open>The traversal stops at the first call that returns TRUE, and at a fault.\<close>

fun g_tree_foreach ::
  "('k \<Rightarrow> 'v \<Rightarrow> 's \<Rightarrow> (bool \<times> 's) res) \<Rightarrow> ('k, 'v) gtree \<Rightarrow> 's \<Rightarrow> 's res" where
  "g_tree_foreach f [] s = Inr s"
| "g_tree_foreach f ((k, v) # t) s =
     rbind (f k v s) (\<lambda>(stop, s'). if stop then Inr s' else g_tree_foreach f t s')"

section \<open>The contract of a tree\<close>

locale tree_map =
  fixes inv :: "'t \<Rightarrow> bool"
    and lookup :: "'t \<Rightarrow> 'k \<Rightarrow> 'v option"
    and insert :: "'t \<Rightarrow> 'k \<Rightarrow> 'v \<Rightarrow> 't"
    and remove :: "'t \<Rightarrow> 'k \<Rightarrow> 't"
    and same :: "'k \<Rightarrow> 'k \<Rightarrow> bool"
  assumes lookup_insert:
      "inv t \<Longrightarrow> lookup (insert t k v) k' = (if same k' k then Some v else lookup t k')"
    and lookup_remove:
      "inv t \<Longrightarrow> lookup (remove t k) k' = (if same k' k then None else lookup t k')"
    and inv_insert: "inv t \<Longrightarrow> inv (insert t k v)"
    and inv_remove: "inv t \<Longrightarrow> inv (remove t k)"
    and same_refl: "same k k"
begin

text \<open>What holds of every entry holds after a removal, and after an insertion
  of an entry of which it holds.\<close>

lemma all_insert:
  assumes "inv t" and "\<And>k' w. lookup t k' = Some w \<Longrightarrow> P k' w"
    and "\<And>k'. same k' k \<Longrightarrow> P k' v" and "lookup (insert t k v) k' = Some w"
  shows "P k' w"
  using assms by (auto simp: lookup_insert split: if_splits)

lemma all_remove:
  assumes "inv t" and "\<And>k' w. lookup t k' = Some w \<Longrightarrow> P k' w"
    and "lookup (remove t k) k' = Some w"
  shows "P k' w"
  using assms by (auto simp: lookup_remove split: if_splits)

lemma lookup_insert_same: "inv t \<Longrightarrow> lookup (insert t k v) k = Some v"
  by (simp add: lookup_insert same_refl)

lemma lookup_remove_same: "inv t \<Longrightarrow> lookup (remove t k) k = None"
  by (simp add: lookup_remove same_refl)

lemma remove_insert_fresh:
  assumes "inv t" and "lookup t k = None" and "\<And>k'. same k' k \<Longrightarrow> lookup t k' = lookup t k"
  shows "lookup (remove (insert t k v) k) k' = lookup t k'"
  using assms by (auto simp: lookup_remove lookup_insert inv_insert)

end

section \<open>Comparison functions\<close>

locale comparator =
  fixes cmp :: "'k \<Rightarrow> 'k \<Rightarrow> int"
  assumes cmp_refl: "cmp x x = 0"
    and cmp_sym: "cmp x y < 0 \<longleftrightarrow> 0 < cmp y x"
    and cmp_trans: "cmp x y \<le> 0 \<Longrightarrow> cmp y z \<le> 0 \<Longrightarrow> cmp x z \<le> 0"
begin

lemma cmp_eq_sym: "cmp x y = 0 \<longleftrightarrow> cmp y x = 0"
  using cmp_sym [of x y] cmp_sym [of y x] by arith

lemma cmp_less_trans: "cmp x y < 0 \<Longrightarrow> cmp y z < 0 \<Longrightarrow> cmp x z < 0"
  using cmp_trans [of z x y] cmp_trans [of x y z] cmp_sym [of x y] cmp_sym [of y z] cmp_sym [of z x]
    cmp_sym [of x z] cmp_sym [of z y]
  by arith

lemma cmp_eq_trans: "cmp x y = 0 \<Longrightarrow> cmp y z = 0 \<Longrightarrow> cmp x z = 0"
  using cmp_trans [of x y z] cmp_trans [of z y x] cmp_sym [of x z] cmp_sym [of y z] cmp_sym [of x y]
    cmp_sym [of z x] cmp_sym [of z y] cmp_sym [of y x]
  by arith

lemma cmp_less_eq_trans: "cmp x y < 0 \<Longrightarrow> cmp y z = 0 \<Longrightarrow> cmp x z < 0"
  using cmp_trans [of y z x] cmp_sym [of x y] cmp_sym [of y x] cmp_sym [of x z] cmp_sym [of z x]
  by arith

definition ordered :: "('k, 'v) gtree \<Rightarrow> bool" where
  "ordered t = sorted_wrt (\<lambda>a b. cmp (fst a) (fst b) < 0) t"

lemma ordered_Nil [simp]: "ordered []"
  by (simp add: ordered_def)

lemma ordered_Cons:
  "ordered ((k, v) # t) \<longleftrightarrow> (\<forall>(k', v') \<in> set t. cmp k k' < 0) \<and> ordered t"
  by (auto simp: ordered_def)

lemma set_insert_subset: "set (g_tree_insert cmp t k v) \<subseteq> set t \<union> {(k', v) |k'. cmp k k' = 0}"
  by (induction t) (auto simp: cmp_refl split: if_splits)

lemma set_remove_subset: "set (g_tree_remove cmp t k) \<subseteq> set t"
  by (induction t) (auto split: if_splits)

lemma lookup_below:
  "\<forall>(k', v') \<in> set t. cmp k k' < 0 \<Longrightarrow> g_tree_lookup cmp t k = None"
  by (induction t) auto

lemma lookup_mem:
  "g_tree_lookup cmp t k = Some v \<Longrightarrow> \<exists>k'. cmp k k' = 0 \<and> (k', v) \<in> set t"
  by (induction t) (auto split: if_splits)

lemma mem_lookup:
  "ordered t \<Longrightarrow> (k, v) \<in> set t \<Longrightarrow> g_tree_lookup cmp t k = Some v"
proof (induction t)
  case (Cons a t)
  obtain k' v' where a: "a = (k', v')" by (cases a)
  show ?case
  proof (cases "(k, v) = a")
    case True
    then show ?thesis by (simp add: a cmp_refl)
  next
    case False
    with Cons.prems have "(k, v) \<in> set t" by simp
    moreover from this Cons.prems have "cmp k' k < 0" by (auto simp: a ordered_Cons)
    then have "cmp k k' \<noteq> 0" using cmp_sym [of k' k] by arith
    ultimately show ?thesis using Cons by (simp add: a ordered_Cons)
  qed
qed simp

lemma ordered_insert: "ordered t \<Longrightarrow> ordered (g_tree_insert cmp t k v)"
proof (induction t)
  case (Cons a t)
  obtain k' v' where a: "a = (k', v')" by (cases a)
  from Cons.prems have t: "ordered t" and below: "\<forall>(k2, v2) \<in> set t. cmp k' k2 < 0"
    by (auto simp: a ordered_Cons)
  consider "cmp k k' = 0" | "cmp k k' < 0" | "0 < cmp k k'" by arith
  then show ?case
  proof cases
    case 1
    with t below show ?thesis by (simp add: a ordered_Cons)
  next
    case 2
    with t below show ?thesis by (auto simp: a ordered_Cons intro: cmp_less_trans)
  next
    case 3
    have "\<forall>(k2, v2) \<in> set (g_tree_insert cmp t k v). cmp k' k2 < 0"
    proof clarify
      fix k2 v2
      assume "(k2, v2) \<in> set (g_tree_insert cmp t k v)"
      then consider "(k2, v2) \<in> set t" | "cmp k k2 = 0"
        using set_insert_subset [of t k v] by auto
      then show "cmp k' k2 < 0"
      proof cases
        case 1
        with below show ?thesis by auto
      next
        case 2
        from 3 have "cmp k' k < 0" by (simp add: cmp_sym)
        with 2 show ?thesis by (rule cmp_less_eq_trans [rotated])
      qed
    qed
    with 3 Cons.IH [OF t] show ?thesis by (simp add: a ordered_Cons)
  qed
qed (simp add: ordered_Cons)

lemma ordered_remove: "ordered t \<Longrightarrow> ordered (g_tree_remove cmp t k)"
proof (induction t)
  case (Cons a t)
  then show ?case
    using set_remove_subset [of t k] by (cases a) (auto simp: ordered_Cons)
qed simp

lemma lookup_insert_gen:
  "ordered t \<Longrightarrow> g_tree_lookup cmp (g_tree_insert cmp t k v) k' =
     (if cmp k' k = 0 then Some v else g_tree_lookup cmp t k')"
proof (induction t)
  case (Cons a t)
  obtain ka va where a: "a = (ka, va)" by (cases a)
  from Cons have IH: "g_tree_lookup cmp (g_tree_insert cmp t k v) k' =
     (if cmp k' k = 0 then Some v else g_tree_lookup cmp t k')"
    by (simp add: a ordered_Cons)
  have "cmp k ka = 0 \<Longrightarrow> cmp k' ka = 0 \<longleftrightarrow> cmp k' k = 0"
    using cmp_eq_trans cmp_eq_sym by blast
  moreover have "cmp k' k = 0 \<Longrightarrow> cmp k' ka = 0 \<Longrightarrow> cmp k ka = 0"
    using cmp_eq_trans cmp_eq_sym by blast
  ultimately show ?case using IH by (auto simp: a)
qed simp

lemma lookup_remove_gen:
  "ordered t \<Longrightarrow> g_tree_lookup cmp (g_tree_remove cmp t k) k' =
     (if cmp k' k = 0 then None else g_tree_lookup cmp t k')"
proof (induction t)
  case (Cons a t)
  obtain ka va where a: "a = (ka, va)" by (cases a)
  from Cons.prems have t: "ordered t" and below: "\<forall>(k2, v2) \<in> set t. cmp ka k2 < 0"
    by (auto simp: a ordered_Cons)
  show ?case
  proof (cases "cmp k ka = 0")
    case True
    have "cmp k' k = 0 \<Longrightarrow> g_tree_lookup cmp t k' = None"
    proof (rule ccontr)
      assume k': "cmp k' k = 0" and "g_tree_lookup cmp t k' \<noteq> None"
      then obtain k2 v2 where "cmp k' k2 = 0" "(k2, v2) \<in> set t"
        by (auto dest: lookup_mem)
      with below have "cmp ka k2 < 0" by auto
      moreover have "cmp ka k2 = 0"
        using True k' \<open>cmp k' k2 = 0\<close> cmp_eq_trans cmp_eq_sym by blast
      ultimately show False by simp
    qed
    moreover have "cmp k' ka = 0 \<longleftrightarrow> cmp k' k = 0"
      using True cmp_eq_trans cmp_eq_sym by blast
    ultimately show ?thesis using True by (auto simp: a)
  next
    case False
    have "cmp k' k = 0 \<Longrightarrow> cmp k' ka \<noteq> 0"
      using False cmp_eq_trans cmp_eq_sym by blast
    with False Cons.IH [OF t] show ?thesis by (auto simp: a)
  qed
qed simp

text \<open>Two keys the comparison does not tell apart find the same entry.\<close>

lemma lookup_same_key: "cmp k k' = 0 \<Longrightarrow> g_tree_lookup cmp t k = g_tree_lookup cmp t k'"
proof (induction t)
  case (Cons a t)
  have "cmp k ka = 0 \<longleftrightarrow> cmp k' ka = 0" for ka
    using Cons.prems cmp_eq_trans cmp_eq_sym by blast
  with Cons show ?case by (cases a) simp
qed simp

end

sublocale comparator \<subseteq> gt: tree_map
  "ordered :: ('k, 'v) gtree \<Rightarrow> bool" "g_tree_lookup cmp" "g_tree_insert cmp" "g_tree_remove cmp"
  "\<lambda>x y. cmp x y = 0"
  by unfold_locales
    (simp_all add: lookup_insert_gen lookup_remove_gen ordered_insert ordered_remove cmp_refl)

end
