(* ===== verification/HB_Types.thy ===== *)
theory HB_Types
  imports GTree
begin

text \<open>
  The data of the program: the enumerations of \<open>types.h\<close>, the structures of
  \<open>structs.h\<close>, the keys of the connection and pin trees and their comparison
  functions from \<open>convenience.c\<close>.  Integers keep their width; a pointer is an
  address (\<^typ>\<open>ptr\<close>), and \<^typ>\<open>ptr option\<close> where the code tests it against NULL.
  An address of the network library (\<open>struct addr\<close>) is its 32-bit or 48-bit
  value as it lies in memory.
\<close>

section \<open>Enumerations (types.h)\<close>

text \<open>\<open>INT_ROLE\<close> is the role \<open>INT\<close> of the source.\<close>

datatype role_t = EXT | INT_ROLE | LIH | HIH | INTRA

datatype conn_status_t =
  INVALID | INIT | DECISION | REPLAY | FORWARD | PROXY | DROP | CONTROL

datatype output_t =
  OUTPUT_INVALID | OUTPUT_SYSLOG | OUTPUT_STDOUT | OUTPUT_LOGFILES | OUTPUT_MYSQL

datatype status_t = NOK | OK

definition REPLAY_UNEXPECTED_PROTOCOL :: u32 where "REPLAY_UNEXPECTED_PROTOCOL = push_bit 0 1"
definition REPLAY_UNEXPECTED_PAYLOAD :: u32 where "REPLAY_UNEXPECTED_PAYLOAD = push_bit 1 1"
definition REPLAY_UNEXPECTED_TCP_ACK :: u32 where "REPLAY_UNEXPECTED_TCP_ACK = push_bit 2 1"
definition REPLAY_UNEXPECTED_TCP_SEQ :: u32 where "REPLAY_UNEXPECTED_TCP_SEQ = push_bit 3 1"
definition REPLAY_UNEXPECTED_TCP_TS :: u32 where "REPLAY_UNEXPECTED_TCP_TS = push_bit 4 1"
definition REPLAY_EXPECTED_TCP_TS :: u32 where "REPLAY_EXPECTED_TCP_TS = push_bit 5 1"
definition REPLAY_TCP_TS_OUTOFSYNC :: u32 where "REPLAY_TCP_TS_OUTOFSYNC = push_bit 6 1"

lemmas replay_problem_defs =
  REPLAY_UNEXPECTED_PROTOCOL_def REPLAY_UNEXPECTED_PAYLOAD_def REPLAY_UNEXPECTED_TCP_ACK_def
  REPLAY_UNEXPECTED_TCP_SEQ_def REPLAY_UNEXPECTED_TCP_TS_def REPLAY_EXPECTED_TCP_TS_def
  REPLAY_TCP_TS_OUTOFSYNC_def

datatype decision_t = DE_NO_RULE | DE_DEFER | DE_REJECT | DE_ACCEPT | DE_DROP

datatype mod_result_t = DEFER | REJECT | ACCEPT

text \<open>The states are compared by their numbers (\<open>conn->state < INIT\<close>).\<close>

fun status_num :: "conn_status_t \<Rightarrow> nat" where
  "status_num INVALID = 0"
| "status_num INIT = 1"
| "status_num DECISION = 2"
| "status_num REPLAY = 3"
| "status_num FORWARD = 4"
| "status_num PROXY = 5"
| "status_num DROP = 6"
| "status_num CONTROL = 7"

lemma status_num_inj [simp]: "status_num a = status_num b \<longleftrightarrow> a = b"
  by (cases a; cases b) simp_all

instantiation conn_status_t :: linorder
begin

definition less_eq_conn_status_t :: "conn_status_t \<Rightarrow> conn_status_t \<Rightarrow> bool" where
  "less_eq_conn_status_t a b = (status_num a \<le> status_num b)"

definition less_conn_status_t :: "conn_status_t \<Rightarrow> conn_status_t \<Rightarrow> bool" where
  "less_conn_status_t a b = (status_num a < status_num b)"

instance
proof
  fix x y z :: conn_status_t
  show "x < y \<longleftrightarrow> x \<le> y \<and> \<not> y \<le> x"
    by (auto simp: less_eq_conn_status_t_def less_conn_status_t_def)
  show "x \<le> x" by (simp add: less_eq_conn_status_t_def)
  show "x \<le> y \<Longrightarrow> y \<le> z \<Longrightarrow> x \<le> z" by (simp add: less_eq_conn_status_t_def)
  show "x \<le> y \<Longrightarrow> y \<le> x \<Longrightarrow> x = y" by (simp add: less_eq_conn_status_t_def)
  show "x \<le> y \<or> y \<le> x" by (auto simp: less_eq_conn_status_t_def)
qed

end

lemmas status_order = less_eq_conn_status_t_def less_conn_status_t_def

lemma below_INIT [simp]: "s < INIT \<longleftrightarrow> s = INVALID"
  by (cases s) (simp_all add: status_order)

abbreviation (input) IPPROTO_TCP :: byte where "IPPROTO_TCP \<equiv> 6"
abbreviation (input) IPPROTO_UDP :: byte where "IPPROTO_UDP \<equiv> 17"
abbreviation (input) ETHERTYPE_IP :: u16 where "ETHERTYPE_IP \<equiv> 0x0800"
abbreviation (input) ETHERTYPE_ARP :: u16 where "ETHERTYPE_ARP \<equiv> 0x0806"
abbreviation (input) ETHERTYPE_VLAN :: u16 where "ETHERTYPE_VLAN \<equiv> 0x8100"
abbreviation (input) ETHER_HDR_LEN :: nat where "ETHER_HDR_LEN \<equiv> 14"
abbreviation (input) VLAN_HLEN :: nat where "VLAN_HLEN \<equiv> 4"
abbreviation (input) VLAN_ETH_HLEN :: nat where "VLAN_ETH_HLEN \<equiv> 18"
abbreviation (input) UDP_HDR_LEN :: nat where "UDP_HDR_LEN \<equiv> 8"
abbreviation (input) TCP_HDR_LEN :: nat where "TCP_HDR_LEN \<equiv> 20"
abbreviation (input) MIN_PACKET_SIZE :: u32 where "MIN_PACKET_SIZE \<equiv> 42"
abbreviation (input) MIN_TCP_SIZE :: u32 where "MIN_TCP_SIZE \<equiv> 54"
abbreviation (input) BUFSIZE :: nat where "BUFSIZE \<equiv> 2048"

section \<open>VLAN tag (structs.h)\<close>

text \<open>
  \<open>struct vlan_tci\<close> overlays three bitfields and the 16-bit value \<open>i\<close>.  On
  the little-endian target the first field takes the low bits, so of the loaded
  value \<open>pcp\<close> is bits 0 to 2, \<open>dei\<close> bit 3 and \<open>vid\<close> bits 4 to 15.
\<close>

type_synonym vlan_tci = u16

definition vlan_pcp :: "vlan_tci \<Rightarrow> u16" where "vlan_pcp t = take_bit 3 t"
definition vlan_dei :: "vlan_tci \<Rightarrow> u16" where "vlan_dei t = take_bit 1 (drop_bit 3 t)"
definition vlan_vid :: "vlan_tci \<Rightarrow> u16" where "vlan_vid t = drop_bit 4 t"

section \<open>Keys of the connection and pin trees (structs.h, convenience.c)\<close>

record conn_key =
  ck_protocol :: byte
  ck_src_ip :: u32
  ck_src_port :: u16
  ck_dst_ip :: u32
  ck_dst_port :: u16
  ck_vlan_id :: u16

record pin_key =
  pnk_target_ip :: u32
  pnk_handler_ip :: u32
  pnk_vlan_id :: u16

text \<open>
  The unions read the packed fields as one 128-bit number, the first field in
  the low bits; the 12-bit field keeps the low 12 bits of what is stored in it.
\<close>

definition conn_key_key :: "conn_key \<Rightarrow> 128 word" where
  "conn_key_key k =
     (ucast (ck_protocol k)
      OR push_bit 8 (ucast (ck_src_ip k))
      OR push_bit 40 (ucast (ck_src_port k))
      OR push_bit 56 (ucast (ck_dst_ip k))
      OR push_bit 88 (ucast (ck_dst_port k))
      OR push_bit 104 (take_bit 12 (ucast (ck_vlan_id k))))"

definition pin_key_key :: "pin_key \<Rightarrow> 128 word" where
  "pin_key_key k =
     (ucast (pnk_target_ip k)
      OR push_bit 32 (ucast (pnk_handler_ip k))
      OR push_bit 64 (take_bit 12 (ucast (pnk_vlan_id k))))"

text \<open>The comparison functions are reversed: a smaller number compares greater.\<close>

definition intcmp :: "u64 \<Rightarrow> u64 \<Rightarrow> int" where
  "intcmp v1 v2 =
     (if (ucast v1 :: u32) < ucast v2 then 1 else if (ucast v1 :: u32) = ucast v2 then 0 else -1)"

definition pincmp :: "pin_key \<Rightarrow> pin_key \<Rightarrow> int" where
  "pincmp v1 v2 =
     (if pin_key_key v1 < pin_key_key v2 then 1
      else if pin_key_key v1 = pin_key_key v2 then 0 else -1)"

definition conn_key_cmp :: "conn_key \<Rightarrow> conn_key \<Rightarrow> int" where
  "conn_key_cmp v1 v2 =
     (if conn_key_key v1 < conn_key_key v2 then 1
      else if conn_key_key v1 = conn_key_key v2 then 0 else -1)"

lemma rank_comparator:
  fixes f :: "'k \<Rightarrow> 'r::linorder"
  assumes "\<And>x y. cmp x y = (if f x < f y then 1 else if f x = f y then 0 else - (1::int))"
  shows "comparator cmp"
  by unfold_locales (auto simp: assms split: if_splits)

interpretation conn_tree: comparator conn_key_cmp
  by (rule rank_comparator [of _ conn_key_key]) (rule conn_key_cmp_def)

interpretation int_tree: comparator intcmp
  by (rule rank_comparator [of _ "\<lambda>v. ucast v :: u32"]) (rule intcmp_def)

text \<open>Every field of a key can be read back from the number, so equal numbers are equal keys.\<close>

lemma conn_key_fields:
  "ucast (conn_key_key k) = ck_protocol k"
  "ucast (drop_bit 8 (conn_key_key k)) = ck_src_ip k"
  "ucast (drop_bit 40 (conn_key_key k)) = ck_src_port k"
  "ucast (drop_bit 56 (conn_key_key k)) = ck_dst_ip k"
  "ucast (drop_bit 88 (conn_key_key k)) = ck_dst_port k"
  "ucast (drop_bit 104 (conn_key_key k)) = take_bit 12 (ck_vlan_id k)"
  by (rule bit_word_eqI; auto simp: conn_key_key_def bit_simps dest: bit_imp_le_length)+

lemma pin_key_fields:
  "ucast (pin_key_key k) = pnk_target_ip k"
  "ucast (drop_bit 32 (pin_key_key k)) = pnk_handler_ip k"
  "ucast (drop_bit 64 (pin_key_key k)) = take_bit 12 (pnk_vlan_id k)"
  by (rule bit_word_eqI; auto simp: pin_key_key_def bit_simps dest: bit_imp_le_length)+

text \<open>The 12-bit fields hold 12 bits: what a store into one of them leaves there.\<close>

definition vlan_field :: "u16 \<Rightarrow> u16" where
  "vlan_field v = take_bit 12 v"

definition conn_key_wf :: "conn_key \<Rightarrow> bool" where
  "conn_key_wf k = (take_bit 12 (ck_vlan_id k) = ck_vlan_id k)"

definition pin_key_wf :: "pin_key \<Rightarrow> bool" where
  "pin_key_wf k = (take_bit 12 (pnk_vlan_id k) = pnk_vlan_id k)"

lemma vlan_vid_12 [simp]: "take_bit 12 (vlan_vid t) = vlan_vid t"
  by (rule bit_word_eqI) (auto simp: vlan_vid_def bit_simps dest: bit_imp_le_length)

lemma conn_key_key_inject:
  "conn_key_wf a \<Longrightarrow> conn_key_wf b \<Longrightarrow> conn_key_key a = conn_key_key b \<longleftrightarrow> a = b"
  by (metis conn_key.equality conn_key_fields conn_key_wf_def unit_eq)

lemma pin_key_key_inject:
  "pin_key_wf a \<Longrightarrow> pin_key_wf b \<Longrightarrow> pin_key_key a = pin_key_key b \<longleftrightarrow> a = b"
  by (metis pin_key.equality pin_key_fields pin_key_wf_def unit_eq)

lemma conn_key_cmp_0: "conn_key_cmp a b = 0 \<longleftrightarrow> conn_key_key a = conn_key_key b"
  by (auto simp: conn_key_cmp_def)

lemma pincmp_0: "pincmp a b = 0 \<longleftrightarrow> pin_key_key a = pin_key_key b"
  by (auto simp: pincmp_def)

lemma intcmp_0: "intcmp a b = 0 \<longleftrightarrow> (ucast a :: u32) = ucast b"
  by (auto simp: intcmp_def)

section \<open>Decision rules and module parameters (structs.h)\<close>

text \<open>
  A parameter of a module is what the parser stored for it: the text of a word,
  the address of an integer, or the key file a backup was loaded into.  The
  hash table gives every module an untyped pointer, so a reader may take one
  kind for another; \<open>cfg_val\<close> keeps what was stored.
\<close>

datatype honeybrid_modules_t =
    MOD_SOURCE | MOD_SOURCE_TIME | MOD_RANDOM | MOD_YESNO | MOD_COUNTER | MOD_VMI
  | MOD_CONTROL | MOD_BACKPICK_RANDOM | MOD_DNS_CONTROL | MOD_HASH

datatype cfg_val = CfgString string | CfgInt int | CfgKeyFile ptr

type_synonym config = "string \<rightharpoonup> cfg_val"

datatype node = Node
  (nd_module: "honeybrid_modules_t option")
  (nd_config: config)
  (nd_module_name: string)
  (nd_function: string)
  (nd_true: "node option")
  (nd_false: "node option")

section \<open>Interfaces, handlers, targets and pins (structs.h)\<close>

text \<open>The name and the filter of an interface are NULL until the configuration sets them.\<close>

record interface =
  if_name :: "string option"
  if_tag :: string
  if_filter :: "string option"
  if_promisc :: int
  if_ip :: "u32 option"
  if_mac :: mac_t
  if_mtu :: u32
  if_target :: "ptr option"

record handler =
  hd_ID :: u64
  hd_mac :: "mac_t option"
  hd_ip :: "u32 option"
  hd_netmask :: "u32 option"
  hd_vlan :: vlan_tci
  hd_iface :: "ptr option"
  hd_rule :: "node option"
  hd_exclusive :: byte
  hd_intra_target_ips :: "u32 list"

record target =
  tg_targetID :: u64
  tg_default_route :: "ptr option"
  tg_default_route_ip :: "u32 option"
  tg_default_route_mac :: "mac_t option"
  tg_front_handler :: "ptr option"
  tg_back_handlers :: "(u64, ptr) gtree"
  tg_back_handler_count :: u64
  tg_back_picker :: "node option"
  tg_intra_handlers :: "(u32, ptr) gtree"
  tg_intra_handlers_list :: "ptr list"
  tg_control_rule :: "node option"
  tg_intra_rule :: "node option"

text \<open>
  A pin key is a block of its own: it is shared between a pin, a tree and a
  connection by its address, and freed.  Its contents do not change once it is
  shared, so a reference is the address together with the contents.
\<close>

type_synonym pin_key_ref = "ptr \<times> pin_key"

definition pinrefcmp :: "pin_key_ref \<Rightarrow> pin_key_ref \<Rightarrow> int" where
  "pinrefcmp a b = pincmp (snd a) (snd b)"

interpretation pin_tree: comparator pinrefcmp
  by (rule rank_comparator [of _ "\<lambda>r. pin_key_key (snd r)"]) (simp add: pinrefcmp_def pincmp_def)

record pin =
  pin_pin_key :: pin_key_ref
  pin_ip :: u32
  pin_count :: u64

section \<open>Packets (structs.h)\<close>

text \<open>
  \<open>FRAME\<close> is the allocated copy of the frame, \<open>pkt_flen\<close> bytes long.  The
  header pointers of \<open>struct packet\<close> point into it and are offsets here:
  \<open>pkt_eth\<close> (the union of \<open>eth\<close> and \<open>vlan\<close>), \<open>pkt_ip\<close>, \<open>pkt_l4\<close> (the union of
  \<open>tcp\<close> and \<open>udp\<close>) and \<open>pkt_payload\<close>.  The copies of the original headers are
  buffers of their own, absent while the pointer is NULL.
\<close>

record headers =
  oh_eth :: "mem option"
  oh_vlan :: "mem option"
  oh_ip :: "mem option"
  oh_tcp :: "mem option"
  oh_udp :: "mem option"

record nat_struct =
  nat_src_ip :: "u32 option"
  nat_dst_mac :: "mac_t option"
  nat_dst_ip :: "u32 option"
  nat_dst_vlan :: "vlan_tci option"

record pkt_struct =
  pkt_FRAME :: mem
  pkt_flen :: nat
  pkt_eth :: nat
  pkt_ip :: nat
  pkt_l4 :: nat
  pkt_payload :: nat
  pkt_original_headers :: headers
  pkt_fragmented :: bool
  pkt_broadcast :: bool
  pkt_origin :: role_t
  pkt_destination :: role_t
  pkt_data :: u32
  pkt_size :: u32
  pkt_DE :: int
  pkt_conn :: "ptr option"
  pkt_nat :: nat_struct
  pkt_position :: int
  pkt_in :: ptr
  pkt_out :: "ptr option"

section \<open>Connections (structs.h)\<close>

record hih_struct =
  hih_hihID :: u64
  hih_back_handler :: "ptr option"
  hih_port :: u16
  hih_lih_syn_seq :: u32
  hih_delta :: u32
  hih_redirected_int_key :: "conn_key option"
  hih_target_pin_key :: "pin_key_ref option"

text \<open>The expected payload is a pointer into a buffered frame: the bytes from there to the
  end of that frame.\<close>

record expected_data_struct =
  ex_ip_proto :: u16
  ex_tcp_seq :: u32
  ex_tcp_ack_seq :: u32
  ex_tcp_ts :: int
  ex_payload :: "byte list option"

text \<open>
  Times are in microseconds (\<open>microtime\<close> is a floating-point number of seconds
  in the code), \<open>cn_access_time\<close> in seconds.  The tables indexed by a state
  are functions of the state.  \<open>cn_pin_ip\<close> points to the address inside a pin
  and is the pin here; \<open>cn_locked\<close> is whether the connection's mutex is held.
\<close>

record conn_struct =
  cn_ext_key :: "conn_key option"
  cn_int_key :: "conn_key option"
  cn_intra_key :: "conn_key option"
  cn_pin_key :: "pin_key_ref option"
  cn_locked :: bool
  cn_protocol :: byte
  cn_start_microtime :: int
  cn_access_time :: int
  cn_tcp_ts_diff :: int
  cn_state :: conn_status_t
  cn_id :: u32
  cn_replay_id :: nat
  cn_count_data_pkt_from_lih :: u32
  cn_count_data_pkt_from_intruder :: u32
  cn_BUFFER :: "pkt_struct list"
  cn_expected_data :: expected_data_struct
  cn_initiator :: role_t
  cn_destination :: role_t
  cn_first_pkt_vlan :: vlan_tci
  cn_first_pkt_src_mac :: mac_t
  cn_first_pkt_dst_mac :: mac_t
  cn_first_pkt_src_ip :: u32
  cn_first_pkt_dst_ip :: u32
  cn_first_pkt_src_port :: u16
  cn_first_pkt_dst_port :: u16
  cn_hih :: hih_struct
  cn_intra_handler :: "ptr option"
  cn_target :: ptr
  cn_pin_ip :: "ptr option"
  cn_stat_time :: "conn_status_t \<Rightarrow> int"
  cn_stat_packet :: "conn_status_t \<Rightarrow> u32"
  cn_stat_byte :: "conn_status_t \<Rightarrow> u32"
  cn_total_packet :: u32
  cn_total_byte :: u32
  cn_decision_packet_id :: u32
  cn_decision_rule :: string
  cn_replay_problem :: u32

text \<open>A zeroed connection (\<open>g_malloc0\<close>) of a target.\<close>

definition zero_hih :: hih_struct where
  "zero_hih = \<lparr>hih_hihID = 0, hih_back_handler = None, hih_port = 0, hih_lih_syn_seq = 0, hih_delta = 0,
     hih_redirected_int_key = None, hih_target_pin_key = None\<rparr>"

definition zero_expected :: expected_data_struct where
  "zero_expected = \<lparr>ex_ip_proto = 0, ex_tcp_seq = 0, ex_tcp_ack_seq = 0, ex_tcp_ts = 0, ex_payload = None\<rparr>"

definition zero_conn :: "ptr \<Rightarrow> conn_struct" where
  "zero_conn target =
     \<lparr>cn_ext_key = None, cn_int_key = None, cn_intra_key = None, cn_pin_key = None, cn_locked = False,
      cn_protocol = 0, cn_start_microtime = 0, cn_access_time = 0, cn_tcp_ts_diff = 0, cn_state = INVALID,
      cn_id = 0, cn_replay_id = 0, cn_count_data_pkt_from_lih = 0, cn_count_data_pkt_from_intruder = 0,
      cn_BUFFER = [], cn_expected_data = zero_expected, cn_initiator = EXT, cn_destination = EXT,
      cn_first_pkt_vlan = 0, cn_first_pkt_src_mac = 0, cn_first_pkt_dst_mac = 0, cn_first_pkt_src_ip = 0,
      cn_first_pkt_dst_ip = 0, cn_first_pkt_src_port = 0, cn_first_pkt_dst_port = 0, cn_hih = zero_hih,
      cn_intra_handler = None, cn_target = target, cn_pin_ip = None, cn_stat_time = (\<lambda>_. 0),
      cn_stat_packet = (\<lambda>_. 0), cn_stat_byte = (\<lambda>_. 0), cn_total_packet = 0, cn_total_byte = 0,
      cn_decision_packet_id = 0, cn_decision_rule = [], cn_replay_problem = 0\<rparr>"

section \<open>What the environment answers\<close>

text \<open>
  The calls that leave the program are functions of this record and arguments
  of every definition that makes them: the clock, \<open>rand\<close> (its n-th answer),
  whether \<open>pcap_inject\<close> took a frame; of the network library the address
  comparison, the text forms of addresses, the length of its ICMP header and
  needfrag message and the macro that fills them in; the replacement of the
  addresses in a payload by the regular expression library (\<open>None\<close> when there is
  no match), the digest of the crypto library, and the byte an uninitialised
  block of memory holds.
\<close>

record GTimeVal =
  tv_sec :: int
  tv_usec :: int

record env =
  ev_time :: GTimeVal
  ev_rand :: "nat \<Rightarrow> nat"
  ev_inject :: "ptr \<Rightarrow> byte list \<Rightarrow> bool"
  ev_addr_cmp :: "u32 \<Rightarrow> u32 \<Rightarrow> int"
  ev_needfrag_len :: nat
  ev_needfrag_pack :: "mem \<Rightarrow> nat \<Rightarrow> u32 \<Rightarrow> byte list \<Rightarrow> mem"
  ev_pton_ip :: "string \<Rightarrow> u32"
  ev_pton_mac :: "string \<Rightarrow> mac_t"
  ev_mask_ips :: "byte list \<Rightarrow> byte list option"
  ev_digest :: "byte list \<Rightarrow> byte list"
  ev_uninit :: byte

definition microtime :: "env \<Rightarrow> int" where
  "microtime E = tv_sec (ev_time E) * 1000000 + tv_usec (ev_time E)"

text \<open>\<open>int curtime = t.tv_sec\<close>, \<open>gint now = t.tv_sec\<close>\<close>

definition now_int :: "env \<Rightarrow> int" where
  "now_int E = to_int32 (tv_sec (ev_time E))"

section \<open>Keys are told apart\<close>

text \<open>C21: The comparison of the connection trees tells two keys apart exactly when they differ in the protocol, an
  address, a port or the twelve bits of the VLAN.\<close>

theorem conn_key_cmp_fields:
  "conn_key_cmp a b = 0 \<longleftrightarrow>
     ck_protocol a = ck_protocol b \<and> ck_src_ip a = ck_src_ip b \<and> ck_src_port a = ck_src_port b \<and>
     ck_dst_ip a = ck_dst_ip b \<and> ck_dst_port a = ck_dst_port b \<and>
     take_bit 12 (ck_vlan_id a) = take_bit 12 (ck_vlan_id b)"
proof
  assume "conn_key_cmp a b = 0"
  then have "conn_key_key a = conn_key_key b" by (simp add: conn_key_cmp_0)
  then show "ck_protocol a = ck_protocol b \<and> ck_src_ip a = ck_src_ip b \<and> ck_src_port a = ck_src_port b \<and>
     ck_dst_ip a = ck_dst_ip b \<and> ck_dst_port a = ck_dst_port b \<and> take_bit 12 (ck_vlan_id a) = take_bit 12 (ck_vlan_id b)"
    by (metis conn_key_fields)
next
  assume "ck_protocol a = ck_protocol b \<and> ck_src_ip a = ck_src_ip b \<and> ck_src_port a = ck_src_port b \<and>
     ck_dst_ip a = ck_dst_ip b \<and> ck_dst_port a = ck_dst_port b \<and> take_bit 12 (ck_vlan_id a) = take_bit 12 (ck_vlan_id b)"
  moreover have "(take_bit 12 (ucast x) :: 128 word) = ucast (take_bit 12 x)" for x :: u16
    by (rule bit_word_eqI) (auto simp: bit_simps)
  ultimately show "conn_key_cmp a b = 0" by (simp add: conn_key_cmp_0 conn_key_key_def)
qed

end
