(* ===== verification/Checksum.thy ===== *)
theory Checksum
  imports HB_Types
begin

text \<open>
  The Internet checksum of \<open>netcode.c\<close>: the summing loop, the checksum of the
  IP header and the checksum of a TCP segment under its pseudo header.  The
  loop is shown equal to the one's complement sum of the 16-bit words, and a
  header or segment whose checksum field was set by the code verifies.
\<close>

section \<open>The loop (netcode.c, in_cksum)\<close>

fun in_cksum_loop :: "mem \<Rightarrow> nat \<Rightarrow> nat \<Rightarrow> u32 \<Rightarrow> u32 \<times> nat \<times> nat" where
  "in_cksum_loop f w nleft acc =
     (if nleft > 1 then in_cksum_loop f (w + 2) (nleft - 2) (acc + ucast (get16 f w))
      else (acc, w, nleft))"

declare in_cksum_loop.simps [simp del]

definition in_cksum :: "mem \<Rightarrow> nat \<Rightarrow> nat \<Rightarrow> u16" where
  "in_cksum f addr len =
     (let (acc, w, nleft) = in_cksum_loop f addr len 0;
          acc = (if nleft = 1 then acc + ucast (ucast (f w) :: u16) else acc);
          acc = drop_bit 16 acc + (acc AND 0xffff);
          acc = acc + drop_bit 16 acc
      in ucast (NOT acc))"

section \<open>Setting the checksums (netcode.c)\<close>

text \<open>\<open>check\<close> is at offset 10 of the IP header; the sum runs over \<open>sizeof(struct iphdr)\<close>.\<close>

definition set_ip_checksum :: "mem \<Rightarrow> nat \<Rightarrow> mem" where
  "set_ip_checksum f hdr =
     (let f = put16 f (hdr + 10) (htons 0)
      in put16 f (hdr + 10) (in_cksum f hdr 20))"

text \<open>\<open>((struct udp_packet * )hdr)->udp.check\<close> lies 26 bytes after the IP header's start.\<close>

definition set_udp_checksum :: "mem \<Rightarrow> nat \<Rightarrow> mem" where
  "set_udp_checksum f hdr = put16 f (hdr + 26) (htons 0)"

definition ip_ihl :: "mem \<Rightarrow> nat \<Rightarrow> nat" where
  "ip_ihl f ip = unat (bits 0 4 (f ip))"

definition ip_tot_len :: "mem \<Rightarrow> nat \<Rightarrow> u16" where
  "ip_tot_len f ip = get16 f (ip + 2)"

text \<open>
  \<open>tcp_checksum\<close> copies pseudo header, TCP header and payload into one zeroed
  buffer of 12 + 20 + \<open>BUFSIZE\<close> bytes and sums it.  The length of the second
  \<open>memcpy\<close> is an \<open>int\<close>: negative, it becomes a huge \<open>size_t\<close>; above
  \<open>BUFSIZE\<close> it writes past the buffer; past \<open>flen\<close> it reads outside the frame.
\<close>

definition HDRDATA_SIZE :: "mem \<Rightarrow> nat \<Rightarrow> u16" where
  "HDRDATA_SIZE f pkt = ntohs (ip_tot_len f pkt) - of_nat (ip_ihl f pkt * 4)"

definition tcp_chk_packet :: "mem \<Rightarrow> nat \<Rightarrow> mem" where
  "tcp_chk_packet f pkt =
     (let chk = (\<lambda>_. 0);
          chk = put32 chk 0 (get32 f (pkt + 12));
          chk = put32 chk 4 (get32 f (pkt + 16));
          chk = chk(9 := IPPROTO_TCP);
          chk = put16 chk 10 (htons (HDRDATA_SIZE f pkt));
          chk = memput chk 12 (memget f (pkt + 20) TCP_HDR_LEN)
      in memput chk 32 (memget f (pkt + 40) (unat (HDRDATA_SIZE f pkt) - TCP_HDR_LEN)))"

definition tcp_checksum :: "mem \<Rightarrow> nat \<Rightarrow> nat \<Rightarrow> u16 res" where
  "tcp_checksum f flen pkt =
     rbind (guard OutOfBounds
        (pkt + 40 \<le> flen \<and>
         TCP_HDR_LEN \<le> unat (HDRDATA_SIZE f pkt) \<and>
         unat (HDRDATA_SIZE f pkt) \<le> TCP_HDR_LEN + BUFSIZE \<and>
         pkt + 20 + unat (HDRDATA_SIZE f pkt) \<le> flen))
       (\<lambda>_. Inr (in_cksum (tcp_chk_packet f pkt) 0 (12 + unat (HDRDATA_SIZE f pkt))))"

definition set_tcp_checksum :: "mem \<Rightarrow> nat \<Rightarrow> nat \<Rightarrow> mem res" where
  "set_tcp_checksum f flen hdr =
     (let f = put16 f (hdr + 36) (htons 0)
      in rbind (tcp_checksum f flen hdr) (\<lambda>c. Inr (put16 f (hdr + 36) c)))"

section \<open>The reference: one's complement sum\<close>

definition cksum_total :: "mem \<Rightarrow> nat \<Rightarrow> nat \<Rightarrow> nat" where
  "cksum_total f off len =
     (\<Sum>i < len div 2. unat (get16 f (off + 2 * i)))
     + (if odd len then unat (f (off + len - 1)) else 0)"

text \<open>The sum with end-around carry of a total: 0 only for a total of 0.\<close>

definition ones_fold :: "nat \<Rightarrow> nat" where
  "ones_fold s = (if s = 0 then 0 else (s - 1) mod 65535 + 1)"

text \<open>
  What RFC 793 asks of a segment in an IP packet without options, written without the program's routines: the
  16-bit words in network order of the source and the destination address, the protocol number 6, the length of the
  segment and the segment itself, a last odd byte being the high byte of its word, add up to a multiple of 65535
  (a one's complement zero).
\<close>

definition net_word :: "mem \<Rightarrow> nat \<Rightarrow> nat" where
  "net_word f i = 256 * unat (f i) + unat (f (i + 1))"

definition net_sum :: "mem \<Rightarrow> nat \<Rightarrow> nat \<Rightarrow> nat" where
  "net_sum f off n = (\<Sum>i < n div 2. net_word f (off + 2 * i)) + (if odd n then 256 * unat (f (off + n - 1)) else 0)"

definition tcp_segment_len :: "mem \<Rightarrow> nat \<Rightarrow> nat" where
  "tcp_segment_len f ip = net_word f (ip + 2) - 20"

definition tcp_pseudo_sum :: "mem \<Rightarrow> nat \<Rightarrow> nat" where
  "tcp_pseudo_sum f ip = net_word f (ip + 12) + net_word f (ip + 14) + net_word f (ip + 16) + net_word f (ip + 18) +
     6 + tcp_segment_len f ip"

definition tcp_segment_sum :: "mem \<Rightarrow> nat \<Rightarrow> nat" where
  "tcp_segment_sum f ip = tcp_pseudo_sum f ip + net_sum f (ip + 20) (tcp_segment_len f ip)"

lemma ones_fold_le: "ones_fold s \<le> 65535"
proof -
  have "(s - 1) mod 65535 < 65535" by simp
  then show ?thesis by (simp add: ones_fold_def Suc_le_eq)
qed

lemma ones_fold_verify: "ones_fold (s + (65535 - ones_fold s)) = 65535"
proof (cases "s = 0")
  case True
  then show ?thesis by (simp add: ones_fold_def)
next
  case False
  define q m where "q = (s - 1) div 65535" and "m = (s - 1) mod 65535"
  have "s - 1 = 65535 * q + m" unfolding q_def m_def by (simp only: mult_div_mod_eq)
  then have s: "s = 65535 * q + m + 1" using False by simp
  have f: "ones_fold s = m + 1" and m: "m < 65535"
    using False by (simp_all add: ones_fold_def m_def)
  have "s + (65535 - ones_fold s) = 65535 * q + 65535"
    unfolding f using s m by simp
  moreover have "(65535 * q + 65534) mod 65535 = 65534"
    by (simp only: mod_mult_self4) simp
  ultimately show ?thesis by (simp add: ones_fold_def)
qed

lemma two_folds:
  assumes "s < 2 ^ 32"
  shows "(let a = s div 65536 + s mod 65536 in (a + a div 65536) mod 65536) = ones_fold s"
proof -
  define h where "h = s div 65536"
  define l where "l = s mod 65536"
  have s: "s = 65536 * h + l" and l: "l < 65536" and h: "h < 65536"
    using assms by (simp_all add: h_def l_def)
  show ?thesis
  proof (cases "h + l < 65536")
    case True
    show ?thesis
    proof (cases "h + l = 0")
      case True
      then show ?thesis using s by (simp add: ones_fold_def flip: h_def l_def)
    next
      case False
      have "s - 1 = 65535 * h + (h + l - 1)" using s False by simp
      moreover have "h + l - 1 < 65535" using True by simp
      ultimately have "(s - 1) mod 65535 = h + l - 1" by (simp only: mod_mult_self4 mod_less)
      then have "ones_fold s = h + l" using False s by (auto simp: ones_fold_def)
      then show ?thesis using True by (simp add: Let_def flip: h_def l_def)
    qed
  next
    case False
    define r where "r = h + l - 65536"
    have hl: "h + l = 65536 + r" and r: "r < 65535" using False l h by (simp_all add: r_def)
    have "s - 1 = 65535 * (h + 1) + r" using s hl by simp
    then have "(s - 1) mod 65535 = r" using r by (simp only: mod_mult_self4 mod_less)
    then have "ones_fold s = r + 1" using s hl by (auto simp: ones_fold_def)
    moreover have "(65536 + r) div 65536 = 1" using r by (simp add: div_add_self1)
    moreover have "(65536 + (r + 1)) mod 65536 = r + 1" using r by (simp only: mod_add_self1) simp
    ultimately show ?thesis using hl by (simp add: Let_def flip: h_def l_def)
  qed
qed

lemma in_cksum_loop_eq:
  "in_cksum_loop f w nleft s =
     (s + of_nat (\<Sum>i < nleft div 2. unat (get16 f (w + 2 * i))), w + 2 * (nleft div 2), nleft mod 2)"
proof (induction f w nleft s rule: in_cksum_loop.induct)
  case (1 f w nleft s)
  show ?case
  proof (cases "nleft > 1")
    case True
    define n where "n = (nleft - 2) div 2"
    have n: "nleft div 2 = Suc n" using True by (simp add: n_def le_div_geq)
    have m: "(nleft - 2) mod 2 = nleft mod 2" using True by (simp add: le_mod_geq)
    have "in_cksum_loop f w nleft s = in_cksum_loop f (w + 2) (nleft - 2) (s + ucast (get16 f w))"
      using True by (subst in_cksum_loop.simps) simp
    also have "\<dots> = (s + ucast (get16 f w) + of_nat (\<Sum>i<n. unat (get16 f (w + 2 + 2 * i))),
        w + 2 + 2 * n, nleft mod 2)"
      using "1.IH" [OF True] by (simp add: n_def m)
    also have "ucast (get16 f w) = (of_nat (unat (get16 f w)) :: u32)" by (rule ucast_of_nat)
    finally show ?thesis
      by (simp add: n sum.lessThan_Suc_shift add.assoc del: sum.lessThan_Suc)
  next
    case False
    then have "nleft div 2 = 0" "nleft mod 2 = nleft" by auto
    with False show ?thesis by (simp add: in_cksum_loop.simps)
  qed
qed

lemma fold_word:
  fixes s :: u32
  shows "unat (ucast (NOT (let a = drop_bit 16 s + (s AND 0xffff) in a + drop_bit 16 a)) :: u16)
    = 65535 - ones_fold (unat s)"
proof -
  define a where "a = drop_bit 16 s + (s AND 0xffff)"
  have b: "unat (drop_bit 16 s) = unat s div 65536" by (simp only: unat_drop_bit_eq) (simp add: drop_bit_eq_div)
  have c: "unat (s AND 0xffff) = unat s mod 65536"
  proof -
    have "s AND 0xffff = take_bit 16 s" by (simp add: take_bit_eq_mask mask_eq_exp_minus_1)
    then show ?thesis by (simp add: take_bit_eq_mod unat_mod)
  qed
  have lt: "unat s < 2 ^ 32" using unsigned_less [where 'a = nat, of s] by simp
  have bnd: "unat s div 65536 < 65536" using lt by (simp add: less_mult_imp_div_less)
  have ua: "unat a = unat s div 65536 + unat s mod 65536"
    unfolding a_def using bnd mod_less_divisor [of 65536 "unat s"]
    by (subst unat_add_lem [THEN iffD1]) (simp_all only: b c, simp_all)
  have ub: "unat (drop_bit 16 a) = unat a div 65536"
    by (simp only: unat_drop_bit_eq) (simp add: drop_bit_eq_div)
  have alt: "unat a \<le> 131070" using ua bnd mod_less_divisor [of 65536 "unat s"] by linarith
  have usum: "unat (a + drop_bit 16 a) = unat a + unat a div 65536"
    using alt by (subst unat_add_lem [THEN iffD1]) (simp_all only: ub, simp_all add: less_le_trans [OF le_imp_less_Suc])
  have "unat (ucast (a + drop_bit 16 a) :: u16) = (unat a + unat a div 65536) mod 65536"
    unfolding usum [symmetric] by (simp add: unsigned_ucast_eq take_bit_eq_mod)
  also have "\<dots> = ones_fold (unat s)"
    using two_folds [OF lt] by (simp add: Let_def ua)
  finally have e: "unat (ucast (a + drop_bit 16 a) :: u16) = ones_fold (unat s)" .
  have "(ucast (NOT (a + drop_bit 16 a)) :: u16) = NOT (ucast (a + drop_bit 16 a))"
    by (rule ucast_NOT16)
  moreover have "unat (NOT x) = 65535 - unat x" for x :: u16
  proof -
    have "NOT x = - 1 - x" by (simp add: not_eq_complement)
    then show ?thesis using unat_sub [of x "- 1"] by (simp add: unsigned_minus_1_eq_mask mask_eq_exp_minus_1)
  qed
  ultimately show ?thesis using e by (simp only: Let_def a_def [symmetric])
qed


lemma cksum_total_bound:
  assumes "len \<le> 131070"
  shows "cksum_total f off len < 2 ^ 32"
proof -
  have "(\<Sum>i<len div 2. unat (get16 f (off + 2 * i))) \<le> (\<Sum>i<len div 2. 65535)"
    by (rule sum_mono) (rule unat_bounds)
  also have "\<dots> \<le> 65535 * 65535" using assms by simp
  finally have "(\<Sum>i<len div 2. unat (get16 f (off + 2 * i))) \<le> 65535 * 65535" .
  moreover have "(if odd len then unat (f (off + len - 1)) else 0) \<le> 255"
    by (simp add: unat_bounds)
  ultimately show ?thesis by (simp add: cksum_total_def)
qed

lemma in_cksum_ref:
  assumes "len \<le> 131070"
  shows "unat (in_cksum f off len) = 65535 - ones_fold (cksum_total f off len)"
proof -
  define s where "s = (of_nat (cksum_total f off len) :: u32)"
  have s: "unat s = cksum_total f off len"
    using cksum_total_bound [OF assms, of f off] by (simp add: s_def unsigned_of_nat take_bit_eq_mod)
  have "in_cksum f off len = ucast (NOT (let a = drop_bit 16 s + (s AND 0xffff) in a + drop_bit 16 a))"
  proof (cases "odd len")
    case True
    then have "off + 2 * (len div 2) = off + len - 1" "len mod 2 = 1" by presburger+
    then show ?thesis
      by (simp add: in_cksum_def in_cksum_loop_eq s_def cksum_total_def Let_def True)
  next
    case False
    then show ?thesis
      by (simp add: in_cksum_def in_cksum_loop_eq s_def cksum_total_def Let_def)
  qed
  then show ?thesis by (simp only: fold_word s)
qed

section \<open>Correctness\<close>

text \<open>Filling a zero word with the checksum makes the whole verify.\<close>

lemma cksum_total_put:
  assumes "j < len div 2" and "get16 f (off + 2 * j) = 0"
  shows "cksum_total (put16 f (off + 2 * j) v) off len = cksum_total f off len + unat v"
proof -
  let ?g = "\<lambda>f i. unat (get16 f (off + 2 * i))"
  let ?f' = "put16 f (off + 2 * j) v"
  have other: "?g ?f' i = ?g f i" if "i \<noteq> j" for i
    using that by (subst get_put16_other) auto
  have mem: "j \<in> {..<len div 2}" using assms(1) by simp
  have "sum (?g ?f') {..<len div 2} = ?g ?f' j + sum (?g ?f') ({..<len div 2} - {j})"
    by (rule sum.remove [OF _ mem]) simp
  also have "\<dots> = unat v + sum (?g f) ({..<len div 2} - {j})"
    by (simp add: get16_put16_same other cong: sum.cong_simp)
  also have "sum (?g f) ({..<len div 2} - {j}) = sum (?g f) {..<len div 2}"
    using sum.remove [OF _ mem, of "?g f"] assms(2) by simp
  finally have "sum (?g ?f') {..<len div 2} = sum (?g f) {..<len div 2} + unat v" by simp
  moreover have "odd len \<Longrightarrow> ?f' (off + len - 1) = f (off + len - 1)"
  proof (rule put_out(1))
    assume "odd len"
    then have "2 * (len div 2) = len - 1" by (simp add: odd_two_times_div_two_nat)
    then show "off + len - 1 < off + 2 * j \<or> off + 2 * j + 2 \<le> off + len - 1"
      using assms(1) by linarith
  qed
  ultimately show ?thesis by (simp add: cksum_total_def)
qed

lemma in_cksum_verifies:
  assumes "len \<le> 131070" and "j < len div 2" and "get16 f (off + 2 * j) = 0"
  shows "in_cksum (put16 f (off + 2 * j) (in_cksum f off len)) off len = 0"
proof -
  have "unat (in_cksum (put16 f (off + 2 * j) (in_cksum f off len)) off len) = 0"
    using in_cksum_ref [OF assms(1)] ones_fold_verify
    by (simp add: cksum_total_put [OF assms(2,3)])
  then show ?thesis by (simp add: unat_eq_0)
qed

lemma set_ip_checksum_verifies: "in_cksum (set_ip_checksum f hdr) hdr 20 = 0"
proof -
  have "hdr + 10 = hdr + 2 * 5" by simp
  then show ?thesis
    unfolding set_ip_checksum_def Let_def
    by (simp only:) (rule in_cksum_verifies, simp_all add: mem_simps ntohs_def)
qed

text \<open>The pseudo header does not depend on the checksum field, which lands at its word 14.\<close>

lemma HDRDATA_put:
  "hdr + 4 \<le> off \<Longrightarrow> HDRDATA_SIZE (put16 f off v) hdr = HDRDATA_SIZE f hdr"
  by (simp add: HDRDATA_SIZE_def ip_tot_len_def ip_ihl_def mem_simps)

lemma tcp_chk_packet_put:
  "tcp_chk_packet (put16 f (hdr + 36) v) hdr = put16 (tcp_chk_packet f hdr) 28 v"
proof -
  let ?f = "put16 f (hdr + 36) v"
  have h: "HDRDATA_SIZE ?f hdr = HDRDATA_SIZE f hdr" by (rule HDRDATA_put) simp
  have p: "memget ?f (hdr + 40) n = memget f (hdr + 40) n" for n
    unfolding put16_def by (rule memget_put_other) simp
  have t: "memput chk 12 (memget ?f (hdr + 20) 20) = put16 (memput chk 12 (memget f (hdr + 20) 20)) 28 v" for chk
    by (rule ext) (auto simp: memput_def put16_def nth_Cons' bytes16_def)
  have c: "memput (put16 chk 28 v) 32 bs = put16 (memput chk 32 bs) 28 v" for chk bs
    by (rule ext) (auto simp: memput_def put16_def)
  have "get32 ?f (hdr + 12) = get32 f (hdr + 12)" "get32 ?f (hdr + 16) = get32 f (hdr + 16)"
    by (simp_all add: mem_simps)
  then show ?thesis by (simp only: tcp_chk_packet_def Let_def h p t c)
qed

lemma set_tcp_checksum_verifies:
  assumes "set_tcp_checksum f flen hdr = Inr f'"
  shows "tcp_checksum f' flen hdr = Inr 0"
proof -
  define f1 where "f1 = put16 f (hdr + 36) (htons 0)"
  from assms obtain c where c: "tcp_checksum f1 flen hdr = Inr c" and f': "f' = put16 f1 (hdr + 36) c"
    by (auto simp: set_tcp_checksum_def f1_def Let_def rbind_simps)
  let ?n = "unat (HDRDATA_SIZE f1 hdr)"
  from c have n: "20 \<le> ?n" "?n \<le> 2068" and ceq: "c = in_cksum (tcp_chk_packet f1 hdr) 0 (12 + ?n)"
    by (auto simp: tcp_checksum_def rbind_simps)
  have h: "HDRDATA_SIZE f' hdr = HDRDATA_SIZE f1 hdr" unfolding f' by (rule HDRDATA_put) simp
  have "tcp_chk_packet f1 hdr = put16 (tcp_chk_packet f hdr) 28 0"
    unfolding f1_def tcp_chk_packet_put by (simp add: ntohs_def)
  then have z: "get16 (tcp_chk_packet f1 hdr) (0 + 2 * 14) = 0" by (simp add: mem_simps)
  have "tcp_chk_packet f' hdr = put16 (tcp_chk_packet f1 hdr) (0 + 2 * 14) c"
    unfolding f' tcp_chk_packet_put by simp
  then have "in_cksum (tcp_chk_packet f' hdr) 0 (12 + ?n) = 0"
    unfolding ceq using n by (simp only:) (rule in_cksum_verifies [OF _ _ z], simp_all)
  with c show ?thesis by (auto simp: tcp_checksum_def h rbind_simps)
qed

text \<open>The host sums the words in its own byte order, which multiplies the sum by 256 modulo 65535.\<close>

lemma unat_cat8: "unat (word_cat a b :: u16) = 256 * unat (a :: byte) + unat (b :: byte)"
proof -
  have l: "unat a < 256" "unat b < 256" using unsigned_less [where 'a = nat, of a] unsigned_less [where 'a = nat, of b] by simp_all
  then have c: "unat (ucast a :: u16) = unat a" "unat (ucast b :: u16) = unat b"
    by (simp_all add: unsigned_ucast_eq take_bit_nat_eq_self)
  have "(word_cat a b :: u16) = push_bit 8 (ucast a) + ucast b" by (simp add: word_cat_eq)
  then have "unat (word_cat a b :: u16) = (unat (push_bit 8 (ucast a :: u16)) + unat b) mod 65536"
    by (simp add: unat_word_ariths c)
  also have "unat (push_bit 8 (ucast a :: u16)) = (256 * unat a) mod 65536"
    by (simp only: unsigned_push_bit_eq) (simp add: take_bit_eq_mod push_bit_eq_mult c mult.commute)
  finally show ?thesis using l by simp
qed

lemma bytes_net: "ntohs (word_cat (a :: byte) (b :: byte)) = word_cat b a"
  by (simp add: ntohs_def ucast_word_cat16)

lemma net_word_get16: "net_word f i = unat (ntohs (get16 f i))"
  by (simp add: net_word_def get16_def bytes_net unat_cat8)

lemma cksum_total_net: "\<exists>k. 256 * net_sum f off n = cksum_total f off n + 65535 * k"
proof -
  have w: "256 * net_word f i = unat (get16 f i) + 65535 * unat (f i)" for i
    by (simp add: net_word_def get16_def unat_cat8)
  have "256 * (\<Sum>i < n div 2. net_word f (off + 2 * i)) =
      (\<Sum>i < n div 2. unat (get16 f (off + 2 * i))) + 65535 * (\<Sum>i < n div 2. unat (f (off + 2 * i)))"
    by (simp add: sum_distrib_left w flip: sum.distrib)
  then have "256 * net_sum f off n = cksum_total f off n +
      65535 * ((\<Sum>i < n div 2. unat (f (off + 2 * i))) + (if odd n then unat (f (off + n - 1)) else 0))"
    by (simp add: net_sum_def cksum_total_def algebra_simps)
  then show ?thesis by blast
qed

lemma net_sum_append:
  assumes "even m"
  shows "net_sum f off (m + n) = net_sum f off m + net_sum f (off + m) n"
proof -
  obtain h where m: "m = 2 * h" using assms by (elim evenE)
  have d: "(m + n) div 2 = h + n div 2" "m div 2 = h" by (simp_all add: m)
  have "(\<Sum>i < h + k. net_word f (off + 2 * i)) = (\<Sum>i < h. net_word f (off + 2 * i)) + (\<Sum>i < k. net_word f (off + m + 2 * i))" for k
    by (induction k) (simp_all add: m algebra_simps)
  from this [of "n div 2"] show ?thesis unfolding net_sum_def d using assms by (simp add: add.assoc)
qed


lemma tcp_chk_packet_seg:
  "i < unat (HDRDATA_SIZE f ip) \<Longrightarrow> TCP_HDR_LEN \<le> unat (HDRDATA_SIZE f ip) \<Longrightarrow> tcp_chk_packet f ip (12 + i) = f (ip + 20 + i)"
  by (auto simp: tcp_chk_packet_def Let_def memput_def memget_def ac_simps)

lemma tcp_chk_packet_head:
  "j < 12 \<Longrightarrow> tcp_chk_packet f ip j =
     (if j < 8 then f (ip + 12 + j) else if j = 8 then 0 else if j = 9 then IPPROTO_TCP
      else if j = 10 then ucast (drop_bit 8 (HDRDATA_SIZE f ip)) else ucast (HDRDATA_SIZE f ip))"
  by (auto simp: tcp_chk_packet_def Let_def put32_split put16_def bytes16_def memput_def get32_def get16_def ucast_word_cat16
      ucast_word_cat32 nth_Cons' ntohs_def)
    (rule arg_cong [where f = f], arith)+

lemma tcp_chk_packet_total:
  assumes "TCP_HDR_LEN \<le> unat (HDRDATA_SIZE f ip)" and "tcp_segment_len f ip = unat (HDRDATA_SIZE f ip)"
  shows "net_sum (tcp_chk_packet f ip) 0 (12 + unat (HDRDATA_SIZE f ip)) = tcp_segment_sum f ip"
proof -
  let ?c = "tcp_chk_packet f ip" and ?n = "unat (HDRDATA_SIZE f ip)"
  have l: "256 * unat (ucast (drop_bit 8 (HDRDATA_SIZE f ip)) :: byte) + unat (ucast (HDRDATA_SIZE f ip) :: byte) = ?n"
    by (simp add: word_cat_bytes16 flip: unat_cat8)
  have "{..<6 :: nat} = {0, 1, 2, 3, 4, 5}" by auto
  then have "net_sum ?c 0 12 = tcp_pseudo_sum f ip" using l
    by (simp add: net_sum_def tcp_pseudo_sum_def net_word_def assms(2) tcp_chk_packet_head)
      (simp add: add.commute)
  moreover have "net_sum ?c 12 ?n = net_sum f (ip + 20) ?n"
  proof -
    have "net_word ?c (12 + 2 * i) = net_word f (ip + 20 + 2 * i)" if "i < ?n div 2" for i
      using that tcp_chk_packet_seg [OF _ assms(1), of "2 * i"] tcp_chk_packet_seg [OF _ assms(1), of "2 * i + 1"]
      by (simp add: net_word_def)
    moreover have "?c (12 + ?n - 1) = f (ip + 20 + ?n - 1)"
      using tcp_chk_packet_seg [of "?n - 1" f ip] assms(1) by simp
    ultimately show ?thesis by (simp add: net_sum_def)
  qed
  ultimately show ?thesis using net_sum_append [of 12 ?c 0 ?n] by (simp add: tcp_segment_sum_def assms(2))
qed

lemma tcp_segment_len_eq:
  assumes "ip_ihl f ip = 5" and "unat (HDRDATA_SIZE f ip) \<le> TCP_HDR_LEN + BUFSIZE"
  shows "tcp_segment_len f ip = unat (HDRDATA_SIZE f ip)"
proof -
  let ?t = "ntohs (ip_tot_len f ip)"
  have h: "HDRDATA_SIZE f ip = ?t - 20" by (simp add: HDRDATA_SIZE_def assms(1))
  have w: "net_word f (ip + 2) = unat ?t" by (simp add: net_word_get16 ip_tot_len_def)
  show ?thesis
  proof (cases "20 \<le> ?t")
    case True
    then show ?thesis unfolding tcp_segment_len_def w by (simp add: h unat_sub)
  next
    case False
    then have "unat (?t - 20) = 65536 + unat ?t - 20" by (simp add: unat_sub_if_size word_size word_le_nat_alt)
    then show ?thesis using assms(2) by (simp add: h)
  qed
qed

lemma ones_fold_total: "ones_fold s = 65535 \<Longrightarrow> 65535 dvd s"
  by (cases s) (auto simp: ones_fold_def dvd_eq_mod_eq_0 mod_Suc split: if_split_asm)

lemma in_cksum_net:
  assumes "in_cksum f off len = 0" and "len \<le> 131070"
  shows "65535 dvd net_sum f off len"
proof -
  have "ones_fold (cksum_total f off len) = 65535"
    using in_cksum_ref [OF assms(2), of f off] assms(1) ones_fold_le [of "cksum_total f off len"] by simp
  then have "65535 dvd 256 * net_sum f off len" using cksum_total_net [of f off len] ones_fold_total by fastforce
  then have "65535 dvd 256 * (256 * net_sum f off len) - 65535 * net_sum f off len"
    by (rule dvd_diff_nat [OF dvd_mult dvd_triv_left])
  then show ?thesis by simp
qed

lemma tcp_checksum_net:
  assumes "tcp_checksum f flen ip = Inr 0" and "ip_ihl f ip = 5"
  shows "65535 dvd tcp_segment_sum f ip"
proof -
  let ?n = "unat (HDRDATA_SIZE f ip)"
  have n: "20 \<le> ?n" "?n \<le> TCP_HDR_LEN + BUFSIZE" and z: "in_cksum (tcp_chk_packet f ip) 0 (12 + ?n) = 0"
    using assms(1) by (auto simp: tcp_checksum_def rbind_simps)
  have "net_sum (tcp_chk_packet f ip) 0 (12 + ?n) = tcp_segment_sum f ip"
    using n assms(2) by (intro tcp_chk_packet_total tcp_segment_len_eq) simp_all
  then show ?thesis using in_cksum_net [OF z] n(2) by simp
qed

section \<open>Properties\<close>

text \<open>C22: The checksum loop (a 32-bit accumulator folded twice) computes the complement of the one's
  complement sum of the 16-bit words, for every length the program sums.\<close>

theorem in_cksum_spec:
  assumes "len \<le> 131070"
  shows "unat (in_cksum f off len) = 65535 - ones_fold (cksum_total f off len)"
  using assms by (rule in_cksum_ref)

theorem in_cksum_spec_witness:
  "unat (in_cksum (\<lambda>i. of_nat i) 0 3) = 65535 - ones_fold (cksum_total (\<lambda>i. of_nat i) 0 3)"
  by (rule in_cksum_spec) simp

text \<open>The IP header whose checksum field the program set verifies: summed again it gives 0, and
  no other byte of the buffer changed.\<close>

theorem set_ip_checksum_ok:
  "in_cksum (set_ip_checksum f hdr) hdr 20 = 0 \<and>
   {i. set_ip_checksum f hdr i \<noteq> f i} \<subseteq> {hdr + 10, hdr + 11}"
  using set_ip_checksum_verifies
  by (auto simp: set_ip_checksum_def Let_def put16_def memput_def split: if_splits)

text \<open>C23: In a packet without IP options (\<open>ihl\<close> is 5) the TCP segment whose checksum field the program set is
  valid: the pseudo header (source address, destination address, protocol 6 and segment length) and the segment, in
  network order, add up to a one's complement zero, and no byte outside the checksum field was changed.\<close>

theorem set_tcp_checksum_ok:
  assumes "set_tcp_checksum f flen ip = Inr f'" and "ip_ihl f ip = 5"
  shows "65535 dvd tcp_segment_sum f' ip \<and> {i. f' i \<noteq> f i} \<subseteq> {ip + 36, ip + 37}"
proof
  from assms(1) obtain v w where f': "f' = put16 (put16 f (ip + 36) v) (ip + 36) w"
    by (auto simp: set_tcp_checksum_def Let_def rbind_simps)
  then show "{i. f' i \<noteq> f i} \<subseteq> {ip + 36, ip + 37}" by (auto simp: put16_def memput_def split: if_splits)
  have "ip_ihl f' ip = 5" using assms(2) by (simp add: ip_ihl_def f' put_out)
  then show "65535 dvd tcp_segment_sum f' ip" by (rule tcp_checksum_net [OF set_tcp_checksum_verifies [OF assms(1)]])
qed

theorem set_tcp_checksum_ok_witness:
  "\<exists>f'. set_tcp_checksum ((\<lambda>_. 1)(18 := 0x45, 20 := 0, 21 := 40)) 58 18 = Inr f' \<and> 65535 dvd tcp_segment_sum f' 18"
proof -
  let ?f = "(\<lambda>_. 1)(18 := 0x45, 20 := 0, 21 := 40) :: mem"
  have i: "ip_ihl ?f 18 = 5" by (simp add: ip_ihl_def bits_def)
  have "HDRDATA_SIZE (put16 ?f 54 (htons 0)) 18 = HDRDATA_SIZE ?f 18" by (rule HDRDATA_put) simp
  also have "HDRDATA_SIZE ?f 18 = 20"
    by (simp add: HDRDATA_SIZE_def ip_tot_len_def ip_ihl_def get16_def ntohs_def bits_def word_cat_eq)
  finally obtain f' where "set_tcp_checksum ?f 58 18 = Inr f'"
    by (simp add: set_tcp_checksum_def tcp_checksum_def Let_def)
  then show ?thesis using set_tcp_checksum_ok [OF _ i] by blast
qed

end
