(* ===== verification/Tcp_Timestamps.thy ===== *)
theory Tcp_Timestamps
  imports Checksum
begin

text \<open>
  The TCP timestamp option of \<open>netcode.c\<close>: reading it, rewriting it and
  stripping it.  Each function first tries the common layout (two NOPs and the
  option, nothing else) and then walks the option list.  The walk advances by
  what the packet says, so it may never end; it is a partial function.  \<open>th\<close> is
  the offset of the TCP header in a frame of \<open>flen\<close> bytes.
\<close>

abbreviation (input) TCPOPT_EOL :: byte where "TCPOPT_EOL \<equiv> 0"
abbreviation (input) TCPOPT_NOP :: byte where "TCPOPT_NOP \<equiv> 1"
abbreviation (input) TCPOPT_TIMESTAMP :: byte where "TCPOPT_TIMESTAMP \<equiv> 8"
abbreviation (input) TCPOLEN_TIMESTAMP :: byte where "TCPOLEN_TIMESTAMP \<equiv> 10"
abbreviation (input) TCPOPT_TSTAMP_HDR :: u32 where "TCPOPT_TSTAMP_HDR \<equiv> 0x0101080a"

definition tcp_doff :: "mem \<Rightarrow> nat \<Rightarrow> nat" where
  "tcp_doff f th = unat (bits 4 4 (f (th + 12)))"

text \<open>A read of the bytes below \<open>e\<close> of a frame.\<close>

definition inside :: "nat \<Rightarrow> nat \<Rightarrow> unit res" where
  "inside flen e = guard OutOfBounds (e \<le> flen)"

lemma inside_eq_Inr [rbind_simps]: "inside flen e = Inr u \<longleftrightarrow> e \<le> flen"
  by (simp add: inside_def rbind_simps)

lemma inside_le [simp]: "e \<le> flen \<Longrightarrow> inside flen e = Inr ()"
  by (simp add: inside_def)

lemma inside_gt [simp]: "\<not> e \<le> flen \<Longrightarrow> inside flen e = Inl OutOfBounds"
  by (simp add: inside_def)

section \<open>Stripping (strip_tcp_timestamps)\<close>

partial_function (option) strip_ts_loop :: "mem \<Rightarrow> nat \<Rightarrow> nat \<Rightarrow> nat \<Rightarrow> mem res option" where
  "strip_ts_loop f flen p len =
     (if p < len then
        (if p + 2 \<le> flen then
          (let opcode = f p; opsize = unat (f (p + 1)) in
           if opcode = TCPOPT_EOL then Some (Inr f)
           else if opcode = TCPOPT_NOP then strip_ts_loop f flen (p + 1) len
           else if opcode = TCPOPT_TIMESTAMP then Some (Inr (f(p := TCPOPT_EOL)))
           else strip_ts_loop f flen (p + opsize) len)
         else Some (Inl OutOfBounds))
      else Some (Inr f))"

definition strip_tcp_timestamps :: "mem \<Rightarrow> nat \<Rightarrow> nat \<Rightarrow> mem res" where
  "strip_tcp_timestamps f flen th =
     rbind (inside flen (th + 13)) (\<lambda>_.
     (if tcp_doff f th = 5 then Inr f
      else
        rbind (if tcp_doff f th = 8 then inside flen (th + 24) else Inr ()) (\<lambda>_.
        (if tcp_doff f th = 8 \<and> get32 f (th + 20) = ntohl TCPOPT_TSTAMP_HDR
         then Inr (f(th + 20 := TCPOPT_EOL))
         else returns (strip_ts_loop f flen (th + 20) (th + 4 * tcp_doff f th - 1))))))"

section \<open>Reading (get_tcp_timestamps)\<close>

text \<open>
  \<open>OK\<close> with the value and the echo is \<open>Some\<close>, \<open>NOK\<close> is \<open>None\<close>.  A timestamp
  option of another length than 10 leaves the pointer where it is.
\<close>

partial_function (option) get_ts_loop ::
  "mem \<Rightarrow> nat \<Rightarrow> nat \<Rightarrow> nat \<Rightarrow> (u32 \<times> u32) option res option" where
  "get_ts_loop f flen p len =
     (if p < len then
        (if p + 2 \<le> flen then
          (let opcode = f p; opsize = unat (f (p + 1)) in
           if opcode = TCPOPT_EOL then Some (Inr None)
           else if opcode = TCPOPT_NOP then get_ts_loop f flen (p + 1) len
           else if opcode = TCPOPT_TIMESTAMP then
             (if f (p + 1) = TCPOLEN_TIMESTAMP then
                (if p + 10 \<le> flen
                 then Some (Inr (Some (ntohl (get32 f (p + 2)), ntohl (get32 f (p + 6)))))
                 else Some (Inl OutOfBounds))
              else get_ts_loop f flen p len)
           else get_ts_loop f flen (p + opsize) len)
         else Some (Inl OutOfBounds))
      else Some (Inr None))"

definition get_tcp_timestamps :: "mem \<Rightarrow> nat \<Rightarrow> nat \<Rightarrow> (u32 \<times> u32) option res" where
  "get_tcp_timestamps f flen th =
     rbind (inside flen (th + 13)) (\<lambda>_.
     (if tcp_doff f th = 5 then Inr None
      else
        rbind (if tcp_doff f th = 8 then inside flen (th + 24) else Inr ()) (\<lambda>_.
        (if tcp_doff f th = 8 \<and> get32 f (th + 20) = ntohl TCPOPT_TSTAMP_HDR
         then rbind (inside flen (th + 32))
           (\<lambda>_. Inr (Some (ntohl (get32 f (th + 24)), ntohl (get32 f (th + 28)))))
         else returns (get_ts_loop f flen (th + 20) (th + 4 * tcp_doff f th - 1))))))"

section \<open>Writing (set_tcp_timestamps)\<close>

text \<open>The new value and the new echo, where the pointer to it is not NULL.\<close>

definition put_ts :: "mem \<Rightarrow> nat \<Rightarrow> u32 option \<Rightarrow> u32 option \<Rightarrow> mem" where
  "put_ts f off tsval tsecho =
     (let f = (case tsval of None \<Rightarrow> f | Some v \<Rightarrow> put32 f off (htonl v))
      in (case tsecho of None \<Rightarrow> f | Some e \<Rightarrow> put32 f (off + 4) (htonl e)))"

partial_function (option) set_ts_loop ::
  "mem \<Rightarrow> nat \<Rightarrow> u32 option \<Rightarrow> u32 option \<Rightarrow> nat \<Rightarrow> nat \<Rightarrow> mem res option" where
  "set_ts_loop f flen tsval tsecho p len =
     (if p < len then
        (if p + 2 \<le> flen then
          (let opcode = f p; opsize = unat (f (p + 1)) in
           if opcode = TCPOPT_EOL then Some (Inr f)
           else if opcode = TCPOPT_NOP then set_ts_loop f flen tsval tsecho (p + 1) len
           else if opcode = TCPOPT_TIMESTAMP then
             (if f (p + 1) = TCPOLEN_TIMESTAMP then
                (if p + 10 \<le> flen then Some (Inr (put_ts f (p + 2) tsval tsecho))
                 else Some (Inl OutOfBounds))
              else set_ts_loop f flen tsval tsecho p len)
           else set_ts_loop f flen tsval tsecho (p + opsize) len)
         else Some (Inl OutOfBounds))
      else Some (Inr f))"

definition set_tcp_timestamps ::
  "mem \<Rightarrow> nat \<Rightarrow> nat \<Rightarrow> u32 option \<Rightarrow> u32 option \<Rightarrow> mem res" where
  "set_tcp_timestamps f flen th tsval tsecho =
     rbind (inside flen (th + 13)) (\<lambda>_.
     (if tcp_doff f th = 5 \<or> (tsval = None \<and> tsecho = None) then Inr f
      else
        rbind (if tcp_doff f th = 8 then inside flen (th + 24) else Inr ()) (\<lambda>_.
        (if tcp_doff f th = 8 \<and> get32 f (th + 20) = ntohl TCPOPT_TSTAMP_HDR
         then rbind (inside flen (th + 32)) (\<lambda>_. Inr (put_ts f (th + 24) tsval tsecho))
         else returns (set_ts_loop f flen tsval tsecho (th + 20) (th + 4 * tcp_doff f th - 1))))))"

section \<open>Fixing the timestamps of a redirected connection (fix_tcp_timestamps)\<close>

text \<open>
  The answer with the rewritten frame.  \<open>(int) tcp_ts + (int) tcp_ts_diff\<close> is
  the 32-bit sum.
\<close>

definition fix_tcp_timestamps ::
  "mem \<Rightarrow> nat \<Rightarrow> nat \<Rightarrow> conn_struct \<Rightarrow> (status_t \<times> mem) res" where
  "fix_tcp_timestamps f flen th conn =
     (if cn_replay_problem conn AND REPLAY_UNEXPECTED_TCP_TS \<noteq> 0
      then rbind (strip_tcp_timestamps f flen th) (\<lambda>f. Inr (OK, f))
      else
        rbind (if cn_replay_problem conn AND REPLAY_TCP_TS_OUTOFSYNC \<noteq> 0
               then get_tcp_timestamps f flen th else Inr None) (\<lambda>ts.
        (case ts of
           Some (tcp_ts, _) \<Rightarrow>
             rbind (set_tcp_timestamps f flen th
                      (Some (tcp_ts + of_int (cn_tcp_ts_diff conn))) None)
               (\<lambda>f. Inr (OK, f))
         | None \<Rightarrow> Inr (NOK, f))))"

section \<open>Termination\<close>

lemma opcodes_distinct:
  "(1 :: byte) \<noteq> 0" "(8 :: byte) \<noteq> 0" "(8 :: byte) \<noteq> 1" "(10 :: byte) \<noteq> 0"
  by simp_all

text \<open>
  A walk that meets, before any end-of-list, an option that does not advance
  it never returns.  \<open>ts_stuck\<close> is that situation at the pointer.
\<close>

definition ts_stuck :: "mem \<Rightarrow> nat \<Rightarrow> nat \<Rightarrow> nat \<Rightarrow> bool" where
  "ts_stuck f flen p len \<longleftrightarrow>
     p < len \<and> p + 2 \<le> flen \<and> f p \<noteq> TCPOPT_EOL \<and> f p \<noteq> TCPOPT_NOP \<and>
     (if f p = TCPOPT_TIMESTAMP then f (p + 1) \<noteq> TCPOLEN_TIMESTAMP else f (p + 1) = 0)"

lemma get_ts_loop_stuck:
  assumes stuck: "ts_stuck f flen p len"
  shows "get_ts_loop f flen p len = None"
proof (rule ccontr)
  assume "get_ts_loop f flen p len \<noteq> None"
  then obtain y where "get_ts_loop f flen p len = Some y" by auto
  then have "\<not> ts_stuck f flen p len"
  proof (rule get_ts_loop.raw_induct [where P = "\<lambda>f flen p len _. \<not> ts_stuck f flen p len", rotated],
      goal_cases)
    case (1 loop f flen p len y)
    show ?case
    proof
      assume s: "ts_stuck f flen p len"
      with 1(2) have "loop f flen p len = Some y"
        by (auto simp: ts_stuck_def split: if_splits)
      from 1(1) [OF this] s show False by simp
    qed
  qed
  with stuck show False by simp
qed

text \<open>The options that the walk from \<open>p\<close> comes to: it steps over a NOP and over an option of another kind by the
  length the packet gives, and stops at the end of the list and at a timestamp.\<close>

inductive ts_met :: "mem \<Rightarrow> nat \<Rightarrow> nat \<Rightarrow> nat \<Rightarrow> bool" for f len where
  here: "ts_met f len p p"
| nop: "p < len \<Longrightarrow> f p = TCPOPT_NOP \<Longrightarrow> ts_met f len (p + 1) q \<Longrightarrow> ts_met f len p q"
| other: "p < len \<Longrightarrow> f p \<notin> {TCPOPT_EOL, TCPOPT_NOP, TCPOPT_TIMESTAMP} \<Longrightarrow> ts_met f len (p + unat (f (p + 1))) q \<Longrightarrow>
    ts_met f len p q"

lemma ts_met_end: "ts_met f len p q \<Longrightarrow> len \<le> p \<Longrightarrow> q = p"
  by (auto elim: ts_met.cases)

lemma ts_met_le: "ts_met f len p q \<Longrightarrow> p \<le> q"
  by (induction rule: ts_met.induct) simp_all

lemma get_ts_loop_met_stuck:
  assumes "ts_met f len p q" and "ts_stuck f flen q len"
  shows "get_ts_loop f flen p len = None"
  using assms
proof (induction rule: ts_met.induct)
  case (here p)
  then show ?case by (rule get_ts_loop_stuck)
next
  case (nop p q)
  moreover have "p + 2 \<le> flen" using nop.prems ts_met_le [OF nop.hyps(3)] by (simp add: ts_stuck_def)
  ultimately show ?case by (subst get_ts_loop.simps) simp
next
  case (other p q)
  moreover have "p + 2 \<le> flen" using other.prems ts_met_le [OF other.hyps(3)] by (simp add: ts_stuck_def)
  ultimately show ?case by (subst get_ts_loop.simps) simp
qed

lemma get_ts_loop_returns:
  assumes "\<not> (\<exists>q. ts_met f len p q \<and> ts_stuck f flen q len)"
  shows "\<exists>y. get_ts_loop f flen p len = Some y"
  using assms
proof (induction "len - p" arbitrary: p rule: less_induct)
  case less
  have here: "\<not> ts_stuck f flen p len" using less.prems ts_met.here by blast
  have rec: "\<exists>y. get_ts_loop f flen (p + k) len = Some y"
    if "0 < k" "p < len" "\<And>q. ts_met f len (p + k) q \<Longrightarrow> ts_met f len p q" for k
    using less.prems that by (intro less.hyps) auto
  have n: "\<exists>y. get_ts_loop f flen (p + 1) len = Some y" if "p < len" "f p = TCPOPT_NOP"
    using that by (intro rec) (auto intro: ts_met.nop)
  have o: "\<exists>y. get_ts_loop f flen (p + unat (f (p + 1))) len = Some y"
    if "p < len" "f p \<notin> {TCPOPT_EOL, TCPOPT_NOP, TCPOPT_TIMESTAMP}" "f (p + 1) \<noteq> 0"
    using that by (intro rec) (auto simp: unat_gt_0 intro: ts_met.other)
  show ?case using here n o
    by (subst get_ts_loop.simps) (auto simp: ts_stuck_def Let_def split: if_splits)
qed

lemma get_ts_loop_no_hang:
  assumes "get_ts_loop f flen p len = Some y"
  shows "y \<noteq> Inl Hangs"
  using assms
proof (rule get_ts_loop.raw_induct [where P = "\<lambda>_ _ _ _ y. y \<noteq> Inl Hangs", rotated], goal_cases)
  case (1 loop f flen p len y)
  then show ?case by (auto simp: Let_def split: if_splits)
qed

section \<open>What the rewriting does\<close>

lemma put_ts_out: "i < off \<or> off + 8 \<le> i \<Longrightarrow> put_ts f off v e i = f i"
  by (auto simp: put_ts_def Let_def mem_simps split: option.splits)

lemma put_ts_get:
  "get32 (put_ts f off v e) off = (case v of None \<Rightarrow> get32 f off | Some x \<Rightarrow> htonl x)"
  "get32 (put_ts f off v e) (off + 4) = (case e of None \<Rightarrow> get32 f (off + 4) | Some x \<Rightarrow> htonl x)"
  by (auto simp: put_ts_def Let_def mem_simps split: option.splits)

text \<open>The walk that writes leaves what it passed, so the walk that reads finds what was written.\<close>

definition new_ts :: "u32 option \<Rightarrow> u32 option \<Rightarrow> u32 \<times> u32 \<Rightarrow> u32 \<times> u32" where
  "new_ts v e ts =
     (case v of None \<Rightarrow> fst ts | Some x \<Rightarrow> x, case e of None \<Rightarrow> snd ts | Some x \<Rightarrow> x)"

lemma set_ts_loop_get:
  assumes "set_ts_loop f flen v e p len = Some r"
  shows "\<forall>f'. r = Inr f' \<longrightarrow> (\<forall>i < p + 2. f' i = f i) \<and>
    get_ts_loop f' flen p len = map_option (map_sum id (map_option (new_ts v e))) (get_ts_loop f flen p len)"
proof (rule set_ts_loop.raw_induct [where P = "\<lambda>f flen v e p len r.
    \<forall>f'. r = Inr f' \<longrightarrow> (\<forall>i < p + 2. f' i = f i) \<and>
    get_ts_loop f' flen p len =
      map_option (map_sum id (map_option (new_ts v e))) (get_ts_loop f flen p len)", OF _ assms], goal_cases)
  case (1 loop f flen v e p len r)
  note eq = 1(2)
  show ?case
  proof (intro allI impI)
    fix f' assume r: "r = Inr f'"
    let ?m = "map_option (map_sum id (map_option (new_ts v e)))"
    have IH: "(\<forall>i < q + 2. f' i = f i) \<and> get_ts_loop f' flen q len = ?m (get_ts_loop f flen q len)"
      if "loop f flen v e q len = Some r" for q
      using 1(1) [OF that] r by blast
    have step: "(\<forall>i < p + 2. f' i = f i) \<and> get_ts_loop f' flen p len = ?m (get_ts_loop f flen p len)"
      if l: "loop f flen v e q len = Some r" and q: "p \<le> q" and u: "\<And>g. (\<forall>i < p + 2. g i = f i) \<Longrightarrow>
        get_ts_loop g flen p len = get_ts_loop g flen q len" for q
    proof -
      from IH [OF l] q have e: "\<forall>i < p + 2. f' i = f i" by simp
      with IH [OF l] u [OF e] u [of f] show ?thesis by auto
    qed
    consider (fin) "\<not> p < len \<or> f p = TCPOPT_EOL" | (nop) "p < len" "f p = TCPOPT_NOP"
      | (ts) "p < len" "f p = TCPOPT_TIMESTAMP" "f (p + 1) = TCPOLEN_TIMESTAMP"
      | (bad) "p < len" "f p = TCPOPT_TIMESTAMP" "f (p + 1) \<noteq> TCPOLEN_TIMESTAMP"
      | (other) "p < len" "f p \<noteq> TCPOPT_EOL" "f p \<noteq> TCPOPT_NOP" "f p \<noteq> TCPOPT_TIMESTAMP"
      by blast
    then show "(\<forall>i < p + 2. f' i = f i) \<and> get_ts_loop f' flen p len = ?m (get_ts_loop f flen p len)"
    proof cases
      case fin
      with eq r have "f' = f" by (auto split: if_splits)
      with fin eq r show ?thesis
        by (subst (1 2) get_ts_loop.simps) (auto split: if_splits)
    next
      case nop
      with eq r show ?thesis
        by (intro step [of "p + 1"]) (auto split: if_splits, subst get_ts_loop.simps, simp)
    next
      case ts
      with eq r have f': "f' = put_ts f (p + 2) v e" and l: "p + 10 \<le> flen" by (auto split: if_splits)
      have "\<forall>i < p + 2. f' i = f i" by (simp add: f' put_ts_out)
      moreover have "get_ts_loop f flen p len =
          Some (Inr (Some (ntohl (get32 f (p + 2)), ntohl (get32 f (p + 6)))))"
        using ts l by (subst get_ts_loop.simps) (simp add: opcodes_distinct)
      moreover have "get_ts_loop f' flen p len =
          Some (Inr (Some (ntohl (get32 f' (p + 2)), ntohl (get32 f' (p + 6)))))"
        using ts l \<open>\<forall>i < p + 2. f' i = f i\<close>
        by (subst get_ts_loop.simps) (simp add: opcodes_distinct)
      moreover have "p + 6 = p + 2 + 4" by simp
      ultimately show ?thesis using put_ts_get [of f "p + 2" v e]
        by (simp only: f') (cases v; cases e; simp add: new_ts_def)
    next
      case bad
      with eq r show ?thesis by (intro step [of p]) (auto split: if_splits)
    next
      case other
      with eq r have l: "loop f flen v e (p + unat (f (p + 1))) len = Some r" "p + 2 \<le> flen"
        by (auto split: if_splits simp: Let_def)
      show ?thesis
        by (rule step [OF l(1)], simp, subst get_ts_loop.simps) (use other l in \<open>simp add: Let_def\<close>)
    qed
  qed
qed

lemma strip_ts_loop_get:
  assumes "strip_ts_loop f flen p len = Some r"
  shows "\<forall>f'. r = Inr f' \<longrightarrow>
    (\<forall>i. f' i = f i \<or> p \<le> i \<and> f i = TCPOPT_TIMESTAMP \<and> f' i = TCPOPT_EOL) \<and>
    get_ts_loop f' flen p len = Some (Inr None)"
proof (rule strip_ts_loop.raw_induct [where P = "\<lambda>f flen p len r. \<forall>f'. r = Inr f' \<longrightarrow>
    (\<forall>i. f' i = f i \<or> p \<le> i \<and> f i = TCPOPT_TIMESTAMP \<and> f' i = TCPOPT_EOL) \<and>
    get_ts_loop f' flen p len = Some (Inr None)", OF _ assms], goal_cases)
  case (1 loop f flen p len r)
  note eq = 1(2)
  show ?case
  proof (intro allI impI)
    fix f' assume r: "r = Inr f'"
    let ?Q = "\<lambda>q. (\<forall>i. f' i = f i \<or> q \<le> i \<and> f i = TCPOPT_TIMESTAMP \<and> f' i = TCPOPT_EOL) \<and>
      get_ts_loop f' flen q len = Some (Inr None)"
    have IH: "?Q q" if "loop f flen q len = Some r" for q
      using 1(1) [OF that] r by blast
    consider (fin) "\<not> p < len \<or> f p = TCPOPT_EOL" | (nop) "p < len" "f p = TCPOPT_NOP"
      | (ts) "p < len" "f p = TCPOPT_TIMESTAMP"
      | (other) "p < len" "f p \<noteq> TCPOPT_EOL" "f p \<noteq> TCPOPT_NOP" "f p \<noteq> TCPOPT_TIMESTAMP"
      by blast
    then show "?Q p"
    proof cases
      case fin
      with eq r have "f' = f" by (auto split: if_splits)
      with fin eq r show ?thesis by (subst get_ts_loop.simps) (auto split: if_splits)
    next
      case nop
      with eq have l: "loop f flen (p + 1) len = Some r" "p + 2 \<le> flen" using r
        by (auto split: if_splits)
      have "f' p = f p" using IH [OF l(1)] by (metis Suc_eq_plus1 not_less_eq_eq le_refl)
      then have "get_ts_loop f' flen p len = get_ts_loop f' flen (p + 1) len"
        using nop l by (subst get_ts_loop.simps) simp
      with IH [OF l(1)] show ?thesis by (metis add_leD1)
    next
      case ts
      with eq r have "f' = f(p := TCPOPT_EOL)" "p + 2 \<le> flen"
        by (auto simp: opcodes_distinct split: if_splits)
      with ts show ?thesis by (subst get_ts_loop.simps) auto
    next
      case other
      define n where "n = unat (f (p + 1))"
      from other eq r have l: "loop f flen (p + n) len = Some r" "p + 2 \<le> flen"
        by (auto split: if_splits simp: Let_def n_def)
      show ?thesis
      proof (cases "n = 0")
        case True
        with IH [OF l(1)] show ?thesis by simp
      next
        case False
        have "f' p = f p" using IH [OF l(1)] other(4) by blast
        moreover have "f' (p + 1) = f (p + 1)"
        proof (cases "f (p + 1) = TCPOPT_TIMESTAMP")
          case True
          then have "n = 8" by (simp add: n_def)
          with IH [OF l(1)] show ?thesis by (metis nat_add_left_cancel_le numeral_le_one_iff semiring_norm(69))
        next
          case False
          with IH [OF l(1)] show ?thesis by blast
        qed
        ultimately have "get_ts_loop f' flen p len = get_ts_loop f' flen (p + n) len"
          using other l by (subst get_ts_loop.simps) (simp add: Let_def n_def)
        with IH [OF l(1)] show ?thesis by (metis add_leD1)
      qed
    qed
  qed
qed

text \<open>The four bytes of the common layout.\<close>

lemma tstamp_hdr_bytes:
  "get32 f off = ntohl TCPOPT_TSTAMP_HDR \<longleftrightarrow>
     f off = 1 \<and> f (off + 1) = 1 \<and> f (off + 2) = 8 \<and> f (off + 3) = 10"
proof -
  have h: "ntohl TCPOPT_TSTAMP_HDR = word_cat (word_cat (10::byte) (8::byte) :: u16) (word_cat (1::byte) (1::byte) :: u16)"
    by (simp add: ntohl_def ntohs_def word_cat_eq)
  have inj: "word_cat a b = (word_cat c d :: u16) \<longleftrightarrow> a = c \<and> b = d" for a b c d :: byte
    by (metis ucast_word_cat16)
  have inj2: "word_cat a b = (word_cat c d :: u32) \<longleftrightarrow> a = c \<and> b = d" for a b c d :: u16
    by (metis ucast_word_cat32)
  have "off + 2 + 1 = off + 3" by simp
  then show ?thesis unfolding h get32_def get16_def inj inj2 by metis
qed

lemma tcp_doff_cong: "f' (th + 12) = f (th + 12) \<Longrightarrow> tcp_doff f' th = tcp_doff f th"
  by (simp add: tcp_doff_def)

lemma strip_tcp_timestamps_get:
  assumes "strip_tcp_timestamps f flen th = Inr f'"
  shows "(\<forall>i < th + 20. f' i = f i) \<and> get_tcp_timestamps f' flen th = Inr None"
proof -
  consider (none) "tcp_doff f th = 5" "f' = f" "th + 13 \<le> flen"
    | (fast) "tcp_doff f th = 8" "get32 f (th + 20) = ntohl TCPOPT_TSTAMP_HDR"
        "f' = f(th + 20 := TCPOPT_EOL)" "th + 24 \<le> flen"
    | (slow) "tcp_doff f th \<noteq> 5" "\<not> (tcp_doff f th = 8 \<and> get32 f (th + 20) = ntohl TCPOPT_TSTAMP_HDR)"
        "th + 13 \<le> flen" "tcp_doff f th = 8 \<longrightarrow> th + 24 \<le> flen"
        "strip_ts_loop f flen (th + 20) (th + 4 * tcp_doff f th - 1) = Some (Inr f')"
    using assms by (auto simp: strip_tcp_timestamps_def rbind_simps split: if_splits)
  then show ?thesis
  proof cases
    case none
    then show ?thesis by (simp add: get_tcp_timestamps_def)
  next
    case fast
    then have "tcp_doff f' th = 8" by (simp add: tcp_doff_def)
    moreover have "get_ts_loop f' flen (th + 20) (th + 4 * 8 - 1) = Some (Inr None)"
      using fast(3,4) by (subst get_ts_loop.simps) simp
    moreover have "get32 f' (th + 20) \<noteq> ntohl TCPOPT_TSTAMP_HDR"
      unfolding tstamp_hdr_bytes using fast(3) by simp
    ultimately show ?thesis using fast(3,4) by (simp add: get_tcp_timestamps_def)
  next
    case slow
    have ch: "f' i = f i \<or> th + 20 \<le> i \<and> f i = TCPOPT_TIMESTAMP \<and> f' i = TCPOPT_EOL" for i
      using strip_ts_loop_get [OF slow(5)] by blast
    from strip_ts_loop_get [OF slow(5)]
    have g: "get_ts_loop f' flen (th + 20) (th + 4 * tcp_doff f th - 1) = Some (Inr None)"
      by blast
    have same: "\<forall>i < th + 20. f' i = f i" using ch by (meson not_le)
    then have d: "tcp_doff f' th = tcp_doff f th" by (intro tcp_doff_cong) simp
    have nz: "f i = f' i" if "f' i \<noteq> 0" for i using ch [of i] that by auto
    have "\<not> (tcp_doff f' th = 8 \<and> get32 f' (th + 20) = ntohl TCPOPT_TSTAMP_HDR)"
      using slow(2) nz [of "th + 20"] nz [of "th + 20 + 1"] nz [of "th + 20 + 2"] nz [of "th + 20 + 3"]
      unfolding tstamp_hdr_bytes d by (auto simp: opcodes_distinct)
    with slow g same show ?thesis by (auto simp: get_tcp_timestamps_def d)
  qed
qed

lemma set_ts_loop_hdr:
  assumes "set_ts_loop f flen v e p len = Some (Inr f')" and "p + 2 < len"
    and "get32 f' p = ntohl TCPOPT_TSTAMP_HDR"
  shows "get32 f p = ntohl TCPOPT_TSTAMP_HDR"
proof -
  from set_ts_loop_get [OF assms(1)] have s: "\<forall>i < p + 2. f' i = f i" by blast
  with assms(3) have "f p = 1" "f (p + 1) = 1" unfolding tstamp_hdr_bytes by simp_all
  then have "set_ts_loop f flen v e (p + 1) len = Some (Inr f')"
    using assms(1,2) by (subst (asm) set_ts_loop.simps) (auto split: if_splits)
  with \<open>f (p + 1) = 1\<close> have "set_ts_loop f flen v e (p + 1 + 1) len = Some (Inr f')"
    using assms(2) by (subst (asm) set_ts_loop.simps) (auto split: if_splits)
  then have "set_ts_loop f flen v e (p + 2) len = Some (Inr f')" by (simp only: add.assoc one_add_one)
  from set_ts_loop_get [OF this] have "\<forall>i < p + 4. f' i = f i" by (simp add: numeral_eq_Suc)
  with assms(3) show ?thesis unfolding tstamp_hdr_bytes by simp
qed

lemma set_tcp_timestamps_get:
  assumes "set_tcp_timestamps f flen th v e = Inr f'"
  shows "(\<forall>i < th + 20. f' i = f i) \<and>
    get_tcp_timestamps f' flen th = map_sum id (map_option (new_ts v e)) (get_tcp_timestamps f flen th)"
proof -
  let ?hdr = "\<lambda>f. tcp_doff f th = 8 \<and> get32 f (th + 20) = ntohl TCPOPT_TSTAMP_HDR"
  consider (none) "tcp_doff f th = 5 \<or> v = None \<and> e = None" "f' = f" "th + 13 \<le> flen"
    | (fast) "?hdr f" "f' = put_ts f (th + 24) v e" "th + 32 \<le> flen"
    | (slow) "tcp_doff f th \<noteq> 5" "\<not> ?hdr f" "th + 13 \<le> flen" "tcp_doff f th = 8 \<longrightarrow> th + 24 \<le> flen"
        "set_ts_loop f flen v e (th + 20) (th + 4 * tcp_doff f th - 1) = Some (Inr f')"
  proof (cases "tcp_doff f th = 5 \<or> v = None \<and> e = None")
    case True
    with assms none show thesis by (simp only: set_tcp_timestamps_def rbind_simps) simp
  next
    case no: False
    show thesis
    proof (cases "?hdr f")
      case True
      with assms no fast show thesis
        by (simp only: set_tcp_timestamps_def rbind_simps if_False simp_thms if_True) blast
    next
      case False
      with assms no slow show thesis
        by (cases "tcp_doff f th = 8")
          (simp_all only: set_tcp_timestamps_def rbind_simps if_False simp_thms if_True, blast)
    qed
  qed
  then show ?thesis
  proof cases
    case none
    have n: "new_ts None None = id" by (rule ext) (simp add: new_ts_def)
    from none(1) show ?thesis
    proof
      assume "tcp_doff f th = 5"
      with none show ?thesis by (simp add: get_tcp_timestamps_def)
    next
      assume "v = None \<and> e = None"
      with none show ?thesis by (simp add: n map_sum.id option.map_id0)
    qed
  next
    case fast
    have same: "f' i = f i" if "i < th + 24" for i using fast(2) that by (simp add: put_ts_out)
    then have d: "tcp_doff f' th = tcp_doff f th" by (intro tcp_doff_cong) simp
    have "?hdr f'" using fast(1) same unfolding d tstamp_hdr_bytes by simp
    moreover have "th + 24 + 4 = th + 28" by simp
    ultimately show ?thesis using fast same put_ts_get [of f "th + 24" v e, unfolded \<open>th + 24 + 4 = th + 28\<close>]
      by (simp add: get_tcp_timestamps_def) (cases v; cases e; simp add: new_ts_def)
  next
    case slow
    from set_ts_loop_get [OF slow(5)] have same: "\<forall>i < th + 22. f' i = f i"
      and g: "get_ts_loop f' flen (th + 20) (th + 4 * tcp_doff f th - 1) =
        map_option (map_sum id (map_option (new_ts v e)))
          (get_ts_loop f flen (th + 20) (th + 4 * tcp_doff f th - 1))" by auto
    then have d: "tcp_doff f' th = tcp_doff f th" by (intro tcp_doff_cong) simp
    have n: "\<not> ?hdr f'" using set_ts_loop_hdr [OF slow(5)] slow(2) unfolding d by auto
    have "map_sum id h (returns r) = returns (map_option (map_sum id h) r)"
      if "r \<noteq> None" for h :: "(u32 \<times> u32) option \<Rightarrow> (u32 \<times> u32) option" and r
      using that by auto
    with slow g same n show ?thesis
      by (cases "get_ts_loop f flen (th + 20) (th + 4 * tcp_doff f th - 1)")
        (auto simp: get_tcp_timestamps_def d)
  qed
qed

text \<open>What a redirected connection's timestamps become, and that nothing before the options
  changes.\<close>

lemma fix_tcp_timestamps_frame:
  assumes "fix_tcp_timestamps f flen th conn = Inr (r, f')"
  shows "\<forall>i < th + 20. f' i = f i"
  using assms strip_tcp_timestamps_get set_tcp_timestamps_get
  by (auto simp: fix_tcp_timestamps_def rbind_simps split: if_splits option.splits)

lemma fix_tcp_timestamps_strips:
  assumes "cn_replay_problem conn AND REPLAY_UNEXPECTED_TCP_TS \<noteq> 0"
    and "fix_tcp_timestamps f flen th conn = Inr (r, f')"
  shows "r = OK \<and> get_tcp_timestamps f' flen th = Inr None"
  using assms strip_tcp_timestamps_get by (auto simp: fix_tcp_timestamps_def rbind_simps)

lemma fix_tcp_timestamps_skews:
  assumes "cn_replay_problem conn AND REPLAY_UNEXPECTED_TCP_TS = 0"
    and "cn_replay_problem conn AND REPLAY_TCP_TS_OUTOFSYNC \<noteq> 0"
    and "get_tcp_timestamps f flen th = Inr (Some (tsval, tsecho))"
    and "fix_tcp_timestamps f flen th conn = Inr (r, f')"
  shows "r = OK \<and> get_tcp_timestamps f' flen th =
    Inr (Some (tsval + of_int (cn_tcp_ts_diff conn), tsecho))"
proof -
  let ?v = "Some (tsval + of_int (cn_tcp_ts_diff conn))"
  from assms have r: "r = OK" and s: "set_tcp_timestamps f flen th ?v None = Inr f'"
    by (auto simp: fix_tcp_timestamps_def rbind_simps)
  from set_tcp_timestamps_get [OF s] assms(3) r show ?thesis by (simp add: new_ts_def)
qed

section \<open>Properties\<close>

text \<open>C24: When the HIH sends timestamps the attacker has not seen from the LIH, the packet that goes
  out carries no timestamp option, and nothing before the TCP options changed.\<close>

theorem fix_tcp_timestamps_strip:
  assumes "cn_replay_problem conn AND REPLAY_UNEXPECTED_TCP_TS \<noteq> 0"
    and "fix_tcp_timestamps f flen th conn = Inr (r, f')"
  shows "r = OK \<and> get_tcp_timestamps f' flen th = Inr None \<and> (\<forall>i < th + 20. f' i = f i)"
  using fix_tcp_timestamps_strips [OF assms] fix_tcp_timestamps_frame [OF assms(2)] by blast

text \<open>A TCP header with the common layout: NOP, NOP, timestamp 5, echo 0.\<close>

definition ex_ts :: mem where
  "ex_ts = (\<lambda>_. 0)(12 := 0x80, 20 := 1, 21 := 1, 22 := 8, 23 := 10, 27 := 5)"

lemma ex_ts_doff: "tcp_doff ex_ts 0 = 8"
  by (simp add: tcp_doff_def ex_ts_def bits_def)

lemma ex_ts_hdr: "get32 ex_ts 20 = ntohl TCPOPT_TSTAMP_HDR"
  unfolding tstamp_hdr_bytes by (simp add: ex_ts_def)

lemma ex_ts_get: "get_tcp_timestamps ex_ts 32 0 = Inr (Some (5, 0))"
proof -
  have "ntohl (get32 ex_ts 24) = 5" "ntohl (get32 ex_ts 28) = 0"
    by (simp_all add: ex_ts_def get32_def get16_def ntohl_def ntohs_def word_cat_eq)
  then show ?thesis using ex_ts_doff ex_ts_hdr by (simp add: get_tcp_timestamps_def)
qed

theorem fix_tcp_timestamps_strip_witness:
  "\<exists>conn f'. fix_tcp_timestamps ex_ts 32 0 conn = Inr (OK, f') \<and> get_tcp_timestamps f' 32 0 = Inr None \<and> (\<forall>i < 20. f' i = ex_ts i)"
proof -
  define conn where "conn = (zero_conn 0)\<lparr>cn_replay_problem := REPLAY_UNEXPECTED_TCP_TS\<rparr>"
  have p: "cn_replay_problem conn AND REPLAY_UNEXPECTED_TCP_TS \<noteq> 0"
    by (simp add: conn_def replay_problem_defs)
  have f: "fix_tcp_timestamps ex_ts 32 0 conn = Inr (OK, ex_ts(20 := 0))"
    using p ex_ts_doff ex_ts_hdr by (simp add: fix_tcp_timestamps_def strip_tcp_timestamps_def)
  from fix_tcp_timestamps_strip [OF p f]
  have "get_tcp_timestamps (ex_ts(20 := 0)) 32 0 = Inr None" "\<forall>i < 20. (ex_ts(20 := 0)) i = ex_ts i" by simp_all
  with f show ?thesis by blast
qed

text \<open>C25: When the timestamps of the HIH are out of step with those of the LIH, every packet that goes
  out carries the HIH's timestamp plus the recorded difference and an unchanged echo.\<close>

theorem fix_tcp_timestamps_skew:
  assumes "cn_replay_problem conn AND REPLAY_UNEXPECTED_TCP_TS = 0"
    and "cn_replay_problem conn AND REPLAY_TCP_TS_OUTOFSYNC \<noteq> 0"
    and "get_tcp_timestamps f flen th = Inr (Some (tsval, tsecho))"
    and "fix_tcp_timestamps f flen th conn = Inr (r, f')"
  shows "r = OK \<and> get_tcp_timestamps f' flen th =
    Inr (Some (tsval + of_int (cn_tcp_ts_diff conn), tsecho))"
  using assms by (rule fix_tcp_timestamps_skews)

theorem fix_tcp_timestamps_skew_witness:
  "\<exists>conn f'. cn_tcp_ts_diff conn = 7 \<and> fix_tcp_timestamps ex_ts 32 0 conn = Inr (OK, f') \<and>
     get_tcp_timestamps f' 32 0 = Inr (Some (12, 0))"
proof -
  define conn :: conn_struct
    where "conn = (zero_conn 0)\<lparr>cn_replay_problem := REPLAY_TCP_TS_OUTOFSYNC, cn_tcp_ts_diff := 7\<rparr>"
  have c: "cn_replay_problem conn = REPLAY_TCP_TS_OUTOFSYNC" "cn_tcp_ts_diff conn = 7" by (simp_all add: conn_def)
  have p: "cn_replay_problem conn AND REPLAY_UNEXPECTED_TCP_TS = 0"
      "cn_replay_problem conn AND REPLAY_TCP_TS_OUTOFSYNC \<noteq> 0"
    by (simp_all add: c replay_problem_defs)
  have f: "fix_tcp_timestamps ex_ts 32 0 conn = Inr (OK, put_ts ex_ts 24 (Some 12) None)"
    using p ex_ts_doff ex_ts_hdr ex_ts_get by (simp add: fix_tcp_timestamps_def set_tcp_timestamps_def c)
  show ?thesis using fix_tcp_timestamps_skew [OF p ex_ts_get f] f c by auto
qed

text \<open>A captured frame whose TCP header carries four bytes of options.\<close>

definition ex_opts :: "byte \<Rightarrow> mem" where
  "ex_opts opcode = (\<lambda>_. 0)(12 := 8, 14 := 0x45, 17 := 44, 23 := 6, 46 := 0x60, 47 := 2, 54 := opcode, 55 := 4, 56 := 5, 57 := 0xB4)"

text \<open>C26: Reading the timestamps of a segment ends or does not end as its options say: it never returns
  exactly when the header has options other than the common layout of two NOPs and a timestamp, and the walk over them
  comes, inside the frame, to a timestamp whose length is not 10 or to another option of length 0.\<close>

theorem get_tcp_timestamps_hangs:
  "get_tcp_timestamps f flen th = Inl Hangs \<longleftrightarrow>
     th + 13 \<le> flen \<and> tcp_doff f th \<noteq> 5 \<and>
     \<not> (tcp_doff f th = 8 \<and> (flen < th + 24 \<or> get32 f (th + 20) = ntohl TCPOPT_TSTAMP_HDR)) \<and>
     (\<exists>q. ts_met f (th + 4 * tcp_doff f th - 1) (th + 20) q \<and> ts_stuck f flen q (th + 4 * tcp_doff f th - 1))"
  (is "_ \<longleftrightarrow> ?g \<and> ?d \<and> ?n \<and> ?s")
proof -
  let ?loop = "get_ts_loop f flen (th + 20) (th + 4 * tcp_doff f th - 1)"
  have "get_tcp_timestamps f flen th = Inl Hangs \<longleftrightarrow> ?g \<and> ?d \<and> ?n \<and> returns ?loop = Inl Hangs"
    by (auto simp: get_tcp_timestamps_def inside_def guard_def not_le)
  moreover have "returns ?loop = Inl Hangs \<longleftrightarrow> ?s"
    using get_ts_loop_met_stuck get_ts_loop_returns get_ts_loop_no_hang by (cases ?loop) fastforce+
  ultimately show ?thesis by simp
qed

theorem get_tcp_timestamps_hangs_witness:
  "get_tcp_timestamps (ex_opts 2) 58 34 \<noteq> Inl Hangs \<and> get_tcp_timestamps (ex_opts 8) 58 34 = Inl Hangs"
proof
  have d: "tcp_doff (ex_opts c) 34 = 6" for c by (simp add: tcp_doff_def bits_def ex_opts_def)
  have "q = 54 \<or> q = 58" if "ts_met (ex_opts 2) 57 54 q" for q
    using that by (rule ts_met.cases) (auto simp: ex_opts_def dest: ts_met_end)
  moreover have "\<not> ts_stuck (ex_opts 2) 58 54 57" "\<not> ts_stuck (ex_opts 2) 58 58 57"
    by (simp_all add: ts_stuck_def ex_opts_def)
  ultimately have "\<not> ts_stuck (ex_opts 2) 58 q 57" if "ts_met (ex_opts 2) 57 54 q" for q
    using that by blast
  with get_tcp_timestamps_hangs [of "ex_opts 2" 58 34] show "get_tcp_timestamps (ex_opts 2) 58 34 \<noteq> Inl Hangs"
    by (auto simp: d)
  have "ts_stuck (ex_opts 8) 58 54 57" by (simp add: ts_stuck_def ex_opts_def)
  with get_tcp_timestamps_hangs [of "ex_opts 8" 58 34] ts_met.here [of "ex_opts 8" 57 54]
  show "get_tcp_timestamps (ex_opts 8) 58 34 = Inl Hangs" by (auto simp: d)
qed

end
