(* ===== verification/HB_State.thy ===== *)
theory HB_State
  imports Tcp_Timestamps
begin

text \<open>
  The state the threads share: the objects on the heap, the globals of
  \<open>globals.h\<close> and what has left the process (the frames handed to an
  interface, the connections written to the log).  The objects of one type have
  a heap of their own, a partial function from addresses; a freed object is
  absent.  \<open>st_next\<close> is the next address the allocator gives.
\<close>

text \<open>A key file of a module: the lists stored under a group and a key.\<close>

type_synonym keyfile = "string \<times> string \<rightharpoonup> string list"

record hb_state =
  st_ifaces :: "ptr \<rightharpoonup> interface"
  st_handlers :: "ptr \<rightharpoonup> handler"
  st_targets :: "ptr \<rightharpoonup> target"
  st_conns :: "ptr \<rightharpoonup> conn_struct"
  st_pins :: "ptr \<rightharpoonup> pin"
  st_pin_keys :: "ptr set"
  st_keyfiles :: "ptr \<rightharpoonup> keyfile"
  st_next :: ptr
  targets :: "(u64, ptr) gtree"
  ext_tree1 :: "(conn_key, ptr) gtree"
  ext_tree2 :: "(conn_key, ptr) gtree"
  int_tree1 :: "(conn_key, ptr) gtree"
  int_tree2 :: "(conn_key, ptr) gtree"
  comm_pin_tree :: "(pin_key_ref, ptr) gtree"
  target_pin_tree :: "(pin_key_ref, ptr) gtree"
  intra_tree1 :: "(conn_key, ptr) gtree"
  intra_tree2 :: "(conn_key, ptr) gtree"
  intra_pin_tree :: "(pin_key_ref, ptr) gtree"
  links :: "string \<rightharpoonup> ptr"
  module_to_save :: "string \<rightharpoonup> ptr"
  c_id :: u64
  target_counter :: u64
  max_packet_buffer :: u64
  deny_hih_init :: int
  reset_ext :: int
  exclusive_hih :: int
  broadcast_allowed :: bool
  broadcast :: mac_t
  st_rand :: nat
  st_sent :: "(ptr \<times> byte list) list"
  st_log :: "conn_struct list"

section \<open>Allocation and objects\<close>

definition alloc :: "hb_state \<Rightarrow> ptr \<times> hb_state" where
  "alloc s = (st_next s, s\<lparr>st_next := st_next s + 1\<rparr>)"

definition get_conn :: "hb_state \<Rightarrow> ptr \<Rightarrow> conn_struct res" where
  "get_conn s p = deref (st_conns s) p"

definition set_conn :: "ptr \<Rightarrow> conn_struct \<Rightarrow> hb_state \<Rightarrow> hb_state" where
  "set_conn p c s = s\<lparr>st_conns := (st_conns s)(p \<mapsto> c)\<rparr>"

definition get_target :: "hb_state \<Rightarrow> ptr \<Rightarrow> target res" where
  "get_target s p = deref (st_targets s) p"

definition get_handler :: "hb_state \<Rightarrow> ptr option \<Rightarrow> handler res" where
  "get_handler s p = deref_opt (st_handlers s) p"

definition get_iface :: "hb_state \<Rightarrow> ptr option \<Rightarrow> interface res" where
  "get_iface s p = deref_opt (st_ifaces s) p"

text \<open>\<open>conn->target->front_handler\<close>\<close>

definition conn_front_handler :: "hb_state \<Rightarrow> conn_struct \<Rightarrow> handler res" where
  "conn_front_handler s c =
     rbind (get_target s (cn_target c)) (\<lambda>t. get_handler s (tg_front_handler t))"

lemmas get_defs = get_conn_def get_target_def get_handler_def get_iface_def

section \<open>Handing a frame to an interface (pcap_inject)\<close>

text \<open>
  Whether the capture library takes the frame is the environment's answer; a
  frame that is taken is appended to \<open>st_sent\<close>.
\<close>

definition pcap_inject :: "env \<Rightarrow> hb_state \<Rightarrow> ptr \<Rightarrow> byte list \<Rightarrow> bool \<times> hb_state" where
  "pcap_inject E s iface bs =
     (if ev_inject E iface bs then (True, s\<lparr>st_sent := st_sent s @ [(iface, bs)]\<rparr>)
      else (False, s))"

lemma pcap_inject_heaps [frame_simps]:
  "st_conns (snd (pcap_inject E s i bs)) = st_conns s"
  "st_handlers (snd (pcap_inject E s i bs)) = st_handlers s"
  "st_targets (snd (pcap_inject E s i bs)) = st_targets s"
  "st_ifaces (snd (pcap_inject E s i bs)) = st_ifaces s"
  by (simp_all add: pcap_inject_def)

section \<open>Switching the state of a connection (convenience.c)\<close>

definition switch_state :: "conn_struct \<Rightarrow> conn_status_t \<Rightarrow> conn_struct" where
  "switch_state conn new_state = conn\<lparr>cn_state := new_state\<rparr>"

lemma switch_state_simps [simp]: "cn_state (switch_state c x) = x"
  by (simp add: switch_state_def)

end
