(* ===== verification/Scenario.thy ===== *)
theory Scenario
  imports HB_State
begin

text \<open>
  One small network, the input at which the theorems with hypotheses are
  instantiated: an uplink with one target, a front handler (LIH), one back
  handler (HIH) and a captured TCP SYN from an attacker to the target's address.
\<close>

text \<open>70 captured bytes: Ethernet to 02:00:00:00:00:01 from 02:00:00:00:00:09, IPv4 from 192.0.0.7
  to 198.0.0.1, TCP from port 12345 to port 80, sequence number 100, SYN.\<close>

definition ex_syn :: mem where
  "ex_syn = (\<lambda>_. 0)(0 := 2, 5 := 1, 6 := 2, 11 := 9, 12 := 8, 14 := 69, 17 := 40, 23 := 6, 26 := 192, 29 := 7, 30 := 198, 33 := 1, 34 := 48, 35 := 57, 37 := 80, 41 := 100, 46 := 80, 47 := 2)"

lemma ex_syn_at:
  "ex_syn 0 = 2" "ex_syn (Suc 0) = 0" "ex_syn 2 = 0" "ex_syn 3 = 0" "ex_syn 4 = 0" "ex_syn 5 =
  1" "ex_syn 6 = 2" "ex_syn 7 = 0" "ex_syn 8 = 0" "ex_syn 9 = 0" "ex_syn 10 = 0" "ex_syn 11 = 9"
  "ex_syn 12 = 8" "ex_syn 13 = 0" "ex_syn 14 = 69" "ex_syn 15 = 0" "ex_syn 16 = 0" "ex_syn 17 =
  40" "ex_syn 18 = 0" "ex_syn 19 = 0" "ex_syn 20 = 0" "ex_syn 21 = 0" "ex_syn 22 = 0" "ex_syn 23
  = 6" "ex_syn 24 = 0" "ex_syn 25 = 0" "ex_syn 26 = 192" "ex_syn 27 = 0" "ex_syn 28 = 0" "ex_syn
  29 = 7" "ex_syn 30 = 198" "ex_syn 31 = 0" "ex_syn 32 = 0" "ex_syn 33 = 1" "ex_syn 34 = 48"
  "ex_syn 35 = 57" "ex_syn 36 = 0" "ex_syn 37 = 80" "ex_syn 38 = 0" "ex_syn 39 = 0" "ex_syn 40 =
  0" "ex_syn 41 = 100" "ex_syn 42 = 0" "ex_syn 43 = 0" "ex_syn 44 = 0" "ex_syn 45 = 0" "ex_syn
  46 = 80" "ex_syn 47 = 2" "ex_syn 48 = 0" "ex_syn 49 = 0" "ex_syn 50 = 0" "ex_syn 51 = 0"
  "ex_syn 52 = 0" "ex_syn 53 = 0" "ex_syn 54 = 0" "ex_syn 55 = 0" "ex_syn 56 = 0" "ex_syn 57 =
  0"
  by (simp_all add: ex_syn_def)

definition ex_uplink :: interface where
  "ex_uplink = \<lparr>if_name = Some ''eth0'', if_tag = ''main'', if_filter = None, if_promisc = 0, if_ip = Some 0x010000C6, if_mac = 0x010000000002,
     if_mtu = 1500, if_target = Some 50\<rparr>"

definition ex_downlink :: interface where
  "ex_downlink = \<lparr>if_name = Some ''eth1'', if_tag = ''inside'', if_filter = None, if_promisc = 0, if_ip = None, if_mac = 0x020000000002,
     if_mtu = 1500, if_target = None\<rparr>"

definition ex_front :: handler where
  "ex_front = \<lparr>hd_ID = 0, hd_mac = Some 0x0A0000000002, hd_ip = Some 0x0200000A, hd_netmask = None,
     hd_vlan = 0, hd_iface = Some 12, hd_rule = None, hd_exclusive = 0, hd_intra_target_ips = []\<rparr>"

definition ex_back :: handler where
  "ex_back = \<lparr>hd_ID = 1, hd_mac = Some 0x0B0000000002, hd_ip = Some 0x0300000A, hd_netmask = None,
     hd_vlan = 0, hd_iface = Some 12, hd_rule = None, hd_exclusive = 0, hd_intra_target_ips = []\<rparr>"

definition ex_target :: target where
  "ex_target = \<lparr>tg_targetID = 1, tg_default_route = Some 11, tg_default_route_ip = None,
     tg_default_route_mac = Some 0x0C0000000002, tg_front_handler = Some 21, tg_back_handlers = [(1, 22)],
     tg_back_handler_count = 1, tg_back_picker = None, tg_intra_handlers = [], tg_intra_handlers_list = [],
     tg_control_rule = None, tg_intra_rule = None\<rparr>"

definition ex_state :: hb_state where
  "ex_state = \<lparr>st_ifaces = [11 \<mapsto> ex_uplink, 12 \<mapsto> ex_downlink], st_handlers = [21 \<mapsto> ex_front, 22 \<mapsto> ex_back],
     st_targets = [50 \<mapsto> ex_target], st_conns = Map.empty, st_pins = Map.empty, st_pin_keys = {},
     st_keyfiles = Map.empty, st_next = 100,
     targets = [(1, 50)], ext_tree1 = [], ext_tree2 = [], int_tree1 = [], int_tree2 = [], comm_pin_tree = [],
     target_pin_tree = [], intra_tree1 = [], intra_tree2 = [], intra_pin_tree = [], links = Map.empty,
     module_to_save = Map.empty, c_id = 0, target_counter = 1, max_packet_buffer = 1000, deny_hih_init = 0,
     reset_ext = 0, exclusive_hih = 0, broadcast_allowed = False, broadcast = 0xFFFFFFFFFFFF, st_rand = 0,
     st_sent = [], st_log = []\<rparr>"

lemma ex_state_at [simp]:
  "st_ifaces ex_state 11 = Some ex_uplink" "st_ifaces ex_state 12 = Some ex_downlink"
  "st_handlers ex_state 21 = Some ex_front" "st_handlers ex_state 22 = Some ex_back"
  "st_targets ex_state 50 = Some ex_target" "broadcast ex_state = 0xFFFFFFFFFFFF"
  "if_target ex_uplink = Some 50" "if_target ex_downlink = None"
  by (simp_all add: ex_state_def ex_uplink_def ex_downlink_def)

text \<open>An environment in which every injection succeeds.\<close>

definition ex_env :: env where
  "ex_env = \<lparr>ev_time = \<lparr>tv_sec = 1000, tv_usec = 0\<rparr>, ev_rand = (\<lambda>_. 0), ev_inject = (\<lambda>_ _. True),
     ev_addr_cmp = (\<lambda>a b. if a < b then -1 else if a = b then 0 else 1), ev_needfrag_len = 8,
     ev_needfrag_pack = (\<lambda>f _ _ _. f), ev_pton_ip = (\<lambda>_. 0x0900000A), ev_pton_mac = (\<lambda>_. 9),
     ev_mask_ips = (\<lambda>_. None), ev_digest = (\<lambda>bs. take 20 (bs @ replicate 20 0)), ev_uninit = 0\<rparr>"

end
