(* ===== verification/Packet.thy ===== *)
theory Packet
  imports Scenario
begin

text \<open>
  From a captured frame to the packet structure: \<open>process_packet\<close> of
  \<open>honeybrid.c\<close>, \<open>init_pkt\<close> and \<open>store_pkt\<close> of \<open>connections.c\<close>.  The captured
  bytes are a buffer of \<open>caplen\<close> bytes; a read past them is a fault.
\<close>

record pcap_pkthdr =
  ph_caplen :: u32
  ph_len :: u32

section \<open>Fields of the headers\<close>

text \<open>The fields as they lie in memory, by the offset of their header.\<close>

abbreviation ether_dhost :: "mem \<Rightarrow> nat \<Rightarrow> mac_t" where "ether_dhost f eth \<equiv> get48 f eth"
abbreviation ether_shost :: "mem \<Rightarrow> nat \<Rightarrow> mac_t" where "ether_shost f eth \<equiv> get48 f (eth + 6)"
abbreviation ether_type :: "mem \<Rightarrow> nat \<Rightarrow> u16" where "ether_type f eth \<equiv> get16 f (eth + 12)"
abbreviation h_vlan_TCI :: "mem \<Rightarrow> nat \<Rightarrow> vlan_tci" where "h_vlan_TCI f eth \<equiv> get16 f (eth + 14)"
abbreviation ip_protocol :: "mem \<Rightarrow> nat \<Rightarrow> byte" where "ip_protocol f ip \<equiv> f (ip + 9)"
abbreviation ip_saddr :: "mem \<Rightarrow> nat \<Rightarrow> u32" where "ip_saddr f ip \<equiv> get32 f (ip + 12)"
abbreviation ip_daddr :: "mem \<Rightarrow> nat \<Rightarrow> u32" where "ip_daddr f ip \<equiv> get32 f (ip + 16)"
abbreviation l4_source :: "mem \<Rightarrow> nat \<Rightarrow> u16" where "l4_source f l4 \<equiv> get16 f l4"
abbreviation l4_dest :: "mem \<Rightarrow> nat \<Rightarrow> u16" where "l4_dest f l4 \<equiv> get16 f (l4 + 2)"
abbreviation tcp_seq :: "mem \<Rightarrow> nat \<Rightarrow> u32" where "tcp_seq f th \<equiv> get32 f (th + 4)"
abbreviation tcp_ack_seq :: "mem \<Rightarrow> nat \<Rightarrow> u32" where "tcp_ack_seq f th \<equiv> get32 f (th + 8)"

text \<open>The flags are bits of the byte at offset 13 of the TCP header.\<close>

definition tcp_fin :: "mem \<Rightarrow> nat \<Rightarrow> bool" where "tcp_fin f th = bit (f (th + 13)) 0"
definition tcp_syn :: "mem \<Rightarrow> nat \<Rightarrow> bool" where "tcp_syn f th = bit (f (th + 13)) 1"
definition tcp_ack :: "mem \<Rightarrow> nat \<Rightarrow> bool" where "tcp_ack f th = bit (f (th + 13)) 4"

section \<open>Building the packet structure (connections.c, init_pkt)\<close>

text \<open>A copy of \<open>n\<close> bytes of the frame in a block of its own (\<open>g_memdup\<close>).\<close>

definition memdup :: "mem \<Rightarrow> nat \<Rightarrow> nat \<Rightarrow> nat \<Rightarrow> mem res" where
  "memdup f flen off n = rbind (inside flen (off + n)) (\<lambda>_. Inr (\<lambda>i. f (off + i)))"

definition null_headers :: headers where
  "null_headers = \<lparr>oh_eth = None, oh_vlan = None, oh_ip = None, oh_tcp = None, oh_udp = None\<rparr>"

definition null_nat :: nat_struct where
  "null_nat = \<lparr>nat_src_ip = None, nat_dst_mac = None, nat_dst_ip = None, nat_dst_vlan = None\<rparr>"

text \<open>The zeroed structure with the frame copied in and the Ethernet header set up.\<close>

definition zero_pkt :: "ptr \<Rightarrow> mem \<Rightarrow> nat \<Rightarrow> nat \<Rightarrow> headers \<Rightarrow> u32 \<Rightarrow> pkt_struct" where
  "zero_pkt iface f flen eth oh sz =
     \<lparr>pkt_FRAME = f, pkt_flen = flen, pkt_eth = eth, pkt_ip = 18, pkt_l4 = 0, pkt_payload = 0,
      pkt_original_headers = oh, pkt_fragmented = False, pkt_broadcast = False,
      pkt_origin = EXT, pkt_destination = EXT, pkt_data = 0, pkt_size = sz, pkt_DE = 0,
      pkt_conn = None, pkt_nat = null_nat, pkt_position = 0, pkt_in = iface, pkt_out = None\<rparr>"

definition init_eth :: "ptr \<Rightarrow> u16 \<Rightarrow> nat \<Rightarrow> mem \<Rightarrow> pkt_struct res" where
  "init_eth iface ethertype caplen packet =
     (if ethertype = ETHERTYPE_IP then
        let f = (\<lambda>i. if i < VLAN_HLEN then 0 else packet (i - VLAN_HLEN)); flen = caplen + VLAN_HLEN in
        rbind (memdup f flen VLAN_HLEN ETHER_HDR_LEN) (\<lambda>h.
        Inr (zero_pkt iface f flen VLAN_HLEN (null_headers\<lparr>oh_eth := Some h\<rparr>) 14))
      else if ethertype = ETHERTYPE_VLAN then
        rbind (memdup packet caplen 0 VLAN_ETH_HLEN) (\<lambda>h.
        Inr (zero_pkt iface packet caplen 0 (null_headers\<lparr>oh_vlan := Some h\<rparr>) 18))
      else Inl NullDeref)"

text \<open>The transport header: \<open>None\<close> where the packet is skipped.\<close>

definition init_l4 :: "pkt_struct \<Rightarrow> pkt_struct option res" where
  "init_l4 pkt =
     (let f = pkt_FRAME pkt; flen = pkt_flen pkt; ip = pkt_ip pkt; l4 = ip + 4 * ip_ihl f ip;
          rest = ucast (ntohs (ip_tot_len f ip)) - of_nat (4 * ip_ihl f ip) in
      rbind (inside flen (ip + 10)) (\<lambda>_.
      if ip_protocol f ip = IPPROTO_TCP then
        (if pkt_size pkt < MIN_TCP_SIZE then Inr None
         else rbind (inside flen (l4 + 13)) (\<lambda>_.
           if tcp_doff f l4 < 5 then Inr None
           else if l4_source f l4 = 0 \<or> l4_dest f l4 = 0 then Inr None
           else rbind (memdup f flen l4 TCP_HDR_LEN) (\<lambda>h.
             Inr (Some (pkt\<lparr>pkt_l4 := l4, pkt_original_headers := (pkt_original_headers pkt)\<lparr>oh_tcp := Some h\<rparr>,
                            pkt_payload := l4 + 4 * tcp_doff f l4,
                            pkt_data := rest - of_nat (4 * tcp_doff f l4)\<rparr>)))))
      else if ip_protocol f ip = IPPROTO_UDP then
        rbind (memdup f flen l4 UDP_HDR_LEN) (\<lambda>h.
        Inr (Some (pkt\<lparr>pkt_l4 := l4, pkt_original_headers := (pkt_original_headers pkt)\<lparr>oh_udp := Some h\<rparr>,
                       pkt_payload := l4 + UDP_HDR_LEN,
                       pkt_data := rest - of_nat UDP_HDR_LEN\<rparr>)))
      else Inr None))"

definition init_pkt ::
  "hb_state \<Rightarrow> ptr \<Rightarrow> u16 \<Rightarrow> pcap_pkthdr \<Rightarrow> mem \<Rightarrow> pkt_struct option res" where
  "init_pkt s iface ethertype header packet =
     rbind (init_eth iface ethertype (unat (ph_caplen header)) packet) (\<lambda>pkt.
     let f = pkt_FRAME pkt; flen = pkt_flen pkt; ip = pkt_ip pkt in
     rbind (inside flen (ip + 4)) (\<lambda>_.
     let pkt = pkt\<lparr>pkt_size := pkt_size pkt + ucast (ntohs (ip_tot_len f ip))\<rparr>;
         pkt = (if ph_caplen header < pkt_size pkt then pkt\<lparr>pkt_fragmented := True\<rparr> else pkt);
         pkt = (if ether_dhost f (pkt_eth pkt) = broadcast s then pkt\<lparr>pkt_broadcast := True\<rparr> else pkt) in
     rbind (memdup f flen ip (4 * ip_ihl f ip)) (\<lambda>h.
     rbind (init_l4 (pkt\<lparr>pkt_original_headers := (pkt_original_headers pkt)\<lparr>oh_ip := Some h\<rparr>\<rparr>)) (\<lambda>r.
     (case r of
        None \<Rightarrow> Inr None
      | Some pkt \<Rightarrow>
          rbind (get_iface s (Some (pkt_in pkt))) (\<lambda>i.
          Inr (Some (pkt\<lparr>pkt_origin := (if if_target i \<noteq> None then EXT else INT_ROLE)\<rparr>))))))))"

section \<open>Checking the frame (honeybrid.c, process_packet)\<close>

definition process_packet ::
  "hb_state \<Rightarrow> ptr \<Rightarrow> pcap_pkthdr \<Rightarrow> mem \<Rightarrow> pkt_struct option res" where
  "process_packet s iface header packet =
     (let caplen = unat (ph_caplen header) in
      if ph_len header < MIN_PACKET_SIZE then Inr None
      else
        rbind (inside caplen 14) (\<lambda>_.
        let ethertype = ntohs (ether_type packet 0) in
        rbind (if ethertype = ETHERTYPE_IP then Inr (Some ETHER_HDR_LEN)
               else if ethertype = ETHERTYPE_VLAN then
                 rbind (inside caplen 18) (\<lambda>_.
                 Inr (if ntohs (get16 packet 16) = ETHERTYPE_IP then Some VLAN_ETH_HLEN else None))
               else Inr None) (\<lambda>ip.
        (case ip of
           None \<Rightarrow> Inr None
         | Some ip \<Rightarrow>
             rbind (inside caplen (ip + 10)) (\<lambda>_.
             if ip_protocol packet ip \<noteq> IPPROTO_TCP \<and> ip_protocol packet ip \<noteq> IPPROTO_UDP then Inr None
             else if ip_ihl packet ip < 5 \<or> 8 < ip_ihl packet ip then Inr None
             else init_pkt s iface ethertype header packet)))))"

section \<open>Buffering a packet (connections.c, store_pkt)\<close>

text \<open>
  The packet takes the position it has in the buffer, or -1 when the buffer is
  full; \<open>OK\<close> when it was stored.
\<close>

definition store_pkt :: "hb_state \<Rightarrow> conn_struct \<Rightarrow> pkt_struct \<Rightarrow> status_t \<times> conn_struct \<times> pkt_struct" where
  "store_pkt s conn pkt =
     (let n = (of_nat (length (cn_BUFFER conn)) :: u32) in
      if ucast n < max_packet_buffer s then
        let pkt = pkt\<lparr>pkt_position := sint n\<rparr> in
        (OK, conn\<lparr>cn_BUFFER := cn_BUFFER conn @ [pkt]\<rparr>, pkt)
      else (NOK, conn, pkt\<lparr>pkt_position := -1\<rparr>))"

section \<open>What a packet structure keeps\<close>

text \<open>
  The shape of an accepted packet: where the headers are, that the headers lie
  in the frame, that the claimed size is the IP length plus the link header.
\<close>

definition pkt_wf :: "pkt_struct \<Rightarrow> bool" where
  "pkt_wf p \<longleftrightarrow>
     (let f = pkt_FRAME p in
      pkt_ip p = 18 \<and>
      (pkt_eth p = 4 \<and> ether_type f 4 = htons ETHERTYPE_IP \<or>
       pkt_eth p = 0 \<and> ether_type f 0 = htons ETHERTYPE_VLAN) \<and>
      5 \<le> ip_ihl f 18 \<and> ip_ihl f 18 \<le> 8 \<and> pkt_l4 p = 18 + 4 * ip_ihl f 18 \<and>
      (ip_protocol f 18 = IPPROTO_TCP \<and> 5 \<le> tcp_doff f (pkt_l4 p) \<and> pkt_l4 p + 20 \<le> pkt_flen p
       \<or> ip_protocol f 18 = IPPROTO_UDP \<and> pkt_l4 p + 8 \<le> pkt_flen p) \<and>
      unat (pkt_size p) = 18 - pkt_eth p + unat (ntohs (ip_tot_len f 18)))"

lemma frame_shift:
  assumes "\<And>i. f (i + k) = g i"
  shows "get16 f (off + k) = get16 g off" "get32 f (off + k) = get32 g off" "get48 f (off + k) = get48 g off"
    "ip_ihl f (off + k) = ip_ihl g off" "ip_tot_len f (off + k) = ip_tot_len g off"
proof -
  have s: "f (off + k) = g off" "f (off + k + 1) = g (off + 1)" "f (off + k + 2) = g (off + 2)"
    "f (off + k + 3) = g (off + 3)" "f (off + k + 4) = g (off + 4)" "f (off + k + 5) = g (off + 5)" for off
    using assms [of off] assms [of "off + 1"] assms [of "off + 2"] assms [of "off + 3"] assms [of "off + 4"]
      assms [of "off + 5"] by (simp_all add: algebra_simps)
  show 1: "get16 f (off + k) = get16 g off" for off using s by (simp add: get16_def)
  have a: "off + k + 2 = off + 2 + k" "off + k + 4 = off + 4 + k" for off by simp_all
  show 2: "get32 f (off + k) = get32 g off" for off unfolding get32_def a by (simp only: 1)
  show "get48 f (off + k) = get48 g off" unfolding get48_def a by (simp only: 1 2)
  show "ip_ihl f (off + k) = ip_ihl g off" by (simp add: ip_ihl_def s)
  show "ip_tot_len f (off + k) = ip_tot_len g off" unfolding ip_tot_len_def a by (simp only: 1)
qed

lemma ip_ihl_le: "ip_ihl f ip \<le> 15"
proof -
  have "unat (take_bit 4 (f ip)) < 2 ^ 4"
    unfolding unsigned_take_bit_eq by (rule take_bit_nat_less_exp)
  then show ?thesis by (simp add: ip_ihl_def bits_def)
qed

lemma tot_len_size:
  assumes "n \<le> 18"
  shows "unat (of_nat n + ucast (x :: u16) :: u32) = n + unat x"
proof -
  have "unat (of_nat n :: u32) = n" "unat (ucast x :: u32) = unat x"
    using assms by (simp_all add: unsigned_of_nat take_bit_eq_mod unsigned_ucast_eq take_bit_nat_eq_self
        unat_bounds(2) [THEN le_less_trans])
  then show ?thesis using assms unat_bounds(2) [of x]
    by (subst unat_add_lem [THEN iffD1]) simp_all
qed

text \<open>The frame and the sizes of the structure \<open>init_pkt\<close> returns, by the kind of link header.\<close>

definition link_hlen :: "u16 \<Rightarrow> nat" where
  "link_hlen ethertype = (if ethertype = ETHERTYPE_IP then ETHER_HDR_LEN else VLAN_ETH_HLEN)"

lemma init_eth_eq:
  assumes "init_eth iface ethertype caplen packet = Inr p"
  shows "ethertype = ETHERTYPE_IP \<or> ethertype = ETHERTYPE_VLAN"
    "pkt_ip p = 18" "pkt_eth p = 18 - link_hlen ethertype" "pkt_flen p = caplen + pkt_eth p"
    "\<And>i. pkt_FRAME p (i + pkt_eth p) = packet i" "pkt_size p = of_nat (link_hlen ethertype)"
    "pkt_in p = iface" "\<not> pkt_fragmented p"
  using assms
  by (auto simp: init_eth_def Let_def rbind_simps zero_pkt_def link_hlen_def split: if_splits)

lemma init_l4_eq:
  assumes "init_l4 p = Inr (Some q)"
  shows "pkt_FRAME q = pkt_FRAME p" "pkt_flen q = pkt_flen p" "pkt_eth q = pkt_eth p"
    "pkt_ip q = pkt_ip p" "pkt_size q = pkt_size p" "pkt_in q = pkt_in p"
    "pkt_fragmented q = pkt_fragmented p"
    "pkt_l4 q = pkt_ip p + 4 * ip_ihl (pkt_FRAME p) (pkt_ip p)"
    "ip_protocol (pkt_FRAME p) (pkt_ip p) = IPPROTO_TCP \<and> 5 \<le> tcp_doff (pkt_FRAME p) (pkt_l4 q) \<and>
       pkt_l4 q + 20 \<le> pkt_flen p
     \<or> ip_protocol (pkt_FRAME p) (pkt_ip p) = IPPROTO_UDP \<and> pkt_l4 q + 8 \<le> pkt_flen p"
  using assms by (auto simp: init_l4_def Let_def rbind_simps memdup_def split: if_splits)

lemma init_pkt_eq:
  assumes "init_pkt s iface ethertype header packet = Inr (Some q)"
  obtains p where "init_eth iface ethertype (unat (ph_caplen header)) packet = Inr p"
    "pkt_FRAME q = pkt_FRAME p" "pkt_flen q = pkt_flen p" "pkt_eth q = pkt_eth p" "pkt_ip q = 18"
    "pkt_in q = iface" "pkt_size q = pkt_size p + ucast (ntohs (ip_tot_len (pkt_FRAME p) 18))"
    "pkt_fragmented q \<longleftrightarrow> ph_caplen header < pkt_size q"
    "pkt_l4 q = 18 + 4 * ip_ihl (pkt_FRAME p) 18"
    "ip_protocol (pkt_FRAME p) 18 = IPPROTO_TCP \<and> 5 \<le> tcp_doff (pkt_FRAME p) (pkt_l4 q) \<and>
       pkt_l4 q + 20 \<le> pkt_flen p
     \<or> ip_protocol (pkt_FRAME p) 18 = IPPROTO_UDP \<and> pkt_l4 q + 8 \<le> pkt_flen p"
    "pkt_origin q = (if if_target (the (st_ifaces s iface)) \<noteq> None then EXT else INT_ROLE)"
    "st_ifaces s iface \<noteq> None"
proof -
  from assms obtain p p1 q1 i
    where e: "init_eth iface ethertype (unat (ph_caplen header)) packet = Inr p"
      and l: "init_l4 p1 = Inr (Some q1)" and i: "st_ifaces s (pkt_in q1) = Some i"
      and q: "q = q1\<lparr>pkt_origin := (if if_target i \<noteq> None then EXT else INT_ROLE)\<rparr>"
      and p1: "pkt_FRAME p1 = pkt_FRAME p" "pkt_flen p1 = pkt_flen p" "pkt_eth p1 = pkt_eth p"
        "pkt_ip p1 = pkt_ip p" "pkt_in p1 = pkt_in p"
        "pkt_size p1 = pkt_size p + ucast (ntohs (ip_tot_len (pkt_FRAME p) (pkt_ip p)))"
        "pkt_fragmented p1 \<longleftrightarrow> ph_caplen header < pkt_size p1 \<or> pkt_fragmented p"
    by (auto simp: init_pkt_def Let_def rbind_simps get_iface_def split: option.splits if_splits)
  note ie = init_eth_eq [OF e] and il = init_l4_eq [OF l]
  show thesis
    using that [OF e] ie il p1 i unfolding q by auto
qed

text \<open>Where \<open>process_packet\<close> hands over to \<open>init_pkt\<close>.\<close>

lemma process_packet_init:
  assumes "process_packet s iface header packet = Inr (Some q)"
  defines "et \<equiv> ntohs (ether_type packet 0)"
  shows "init_pkt s iface et header packet = Inr (Some q)"
    "5 \<le> ip_ihl packet (link_hlen et)" "ip_ihl packet (link_hlen et) \<le> 8"
  using assms
  by (auto simp: process_packet_def Let_def rbind_simps link_hlen_def split: if_splits option.splits)

lemma process_packet_shape:
  assumes "process_packet s iface header packet = Inr (Some q)"
  shows "pkt_wf q" "\<not> pkt_fragmented q \<Longrightarrow> pkt_eth q + unat (pkt_size q) \<le> pkt_flen q"
    "pkt_in q = iface"
proof -
  define et where "et = ntohs (ether_type packet 0)"
  note pp = process_packet_init [OF assms, folded et_def]
  from init_pkt_eq [OF pp(1)] obtain p where
    e: "init_eth iface et (unat (ph_caplen header)) packet = Inr p"
    and q: "pkt_FRAME q = pkt_FRAME p" "pkt_flen q = pkt_flen p" "pkt_eth q = pkt_eth p" "pkt_ip q = 18"
    "pkt_in q = iface" "pkt_size q = pkt_size p + ucast (ntohs (ip_tot_len (pkt_FRAME p) 18))"
    "pkt_fragmented q \<longleftrightarrow> ph_caplen header < pkt_size q"
    "pkt_l4 q = 18 + 4 * ip_ihl (pkt_FRAME p) 18"
    "ip_protocol (pkt_FRAME p) 18 = IPPROTO_TCP \<and> 5 \<le> tcp_doff (pkt_FRAME p) (pkt_l4 q) \<and>
       pkt_l4 q + 20 \<le> pkt_flen p
     \<or> ip_protocol (pkt_FRAME p) 18 = IPPROTO_UDP \<and> pkt_l4 q + 8 \<le> pkt_flen p" .
  note p = init_eth_eq [OF e]
  have k: "link_hlen et \<le> 18" "link_hlen et = 18 - pkt_eth p" "link_hlen et + pkt_eth p = 18"
    "pkt_eth p = 0 \<or> pkt_eth p = 4" "pkt_eth p = 4 \<longleftrightarrow> et = ETHERTYPE_IP"
    using p(1,3) by (auto simp: link_hlen_def)
  note sh = frame_shift [of "pkt_FRAME p" "pkt_eth p" packet, OF p(5)]
  have ihl: "ip_ihl (pkt_FRAME p) 18 = ip_ihl packet (link_hlen et)"
    using sh(4) [of "link_hlen et"] k(3) by simp
  have et: "ether_type (pkt_FRAME p) (pkt_eth p) = htons et"
    using sh(1) [of 12] by (simp add: et_def add.commute)
  have sz: "unat (pkt_size q) = 18 - pkt_eth p + unat (ntohs (ip_tot_len (pkt_FRAME p) 18))"
    unfolding q(6) p(6) using tot_len_size [OF k(1)] k(2) by simp
  have "pkt_eth p = 4 \<and> ether_type (pkt_FRAME p) 4 = htons ETHERTYPE_IP \<or>
      pkt_eth p = 0 \<and> ether_type (pkt_FRAME p) 0 = htons ETHERTYPE_VLAN"
    using et k(4,5) p(1) by auto
  then show "pkt_wf q" unfolding pkt_wf_def Let_def q ihl using pp(2,3) q(9) sz[unfolded q]
    by (simp add: q ihl)
  show "pkt_eth q + unat (pkt_size q) \<le> pkt_flen q" if "\<not> pkt_fragmented q"
    using that p(4) by (simp add: q(2,3,7) word_le_nat_alt not_less)
  show "pkt_in q = iface" by (rule q(5))
qed

text \<open>With 70 captured bytes every header a packet may have is inside the frame.\<close>

lemma init_l4_safe:
  assumes "pkt_ip p = 18" and "ip_ihl (pkt_FRAME p) 18 \<le> 8" and "70 \<le> pkt_flen p"
  shows "\<exists>r. init_l4 p = Inr r"
  using assms by (simp add: init_l4_def Let_def memdup_def)

lemma init_pkt_safe:
  assumes "70 \<le> unat (ph_caplen header)" and i: "st_ifaces s iface \<noteq> None"
    and et: "et = ETHERTYPE_IP \<or> et = ETHERTYPE_VLAN" and ihl: "ip_ihl packet (link_hlen et) \<le> 8"
  shows "\<exists>r. init_pkt s iface et header packet = Inr r"
proof -
  have "\<exists>p. init_eth iface et (unat (ph_caplen header)) packet = Inr p"
    using assms(1) et by (auto simp: init_eth_def Let_def memdup_def)
  then obtain p where e: "init_eth iface et (unat (ph_caplen header)) packet = Inr p" ..
  note p = init_eth_eq [OF e]
  have fl: "70 \<le> pkt_flen p" using p(4) assms(1) by simp
  have "link_hlen et + pkt_eth p = 18" using et p(3) by (auto simp: link_hlen_def)
  then have ihl': "ip_ihl (pkt_FRAME p) 18 \<le> 8"
    using frame_shift(4) [of "pkt_FRAME p" "pkt_eth p" packet "link_hlen et", OF p(5)] ihl by simp
  have l4: "\<exists>r. init_l4 p1 = Inr r"
    if "pkt_ip p1 = 18" "pkt_FRAME p1 = pkt_FRAME p" "pkt_flen p1 = pkt_flen p" for p1
    using init_l4_safe [of p1] that fl ihl' by simp
  have in': "init_l4 p1 = Inr (Some q) \<Longrightarrow> pkt_in p1 = iface \<Longrightarrow> st_ifaces s (pkt_in q) \<noteq> None" for p1 q
    using init_l4_eq(6) [of p1 q] i by simp
  have total: "(\<exists>r. rbind (init_l4 p1) (\<lambda>r. case r of None \<Rightarrow> Inr None
      | Some pkt \<Rightarrow> rbind (get_iface s (Some (pkt_in pkt))) (\<lambda>i.
          Inr (Some (pkt\<lparr>pkt_origin := (if if_target i \<noteq> None then EXT else INT_ROLE)\<rparr>)))) = Inr r)"
    if "pkt_ip p1 = 18" "pkt_FRAME p1 = pkt_FRAME p" "pkt_flen p1 = pkt_flen p" "pkt_in p1 = iface" for p1
    using l4 [OF that(1-3)] in' [OF _ that(4)]
    by (fastforce simp: get_iface_def split: option.splits)
  have "memdup (pkt_FRAME p) (pkt_flen p) 18 (4 * ip_ihl (pkt_FRAME p) 18) = Inr (\<lambda>i. pkt_FRAME p (18 + i))"
    using fl ihl' by (simp add: memdup_def)
  then show ?thesis
    unfolding init_pkt_def Let_def e rbind_Inr p(2) using fl
    by (simp only: rbind_Inr inside_le) (rule total, simp_all add: p)
qed

lemma process_packet_total:
  assumes "70 \<le> unat (ph_caplen header)" and "st_ifaces s iface \<noteq> None"
  shows "\<exists>r. process_packet s iface header packet = Inr r"
  using assms(1) init_pkt_safe [OF assms, of "ntohs (ether_type packet 0)" packet]
  by (auto simp: process_packet_def Let_def link_hlen_def not_less)

section \<open>Properties\<close>

lemmas frame_eval =
  get16_def get32_def get48_def ip_ihl_def bits_def ntohs_def ntohl_def word_cat_eq ip_tot_len_def tcp_doff_def

text \<open>The captured SYN of the scenario becomes a packet structure.\<close>

definition ex_header :: pcap_pkthdr where
  "ex_header = \<lparr>ph_caplen = 70, ph_len = 70\<rparr>"

definition ex_pkt :: pkt_struct where
  "ex_pkt = (zero_pkt 11 (\<lambda>i. if i < 4 then 0 else ex_syn (i - 4)) 74 4
       (null_headers\<lparr>oh_eth := Some ex_syn, oh_ip := Some (\<lambda>i. ex_syn (14 + i)),
                     oh_tcp := Some (\<lambda>i. ex_syn (34 + i))\<rparr>) 54)
     \<lparr>pkt_l4 := 38, pkt_payload := 58\<rparr>"

lemma process_ex_syn: "process_packet ex_state 11 ex_header ex_syn = Inr (Some ex_pkt)"
  by (simp add: process_packet_def ex_header_def ex_syn_at Let_def frame_eval init_pkt_def init_eth_def
      init_l4_def memdup_def zero_pkt_def get_iface_def ex_pkt_def)

text \<open>C14: A packet that \<open>process_packet\<close> accepts is well-formed: its headers are where the structure
  says and inside the captured frame, and, unless it is marked as fragmented, the bytes that are sent
  when it is forwarded unchanged are inside the frame too.\<close>

theorem process_packet_wf:
  assumes "process_packet s iface header packet = Inr (Some q)"
  shows "pkt_wf q \<and> pkt_in q = iface \<and>
    (\<not> pkt_fragmented q \<longrightarrow> pkt_eth q + unat (pkt_size q) \<le> pkt_flen q)"
  using process_packet_shape [OF assms] by blast

theorem process_packet_wf_witness:
  "pkt_wf ex_pkt \<and> pkt_in ex_pkt = 11 \<and> pkt_eth ex_pkt + unat (pkt_size ex_pkt) \<le> pkt_flen ex_pkt"
  using process_packet_wf [OF process_ex_syn] by (simp add: ex_pkt_def zero_pkt_def)

text \<open>C15: With at least 70 captured bytes (the longest link, IP and TCP headers that pass the checks)
  \<open>process_packet\<close> reads nothing outside the capture, whatever the packet holds.\<close>

theorem process_packet_safe:
  assumes "70 \<le> unat (ph_caplen header)" and "st_ifaces s iface \<noteq> None"
  shows "\<exists>r. process_packet s iface header packet = Inr r"
  using assms by (rule process_packet_total)

theorem process_packet_safe_witness: "\<exists>r. process_packet ex_state 11 ex_header (\<lambda>_. 0) = Inr r"
  by (rule process_packet_safe) (simp_all add: ex_header_def)

text \<open>The length check of \<open>process_packet\<close> is not enough for an IP header with options: a frame on
  an uplink that is captured up to the protocol field but not to the end of the IP header it announces
  is read past its end, although it passes every check.\<close>

theorem process_packet_overread:
  assumes "42 \<le> ph_len header" and "24 \<le> unat (ph_caplen header)"
    and "unat (ph_caplen header) < 14 + 4 * ip_ihl packet 14"
    and "ntohs (ether_type packet 0) = ETHERTYPE_IP" and "ip_protocol packet 14 = IPPROTO_UDP"
    and "5 \<le> ip_ihl packet 14" and "ip_ihl packet 14 \<le> 8"
  shows "process_packet s iface header packet = Inl OutOfBounds"
proof -
  let ?f = "\<lambda>i. if i < 4 then 0 else packet (i - 4)"
  have "ip_ihl ?f (14 + 4) = ip_ihl packet 14" by (rule frame_shift(4)) simp
  then have "\<not> 22 + 4 * ip_ihl ?f 18 - 4 \<le> unat (ph_caplen header) + 4"
    "memdup ?f (unat (ph_caplen header) + 4) 18 (4 * ip_ihl ?f 18) = Inl OutOfBounds"
    using assms(3) by (auto simp: memdup_def)
  then have "init_pkt s iface ETHERTYPE_IP header packet = Inl OutOfBounds"
    using assms(2) by (simp add: init_pkt_def init_eth_def zero_pkt_def Let_def) (simp add: memdup_def)
  then show ?thesis using assms by (simp add: process_packet_def Let_def)
qed

theorem process_packet_overread_witness:
  "process_packet ex_state 11 \<lparr>ph_caplen = 42, ph_len = 42\<rparr> ((\<lambda>_. 0)(12 := 8, 14 := 0x48, 23 := 17)) = Inl OutOfBounds"
  by (rule process_packet_overread) (simp_all add: frame_eval)

end
