(* ===== verification/Netcode.thy ===== *)
theory Netcode
  imports Packet
begin

text \<open>
  The sending half of \<open>netcode.c\<close>: address translation of a frame, the four
  proxy functions, the two forwarding functions of a redirected connection, the
  TCP reset, the ARP reply and the ICMP answer.  Each takes the connection
  where the code goes through \<open>pkt->conn\<close> and returns the rewritten packet and
  the state after the frame was handed to the interface.
\<close>

section \<open>Rewriting the link header\<close>

text \<open>
  A frame without VLAN header starts at offset 4 of the buffer, one with at
  offset 0.  Adding moves the addresses and the type to the front and writes
  the tag behind the addresses; stripping moves them back.
\<close>

definition vlan_add :: "pkt_struct \<Rightarrow> vlan_tci \<Rightarrow> pkt_struct" where
  "vlan_add pkt tci =
     (let f = memput (pkt_FRAME pkt) 0 (memget (pkt_FRAME pkt) (pkt_eth pkt) ETHER_HDR_LEN);
          f = put16 f 12 (htons ETHERTYPE_VLAN);
          f = put16 f 16 (htons ETHERTYPE_IP);
          f = put16 f 14 tci
      in pkt\<lparr>pkt_FRAME := f, pkt_eth := 0, pkt_size := pkt_size pkt + 4\<rparr>)"

definition vlan_strip :: "pkt_struct \<Rightarrow> pkt_struct" where
  "vlan_strip pkt =
     (let f = memput (pkt_FRAME pkt) VLAN_HLEN (memget (pkt_FRAME pkt) 0 ETHER_HDR_LEN);
          f = put16 f (VLAN_HLEN + 12) (htons ETHERTYPE_IP)
      in pkt\<lparr>pkt_FRAME := f, pkt_eth := VLAN_HLEN, pkt_size := pkt_size pkt - 4\<rparr>)"

definition is_vlan :: "pkt_struct \<Rightarrow> bool" where
  "is_vlan pkt = (ntohs (ether_type (pkt_FRAME pkt) (pkt_eth pkt)) = ETHERTYPE_VLAN)"

text \<open>The tag of a packet between HIH and INTRA: changed, added, or left alone.\<close>

definition vlan_retag :: "pkt_struct \<Rightarrow> vlan_tci \<Rightarrow> pkt_struct" where
  "vlan_retag pkt tci =
     (if vlan_vid tci = 0 then pkt
      else if is_vlan pkt then pkt\<lparr>pkt_FRAME := put16 (pkt_FRAME pkt) (pkt_eth pkt + 14) tci\<rparr>
      else vlan_add pkt tci)"

definition put_shost :: "pkt_struct \<Rightarrow> mac_t \<Rightarrow> pkt_struct" where
  "put_shost pkt m = pkt\<lparr>pkt_FRAME := put48 (pkt_FRAME pkt) (pkt_eth pkt + 6) m\<rparr>"

definition put_dhost :: "pkt_struct \<Rightarrow> mac_t \<Rightarrow> pkt_struct" where
  "put_dhost pkt m = pkt\<lparr>pkt_FRAME := put48 (pkt_FRAME pkt) (pkt_eth pkt) m\<rparr>"

definition put_saddr :: "pkt_struct \<Rightarrow> u32 \<Rightarrow> pkt_struct" where
  "put_saddr pkt a = pkt\<lparr>pkt_FRAME := put32 (pkt_FRAME pkt) (pkt_ip pkt + 12) a\<rparr>"

definition put_daddr :: "pkt_struct \<Rightarrow> u32 \<Rightarrow> pkt_struct" where
  "put_daddr pkt a = pkt\<lparr>pkt_FRAME := put32 (pkt_FRAME pkt) (pkt_ip pkt + 16) a\<rparr>"

section \<open>Checksums of a rewritten packet\<close>

definition fix_l4_checksum :: "pkt_struct \<Rightarrow> pkt_struct res" where
  "fix_l4_checksum pkt =
     (if ip_protocol (pkt_FRAME pkt) (pkt_ip pkt) = IPPROTO_TCP
      then rbind (set_tcp_checksum (pkt_FRAME pkt) (pkt_flen pkt) (pkt_ip pkt)) (\<lambda>f.
           Inr (pkt\<lparr>pkt_FRAME := f\<rparr>))
      else rbind (inside (pkt_flen pkt) (pkt_ip pkt + 28)) (\<lambda>_.
           Inr (pkt\<lparr>pkt_FRAME := set_udp_checksum (pkt_FRAME pkt) (pkt_ip pkt)\<rparr>)))"

definition fix_ip_checksum :: "pkt_struct \<Rightarrow> pkt_struct" where
  "fix_ip_checksum pkt = pkt\<lparr>pkt_FRAME := set_ip_checksum (pkt_FRAME pkt) (pkt_ip pkt)\<rparr>"

section \<open>Address translation (netcode.c, nat)\<close>

text \<open>
  The rewriting up to the checksums, and whether they follow: the code returns
  early for a packet from the inside with a destination it does not know.
\<close>

definition nat_addrs :: "hb_state \<Rightarrow> pkt_struct \<Rightarrow> (bool \<times> pkt_struct) res" where
  "nat_addrs s pkt =
     rbind (inside (pkt_flen pkt) (pkt_ip pkt + 20)) (\<lambda>_.
     rbind (get_iface s (pkt_out pkt)) (\<lambda>out.
     let pkt = put_shost pkt (if_mac out); n = pkt_nat pkt in
     rbind (nonnull (nat_dst_mac n)) (\<lambda>mac.
     let pkt = put_dhost pkt mac in
     (case pkt_origin pkt of
        EXT \<Rightarrow>
          rbind (nonnull (nat_dst_ip n)) (\<lambda>ip.
          let pkt = put_daddr pkt ip in
          Inr (True, (case nat_dst_vlan n of
                       Some v \<Rightarrow> if vlan_vid v \<noteq> 0 then vlan_add pkt v
                                 else if is_vlan pkt then vlan_strip pkt else pkt
                     | None \<Rightarrow> if is_vlan pkt then vlan_strip pkt else pkt)))
      | _ \<Rightarrow>
          (case pkt_destination pkt of
             INTRA \<Rightarrow>
               rbind (nonnull (nat_dst_ip n)) (\<lambda>ip.
               rbind (nonnull (nat_dst_vlan n)) (\<lambda>v.
               Inr (True, (vlan_retag (put_daddr pkt ip) v))))
           | EXT \<Rightarrow>
               rbind (nonnull (nat_src_ip n)) (\<lambda>ip.
               let pkt = put_saddr pkt ip in
               Inr (True, (if is_vlan pkt then vlan_strip pkt else pkt)))
           | HIH \<Rightarrow>
               rbind (nonnull (nat_src_ip n)) (\<lambda>ip.
               rbind (nonnull (nat_dst_vlan n)) (\<lambda>v.
               Inr (True, (vlan_retag (put_saddr pkt ip) v))))
           | _ \<Rightarrow> Inr (False, pkt))))))"

definition nat_pkt :: "hb_state \<Rightarrow> pkt_struct \<Rightarrow> pkt_struct res" where
  "nat_pkt s pkt =
     rbind (nat_addrs s pkt) (\<lambda>(sums, pkt).
     if sums then rbind (fix_l4_checksum pkt) (\<lambda>pkt. Inr (fix_ip_checksum pkt)) else Inr pkt)"

section \<open>Sending\<close>

definition send_pkt :: "env \<Rightarrow> hb_state \<Rightarrow> pkt_struct \<Rightarrow> (status_t \<times> pkt_struct \<times> hb_state) res" where
  "send_pkt E s pkt =
     (case pkt_out pkt of
        None \<Rightarrow> Inr (NOK, pkt, s)
      | Some i \<Rightarrow>
          rbind (get_iface s (Some i)) (\<lambda>_.
          rbind (inside (pkt_flen pkt) (pkt_eth pkt + unat (pkt_size pkt))) (\<lambda>_.
          let (ok, s) = pcap_inject E s i (memget (pkt_FRAME pkt) (pkt_eth pkt) (unat (pkt_size pkt)))
          in Inr (if ok then OK else NOK, pkt, s))))"

definition nat_send :: "env \<Rightarrow> hb_state \<Rightarrow> pkt_struct \<Rightarrow> (status_t \<times> pkt_struct \<times> hb_state) res" where
  "nat_send E s pkt = rbind (nat_pkt s pkt) (send_pkt E s)"

section \<open>The proxies (netcode.c)\<close>

text \<open>A packet goes to a handler: its interface, its addresses and its VLAN.\<close>

definition nat_to_handler :: "pkt_struct \<Rightarrow> handler \<Rightarrow> role_t \<Rightarrow> pkt_struct" where
  "nat_to_handler pkt h role =
     pkt\<lparr>pkt_out := hd_iface h,
         pkt_nat := (pkt_nat pkt)\<lparr>nat_dst_mac := hd_mac h, nat_dst_ip := hd_ip h,
                                  nat_dst_vlan := Some (hd_vlan h)\<rparr>,
         pkt_destination := role\<rparr>"

definition proxy_ext2int ::
  "env \<Rightarrow> hb_state \<Rightarrow> conn_struct \<Rightarrow> pkt_struct \<Rightarrow> (status_t \<times> pkt_struct \<times> hb_state) res" where
  "proxy_ext2int E s conn pkt =
     (case cn_initiator conn of
        LIH \<Rightarrow> rbind (conn_front_handler s conn) (\<lambda>h. nat_send E s (nat_to_handler pkt h LIH))
      | EXT \<Rightarrow> rbind (conn_front_handler s conn) (\<lambda>h. nat_send E s (nat_to_handler pkt h LIH))
      | HIH \<Rightarrow> rbind (get_handler s (hih_back_handler (cn_hih conn))) (\<lambda>h.
               nat_send E s (nat_to_handler pkt h HIH))
      | _ \<Rightarrow> Inr (NOK, pkt, s))"

text \<open>The address a connection of a honeypot is sent from: the pinned one, or a default.\<close>

definition snat_ip :: "hb_state \<Rightarrow> conn_struct \<Rightarrow> u32 option res \<Rightarrow> u32 option res" where
  "snat_ip s conn dflt =
     (case cn_pin_ip conn of
        Some p \<Rightarrow> rbind (deref (st_pins s) p) (\<lambda>pin. Inr (Some (pin_ip pin)))
      | None \<Rightarrow> dflt)"

definition proxy_int2ext ::
  "env \<Rightarrow> hb_state \<Rightarrow> conn_struct \<Rightarrow> pkt_struct \<Rightarrow> (status_t \<times> pkt_struct \<times> hb_state) res" where
  "proxy_int2ext E s conn pkt =
     rbind (get_target s (cn_target conn)) (\<lambda>t.
     let pkt = pkt\<lparr>pkt_out := tg_default_route t, pkt_destination := EXT\<rparr> in
     if cn_initiator conn = EXT then
       nat_send E s (pkt\<lparr>pkt_nat := (pkt_nat pkt)\<lparr>nat_src_ip := Some (cn_first_pkt_dst_ip conn),
         nat_dst_mac := Some (cn_first_pkt_src_mac conn), nat_dst_ip := Some (cn_first_pkt_src_ip conn)\<rparr>\<rparr>)
     else
       rbind (snat_ip s conn (rbind (get_iface s (tg_default_route t)) (\<lambda>i. Inr (if_ip i)))) (\<lambda>ip.
       nat_send E s (pkt\<lparr>pkt_nat := (pkt_nat pkt)\<lparr>nat_src_ip := ip, nat_dst_mac := tg_default_route_mac t\<rparr>\<rparr>)))"

definition proxy_hih2intra ::
  "env \<Rightarrow> hb_state \<Rightarrow> conn_struct \<Rightarrow> pkt_struct \<Rightarrow> (status_t \<times> pkt_struct \<times> hb_state) res" where
  "proxy_hih2intra E s conn pkt =
     (case cn_intra_handler conn of
        None \<Rightarrow> Inr (NOK, pkt, s)
      | Some _ \<Rightarrow> rbind (get_handler s (cn_intra_handler conn)) (\<lambda>h.
                  nat_send E s (nat_to_handler pkt h INTRA)))"

definition proxy_intra2hih ::
  "env \<Rightarrow> hb_state \<Rightarrow> conn_struct \<Rightarrow> pkt_struct \<Rightarrow> (status_t \<times> pkt_struct \<times> hb_state) res" where
  "proxy_intra2hih E s conn pkt =
     (case hih_back_handler (cn_hih conn) of
        None \<Rightarrow> Inr (NOK, pkt, s)
      | Some hp \<Rightarrow> rbind (get_handler s (Some hp)) (\<lambda>h.
          rbind (snat_ip s conn (Inr (Some (cn_first_pkt_dst_ip conn)))) (\<lambda>ip.
          nat_send E s (pkt\<lparr>pkt_out := hd_iface h, pkt_destination := HIH,
            pkt_nat := (pkt_nat pkt)\<lparr>nat_src_ip := ip, nat_dst_mac := Some (cn_first_pkt_src_mac conn),
                                     nat_dst_vlan := Some (hd_vlan h)\<rparr>\<rparr>))))"

section \<open>Forwarding on a redirected connection (netcode.c)\<close>

definition forward_ext2hih_l4 :: "conn_struct \<Rightarrow> pkt_struct \<Rightarrow> pkt_struct res" where
  "forward_ext2hih_l4 conn pkt =
     (let f = pkt_FRAME pkt; l4 = pkt_l4 pkt; proto = ip_protocol f (pkt_ip pkt) in
      if proto = IPPROTO_TCP then
        rbind (inside (pkt_flen pkt) (l4 + 14)) (\<lambda>_.
        let f = put16 f (l4 + 2) (hih_port (cn_hih conn));
            f = (if tcp_ack f l4
                 then put32 f (l4 + 8) (htonl (ntohl (tcp_ack_seq f l4) + NOT (hih_delta (cn_hih conn)) + 1))
                 else f)
        in fix_l4_checksum (pkt\<lparr>pkt_FRAME := f\<rparr>))
      else if proto = IPPROTO_UDP then
        rbind (inside (pkt_flen pkt) (l4 + 4)) (\<lambda>_.
        fix_l4_checksum (pkt\<lparr>pkt_FRAME := put16 f (l4 + 2) (hih_port (cn_hih conn))\<rparr>))
      else Inr pkt)"

definition forward_ext2hih_vlan :: "vlan_tci \<Rightarrow> pkt_struct \<Rightarrow> pkt_struct" where
  "forward_ext2hih_vlan tci pkt =
     (if tci = 0 then pkt
      else if is_vlan pkt
      then (let f = put16 (pkt_FRAME pkt) 12 (htons ETHERTYPE_VLAN);
                f = put16 f 16 (htons ETHERTYPE_IP);
                f = put16 f 14 tci
            in pkt\<lparr>pkt_FRAME := f, pkt_eth := 0\<rparr>)
      else vlan_add pkt tci)"

definition forward_ext2hih ::
  "env \<Rightarrow> hb_state \<Rightarrow> conn_struct \<Rightarrow> pkt_struct \<Rightarrow> (status_t \<times> pkt_struct \<times> hb_state) res" where
  "forward_ext2hih E s conn pkt =
     (case hih_back_handler (cn_hih conn) of
        None \<Rightarrow> Inr (NOK, pkt, s)
      | Some hp \<Rightarrow>
          rbind (get_handler s (Some hp)) (\<lambda>h.
          let pkt = pkt\<lparr>pkt_out := hd_iface h, pkt_destination := HIH\<rparr> in
          rbind (inside (pkt_flen pkt) (pkt_ip pkt + 20)) (\<lambda>_.
          rbind (get_iface s (pkt_out pkt)) (\<lambda>out.
          rbind (nonnull (hd_mac h)) (\<lambda>mac.
          rbind (nonnull (hd_ip h)) (\<lambda>ip.
          let pkt = put_daddr (put_dhost (put_shost pkt (if_mac out)) mac) ip in
          rbind (forward_ext2hih_l4 conn (forward_ext2hih_vlan (hd_vlan h) pkt)) (\<lambda>pkt.
          send_pkt E s (fix_ip_checksum pkt))))))))"

definition forward_hih2ext_l4 :: "conn_struct \<Rightarrow> pkt_struct \<Rightarrow> pkt_struct res" where
  "forward_hih2ext_l4 conn pkt =
     (let f = pkt_FRAME pkt; l4 = pkt_l4 pkt; proto = ip_protocol f (pkt_ip pkt) in
      if proto = IPPROTO_TCP then
        rbind (inside (pkt_flen pkt) (l4 + 8)) (\<lambda>_.
        let f = put16 f l4 (hih_port (cn_hih conn));
            f = put32 f (l4 + 4) (htonl (ntohl (tcp_seq f l4) + hih_delta (cn_hih conn)))
        in rbind (fix_tcp_timestamps f (pkt_flen pkt) l4 conn) (\<lambda>(_, f).
           fix_l4_checksum (pkt\<lparr>pkt_FRAME := f\<rparr>)))
      else if proto = IPPROTO_UDP then
        rbind (inside (pkt_flen pkt) (l4 + 2)) (\<lambda>_.
        fix_l4_checksum (pkt\<lparr>pkt_FRAME := put16 f l4 (hih_port (cn_hih conn))\<rparr>))
      else Inr pkt)"

definition forward_hih2ext ::
  "env \<Rightarrow> hb_state \<Rightarrow> conn_struct \<Rightarrow> pkt_struct \<Rightarrow> (status_t \<times> pkt_struct \<times> hb_state) res" where
  "forward_hih2ext E s conn pkt =
     rbind (get_target s (cn_target conn)) (\<lambda>t.
     (case tg_default_route t of
        None \<Rightarrow> Inr (NOK, pkt, s)
      | Some i \<Rightarrow>
          let pkt = pkt\<lparr>pkt_out := Some i, pkt_destination := EXT\<rparr> in
          rbind (inside (pkt_flen pkt) (pkt_ip pkt + 20)) (\<lambda>_.
          let pkt = put_saddr (put_dhost (put_shost pkt (cn_first_pkt_dst_mac conn))
                      (cn_first_pkt_src_mac conn)) (cn_first_pkt_dst_ip conn);
              pkt = (if is_vlan pkt then vlan_strip pkt else pkt) in
          rbind (forward_hih2ext_l4 conn pkt) (\<lambda>pkt.
          send_pkt E s (fix_ip_checksum pkt)))))"

section \<open>Reset (netcode.c, reply_reset)\<close>

text \<open>\<open>sizeof(struct tcp_packet)\<close> is 48: two headers and a pointer.\<close>

definition rst_eth :: "pkt_struct \<Rightarrow> (mem \<times> nat) res" where
  "rst_eth pkt =
     (let oh = pkt_original_headers pkt; frame = (\<lambda>_. 0) in
      case oh_vlan oh of
        Some v \<Rightarrow>
          Inr (put48 (put48 (memput frame 0 (memget v 0 VLAN_ETH_HLEN)) 6 (get48 v 0)) 0 (get48 v 6),
               VLAN_ETH_HLEN)
      | None \<Rightarrow>
          rbind (nonnull (oh_eth oh)) (\<lambda>e.
          Inr (put16 (put48 (put48 frame 6 (get48 e 0)) 0 (get48 e 6)) 12 (htons ETHERTYPE_IP),
               ETHER_HDR_LEN)))"

definition rst_ip :: "mem \<Rightarrow> mem \<Rightarrow> nat \<Rightarrow> mem" where
  "rst_ip frame oip b =
     (let frame = frame(b := 0x45);
          frame = put16 frame (b + 2) (ntohs 40);
          frame = put16 frame (b + 6) (ntohs 0x4000);
          frame = frame(b + 8 := 0x40, b + 9 := IPPROTO_TCP);
          frame = put32 frame (b + 12) (ip_daddr oip 0)
      in put32 frame (b + 16) (ip_saddr oip 0))"

definition rst_tcp :: "mem \<Rightarrow> mem \<Rightarrow> mem \<Rightarrow> nat \<Rightarrow> mem" where
  "rst_tcp frame oip otcp b =
     (let frame = put16 frame (b + 20) (l4_dest otcp 0);
          frame = put16 frame (b + 22) (l4_source otcp 0);
          frame = (if tcp_ack otcp 0 then put32 frame (b + 24) (tcp_ack_seq otcp 0) else frame);
          frame = put32 frame (b + 28)
            (htonl (ntohl (tcp_seq otcp 0) + of_bool (tcp_syn otcp 0) + of_bool (tcp_fin otcp 0)
                    + ucast (ntohs (ip_tot_len oip 0)) - of_nat (4 * ip_ihl oip 0)
                    - of_nat (4 * tcp_doff otcp 0)))
      in frame(b + 32 := 0x50, b + 33 := 0x14))"

definition reply_reset :: "env \<Rightarrow> hb_state \<Rightarrow> pkt_struct \<Rightarrow> ptr option \<Rightarrow> hb_state res" where
  "reply_reset E s pkt iface =
     (case iface of
        None \<Rightarrow> Inr s
      | Some i \<Rightarrow>
          rbind (rst_eth pkt) (\<lambda>(frame, b).
          rbind (nonnull (oh_ip (pkt_original_headers pkt))) (\<lambda>oip.
          rbind (nonnull (oh_tcp (pkt_original_headers pkt))) (\<lambda>otcp.
          rbind (set_tcp_checksum (rst_tcp (rst_ip frame oip b) oip otcp b) 66 b) (\<lambda>frame.
          rbind (get_iface s (Some i)) (\<lambda>_.
          Inr (snd (pcap_inject E s i (memget (set_ip_checksum frame b) 0 (b + 48))))))))))"

text \<open>The reset of the LIH answers the last buffered packet, when one of them came from the LIH.\<close>

definition reset_lih :: "env \<Rightarrow> hb_state \<Rightarrow> conn_struct \<Rightarrow> hb_state res" where
  "reset_lih E s conn =
     (if cn_protocol conn \<noteq> IPPROTO_TCP then Inr s
      else if \<exists>p \<in> set (cn_BUFFER conn). pkt_origin p = LIH then
        rbind (conn_front_handler s conn) (\<lambda>h. reply_reset E s (last (cn_BUFFER conn)) (hd_iface h))
      else Inr s)"

section \<open>Answering ARP (netcode.c, send_arp_reply)\<close>

text \<open>\<open>struct ether_arp\<close> is 28 bytes: operation at 6, sender at 8 and 14, target at 18 and 24.\<close>

definition arp_reply :: "u16 \<Rightarrow> mac_t \<Rightarrow> mem \<Rightarrow> nat \<Rightarrow> mem" where
  "arp_reply ethertype mac packet arp =
     (let frame = put16 (\<lambda>_. 0) 12 (htons (if ethertype = ETHERTYPE_ARP then ETHERTYPE_ARP else ETHERTYPE_VLAN));
          frame = (if ethertype = ETHERTYPE_ARP then frame
                   else memput frame ETHER_HDR_LEN (memget packet ETHER_HDR_LEN VLAN_HLEN));
          frame = put48 frame 6 mac;
          frame = put48 frame 0 (get48 packet (arp + 8));
          frame = put16 frame arp (htons 1);
          frame = put16 frame (arp + 2) (htons 0x0800);
          frame = frame(arp + 4 := 6, arp + 5 := 4);
          frame = put16 frame (arp + 6) (htons 2);
          frame = put48 frame (arp + 8) mac;
          frame = put32 frame (arp + 14) (get32 packet (arp + 24))
      in put32 frame (arp + 24) (get32 packet (arp + 14)))"

definition send_arp_reply :: "env \<Rightarrow> hb_state \<Rightarrow> u16 \<Rightarrow> ptr \<Rightarrow> mem \<Rightarrow> nat \<Rightarrow> hb_state res" where
  "send_arp_reply E s ethertype iface packet caplen =
     (let arp = (if ethertype = ETHERTYPE_ARP then ETHER_HDR_LEN else VLAN_ETH_HLEN) in
      rbind (inside caplen (arp + 8)) (\<lambda>_.
      if get16 packet (arp + 6) = htons 1 then
        rbind (get_iface s (Some iface)) (\<lambda>i.
        rbind (inside caplen (arp + 28)) (\<lambda>_.
        Inr (snd (pcap_inject E s iface
          (memget (arp_reply ethertype (if_mac i) packet arp) 0 (arp + 28))))))
      else Inr s))"

section \<open>Fragmentation needed (netcode.c, send_icmp_frag_needed)\<close>

text \<open>
  The frame holds a link header, an IP header, the ICMP message and the first
  bytes of the packet, \<open>psize\<close> bytes in all; the checksum of the message is
  taken over \<open>psize\<close> bytes from its start.
\<close>

definition icmp_frame :: "env \<Rightarrow> pkt_struct \<Rightarrow> interface \<Rightarrow> mem \<Rightarrow> nat \<Rightarrow> nat \<Rightarrow> mem" where
  "icmp_frame E pkt inif oip b psize =
     (let f = pkt_FRAME pkt;
          frame = put16 (\<lambda>_. 0) 12 (htons (if b = ETHER_HDR_LEN then ETHERTYPE_IP else ETHERTYPE_VLAN));
          frame = (if b = ETHER_HDR_LEN then frame
                   else memput frame ETHER_HDR_LEN (memget f (pkt_eth pkt + ETHER_HDR_LEN) VLAN_HLEN));
          frame = put48 frame 6 (if_mac inif);
          frame = put48 frame 0 (ether_shost f (pkt_eth pkt));
          frame = frame(b := 0x45);
          frame = put16 frame (b + 2) (ntohs (of_nat psize));
          frame = put16 frame (b + 6) (ntohs 0x4000);
          frame = frame(b + 8 := 0x40, b + 9 := IPPROTO_TCP);
          frame = put32 frame (b + 12) (ip_daddr oip 0);
          frame = put32 frame (b + 16) (ip_saddr oip 0)
      in ev_needfrag_pack E frame (b + 20) (if_mtu inif) (memget f (pkt_ip pkt) 28))"

definition send_icmp_frag_needed :: "env \<Rightarrow> hb_state \<Rightarrow> pkt_struct \<Rightarrow> hb_state res" where
  "send_icmp_frag_needed E s pkt =
     (let vlan = ether_type (pkt_FRAME pkt) (pkt_eth pkt) \<noteq> htons ETHERTYPE_IP;
          b = (if vlan then VLAN_ETH_HLEN else ETHER_HDR_LEN);
          psize = b + 40 + ev_needfrag_len E + 8 in
      rbind (get_iface s (Some (pkt_in pkt))) (\<lambda>inif.
      rbind (nonnull (oh_ip (pkt_original_headers pkt))) (\<lambda>oip.
      rbind (inside (pkt_flen pkt) (pkt_ip pkt + 28)) (\<lambda>_.
      let frame = put16 (icmp_frame E pkt inif oip b psize) (b + 22) 0 in
      rbind (inside psize (b + 20 + psize)) (\<lambda>_.
      let frame = put16 frame (b + 22) (in_cksum frame (b + 20) psize);
          frame = set_ip_checksum frame b in
      Inr (snd (pcap_inject E s (pkt_in pkt) (memget frame 0 psize))))))))"

end
