(* ===== verification/Nat_Rewrite.thy ===== *)
theory Nat_Rewrite
  imports Netcode
begin

text \<open>
  What the rewriting of \<open>Netcode\<close> does to a frame: the VLAN operations keep the
  addresses of the link header and the end of the packet; the translation
  replaces one IP address, the link addresses and the checksums and nothing
  else, the checksums verify, and it faults only where a TCP packet claims less
  than a header.  The forwarding functions shift the sequence numbers of the
  HIH by the connection's delta and the acknowledgements back.
\<close>

lemma get_move [mem_simps]:
  "k + 2 \<le> n \<Longrightarrow> get16 (memput f d (memget g e n)) (d + k) = get16 g (e + k)"
  "k + 6 \<le> n \<Longrightarrow> get48 (memput f d (memget g e n)) (d + k) = get48 g (e + k)"
  by (simp_all add: get48_def get32_def get16_def memput_def numeral_eq_Suc)

text \<open>A packet without its frame, the frame's start and the size.\<close>

definition pkt_rest :: "pkt_struct \<Rightarrow> pkt_struct" where
  "pkt_rest p = p\<lparr>pkt_FRAME := (\<lambda>_. 0), pkt_eth := 0, pkt_size := 0\<rparr>"

lemma pkt_rest_fields:
  "pkt_flen (pkt_rest p) = pkt_flen p" "pkt_ip (pkt_rest p) = pkt_ip p" "pkt_l4 (pkt_rest p) = pkt_l4 p"
  "pkt_origin (pkt_rest p) = pkt_origin p" "pkt_destination (pkt_rest p) = pkt_destination p"
  "pkt_nat (pkt_rest p) = pkt_nat p" "pkt_out (pkt_rest p) = pkt_out p" "pkt_in (pkt_rest p) = pkt_in p"
  "pkt_original_headers (pkt_rest p) = pkt_original_headers p" "pkt_payload (pkt_rest p) = pkt_payload p"
  "pkt_data (pkt_rest p) = pkt_data p" "pkt_DE (pkt_rest p) = pkt_DE p" "pkt_conn (pkt_rest p) = pkt_conn p"
  by (simp_all add: pkt_rest_def)

text \<open>What the link-level rewriting leaves alone: everything but the frame's first 18 bytes,
  the start of the frame and its size.\<close>

definition link_only :: "pkt_struct \<Rightarrow> pkt_struct \<Rightarrow> bool" where
  "link_only p q \<longleftrightarrow> (\<forall>i \<ge> 18. pkt_FRAME q i = pkt_FRAME p i) \<and>
     pkt_rest q = pkt_rest p"

lemma vlan_add_link: "link_only p (vlan_add p t)"
  by (auto simp: link_only_def pkt_rest_def vlan_add_def Let_def mem_simps)

lemma vlan_strip_link: "link_only p (vlan_strip p)"
  by (auto simp: link_only_def pkt_rest_def vlan_strip_def Let_def mem_simps)

lemma put_host_link: "pkt_eth p \<le> 4 \<Longrightarrow> link_only p (put_shost p m)" "pkt_eth p \<le> 4 \<Longrightarrow> link_only p (put_dhost p m)"
  by (auto simp: link_only_def pkt_rest_def put_shost_def put_dhost_def mem_simps)

lemma vlan_retag_link: "pkt_eth p \<le> 2 \<or> \<not> is_vlan p \<Longrightarrow> link_only p (vlan_retag p t)"
  using vlan_add_link [of p t]
  by (auto simp: link_only_def pkt_rest_def vlan_retag_def mem_simps)

lemma get_cong18:
  assumes "\<forall>i \<ge> 18. g i = f i" and "18 \<le> off"
  shows "get16 g off = get16 f off" "get32 g off = get32 f off" "ip_ihl g off = ip_ihl f off"
    "ip_tot_len g off = ip_tot_len f off" "tcp_doff g off = tcp_doff f off" "g off = f off"
  using assms by (auto intro!: get_cong simp: ip_ihl_def ip_tot_len_def tcp_doff_def)

text \<open>The well-formed link header of a packet, and what the VLAN operations do to it.\<close>

definition link_wf :: "pkt_struct \<Rightarrow> bool" where
  "link_wf p \<longleftrightarrow>
     pkt_eth p = 4 \<and> ether_type (pkt_FRAME p) 4 = htons ETHERTYPE_IP \<or>
     pkt_eth p = 0 \<and> ether_type (pkt_FRAME p) 0 = htons ETHERTYPE_VLAN"

lemma ethertype_distinct: "ntohs (0x0800 :: u16) \<noteq> ntohs 0x8100" "ntohs (0x8100 :: u16) \<noteq> ntohs 0x0800"
  by simp_all

lemma is_vlan_iff: "link_wf p \<Longrightarrow> is_vlan p \<longleftrightarrow> pkt_eth p = 0"
  by (auto simp: link_wf_def is_vlan_def ethertype_distinct)

text \<open>The addresses on the link, wherever the header starts, and the distance from its start to
  the end of the packet.\<close>

definition link_dst :: "pkt_struct \<Rightarrow> mac_t" where "link_dst p = ether_dhost (pkt_FRAME p) (pkt_eth p)"
definition link_src :: "pkt_struct \<Rightarrow> mac_t" where "link_src p = ether_shost (pkt_FRAME p) (pkt_eth p)"
definition pkt_end :: "pkt_struct \<Rightarrow> nat" where "pkt_end p = pkt_eth p + unat (pkt_size p)"

lemma vlan_add_effect:
  assumes "link_wf p" "\<not> is_vlan p" "pkt_end p < 2 ^ 31"
  shows "link_wf (vlan_add p t)" "link_dst (vlan_add p t) = link_dst p" "link_src (vlan_add p t) = link_src p"
    "pkt_end (vlan_add p t) = pkt_end p" "h_vlan_TCI (pkt_FRAME (vlan_add p t)) 0 = t"
    "pkt_eth (vlan_add p t) = 0"
proof -
  have e: "pkt_eth p = 4" using assms(1,2) is_vlan_iff [of p] by (auto simp: link_wf_def)
  show "link_wf (vlan_add p t)" by (simp add: link_wf_def vlan_add_def Let_def mem_simps)
  show "link_dst (vlan_add p t) = link_dst p"
    using get_move(2) [of 0 14 "pkt_FRAME p" 0 "pkt_FRAME p" 4]
    by (simp add: link_dst_def vlan_add_def Let_def mem_simps e)
  show "link_src (vlan_add p t) = link_src p"
    using get_move(2) [of 6 14 "pkt_FRAME p" 0 "pkt_FRAME p" 4]
    by (simp add: link_src_def vlan_add_def Let_def mem_simps e)
  show "pkt_end (vlan_add p t) = pkt_end p"
  proof -
    have "unat (pkt_size p + 4) = unat (pkt_size p) + 4"
      using assms(3) by (subst unat_add_lem [THEN iffD1]) (simp_all add: pkt_end_def)
    then show ?thesis by (simp add: pkt_end_def vlan_add_def Let_def e)
  qed
  show "h_vlan_TCI (pkt_FRAME (vlan_add p t)) 0 = t" "pkt_eth (vlan_add p t) = 0"
    by (simp_all add: vlan_add_def Let_def mem_simps)
qed

lemma vlan_strip_effect:
  assumes "link_wf p" "is_vlan p" "4 \<le> unat (pkt_size p)"
  shows "link_wf (vlan_strip p)" "link_dst (vlan_strip p) = link_dst p" "link_src (vlan_strip p) = link_src p"
    "pkt_end (vlan_strip p) = pkt_end p" "\<not> is_vlan (vlan_strip p)" "pkt_eth (vlan_strip p) = 4"
proof -
  have e: "pkt_eth p = 0" using assms(1,2) is_vlan_iff [of p] by (auto simp: link_wf_def)
  have t: "ether_type (pkt_FRAME (vlan_strip p)) 4 = htons ETHERTYPE_IP" "pkt_eth (vlan_strip p) = 4"
    by (simp_all add: vlan_strip_def Let_def mem_simps)
  then show "link_wf (vlan_strip p)" "\<not> is_vlan (vlan_strip p)" "pkt_eth (vlan_strip p) = 4"
    by (simp_all add: link_wf_def is_vlan_def)
  show "link_dst (vlan_strip p) = link_dst p"
    using get_move(2) [of 0 14 "pkt_FRAME p" 4 "pkt_FRAME p" 0]
    by (simp add: link_dst_def vlan_strip_def Let_def mem_simps e)
  show "link_src (vlan_strip p) = link_src p"
    using get_move(2) [of 6 14 "pkt_FRAME p" 4 "pkt_FRAME p" 0]
    by (simp add: link_src_def vlan_strip_def Let_def mem_simps e)
  have "unat (pkt_size p - 4) = unat (pkt_size p) - 4"
    using assms(3) by (subst unat_sub) (simp_all add: word_le_nat_alt)
  then show "pkt_end (vlan_strip p) = pkt_end p"
    using assms(3) by (simp add: pkt_end_def vlan_strip_def Let_def e)
qed

lemma put_host_effect:
  assumes "link_wf p"
  shows "link_wf (put_shost p m)" "link_wf (put_dhost p m)"
    "link_src (put_shost p m) = m" "link_dst (put_shost p m) = link_dst p"
    "link_src (put_dhost p m) = link_src p" "link_dst (put_dhost p m) = m"
    "pkt_end (put_shost p m) = pkt_end p" "pkt_end (put_dhost p m) = pkt_end p"
    "pkt_eth (put_shost p m) = pkt_eth p" "pkt_eth (put_dhost p m) = pkt_eth p"
  using assms
  by (auto simp: link_wf_def link_src_def link_dst_def pkt_end_def put_shost_def put_dhost_def mem_simps)

lemma put_addr_effect:
  assumes "link_wf p" "pkt_ip p = 18"
  shows "link_wf (put_saddr p a)" "link_wf (put_daddr p a)"
    "link_src (put_saddr p a) = link_src p" "link_dst (put_saddr p a) = link_dst p"
    "link_src (put_daddr p a) = link_src p" "link_dst (put_daddr p a) = link_dst p"
    "pkt_end (put_saddr p a) = pkt_end p" "pkt_end (put_daddr p a) = pkt_end p"
    "pkt_eth (put_saddr p a) = pkt_eth p" "pkt_eth (put_daddr p a) = pkt_eth p"
    "is_vlan (put_saddr p a) = is_vlan p" "is_vlan (put_daddr p a) = is_vlan p"
  using assms
  by (auto simp: link_wf_def link_src_def link_dst_def pkt_end_def put_saddr_def put_daddr_def
      is_vlan_def mem_simps)

text \<open>The relation between a packet and its rewriting: the link header stays well-formed, the
  packet ends where it ended, and from the IP header on only the bytes of \<open>W\<close> may differ.\<close>

definition pkt_rewr :: "nat set \<Rightarrow> pkt_struct \<Rightarrow> pkt_struct \<Rightarrow> bool" where
  "pkt_rewr W p q \<longleftrightarrow> link_wf q \<and> pkt_end q = pkt_end p \<and>
     (\<forall>i \<ge> 18. i \<notin> W \<longrightarrow> pkt_FRAME q i = pkt_FRAME p i) \<and> pkt_rest q = pkt_rest p"

lemma pkt_rewr_fields:
  assumes "pkt_rewr W p q"
  shows "pkt_flen q = pkt_flen p" "pkt_ip q = pkt_ip p" "pkt_l4 q = pkt_l4 p" "pkt_origin q = pkt_origin p"
    "pkt_destination q = pkt_destination p" "pkt_nat q = pkt_nat p" "pkt_out q = pkt_out p"
    "pkt_in q = pkt_in p" "pkt_original_headers q = pkt_original_headers p" "pkt_payload q = pkt_payload p"
    "pkt_data q = pkt_data p" "pkt_DE q = pkt_DE p" "pkt_conn q = pkt_conn p"
proof -
  from assms have e: "pkt_rest q = pkt_rest p" by (simp add: pkt_rewr_def)
  from pkt_rest_fields [of q, unfolded e pkt_rest_fields]
  show "pkt_flen q = pkt_flen p" "pkt_ip q = pkt_ip p" "pkt_l4 q = pkt_l4 p" "pkt_origin q = pkt_origin p"
    "pkt_destination q = pkt_destination p" "pkt_nat q = pkt_nat p" "pkt_out q = pkt_out p"
    "pkt_in q = pkt_in p" "pkt_original_headers q = pkt_original_headers p" "pkt_payload q = pkt_payload p"
    "pkt_data q = pkt_data p" "pkt_DE q = pkt_DE p" "pkt_conn q = pkt_conn p"
    by simp_all
qed

lemma pkt_rewr_refl: "link_wf p \<Longrightarrow> pkt_rewr W p p"
  by (simp add: pkt_rewr_def)

lemma pkt_rewr_trans: "pkt_rewr W p q \<Longrightarrow> pkt_rewr W' q r \<Longrightarrow> pkt_rewr (W \<union> W') p r"
  unfolding pkt_rewr_def by auto

lemma pkt_rewr_mono: "pkt_rewr W p q \<Longrightarrow> W \<subseteq> W' \<Longrightarrow> pkt_rewr W' p q"
  unfolding pkt_rewr_def by auto

lemma pkt_rewr_link: "link_only p q \<Longrightarrow> link_wf q \<Longrightarrow> pkt_end q = pkt_end p \<Longrightarrow> pkt_rewr {} p q"
  unfolding pkt_rewr_def link_only_def by simp

text \<open>A rewriting that keeps the addresses of the link header.\<close>

definition relink :: "nat set \<Rightarrow> pkt_struct \<Rightarrow> pkt_struct \<Rightarrow> bool" where
  "relink W p q \<longleftrightarrow> pkt_rewr W p q \<and> link_src q = link_src p \<and> link_dst q = link_dst p"

lemma relink_trans: "relink W p q \<Longrightarrow> relink W' q r \<Longrightarrow> relink (W \<union> W') p r"
  by (auto simp: relink_def intro: pkt_rewr_trans)

lemma relink_frame:
  assumes "link_wf p" "\<And>i. i < 18 \<Longrightarrow> f i = pkt_FRAME p i"
    "\<And>i. 18 \<le> i \<Longrightarrow> i \<notin> W \<Longrightarrow> f i = pkt_FRAME p i"
  shows "relink W p (p\<lparr>pkt_FRAME := f\<rparr>)"
proof -
  have g: "get16 f (k + 12) = ether_type (pkt_FRAME p) k" "get48 f (k + 6) = get48 (pkt_FRAME p) (k + 6)"
    "get48 f k = get48 (pkt_FRAME p) k" if "k \<le> 4" for k
    using assms(2) that by (auto intro!: get_cong)
  have e: "pkt_eth p \<le> 4" using assms(1) by (auto simp: link_wf_def)
  have "link_wf (p\<lparr>pkt_FRAME := f\<rparr>)"
    using assms(1) g(1) [of 0] g(1) [of 4] by (auto simp: link_wf_def)
  with assms g(2,3) [OF e] show ?thesis
    by (simp add: relink_def pkt_rewr_def pkt_end_def pkt_rest_def link_src_def link_dst_def)
qed

lemma relink_refl: "link_wf p \<Longrightarrow> relink {} p p"
  by (simp add: relink_def pkt_rewr_refl)

lemma relink_add: "link_wf p \<Longrightarrow> \<not> is_vlan p \<Longrightarrow> pkt_end p < 2 ^ 31 \<Longrightarrow> relink {} p (vlan_add p t)"
  using vlan_add_effect [of p t] vlan_add_link [of p t] by (simp add: relink_def pkt_rewr_link)

lemma relink_strip:
  "link_wf p \<Longrightarrow> 4 \<le> unat (pkt_size p) \<Longrightarrow> relink {} p (if is_vlan p then vlan_strip p else p)"
  using vlan_strip_effect [of p] vlan_strip_link [of p] relink_refl [of p]
  by (simp add: relink_def pkt_rewr_link)

lemma relink_retag:
  assumes "link_wf p" "pkt_end p < 2 ^ 31"
  shows "relink {} p (vlan_retag p t)"
proof (cases "vlan_vid t \<noteq> 0 \<and> is_vlan p")
  case True
  let ?q = "p\<lparr>pkt_FRAME := put16 (pkt_FRAME p) 14 t\<rparr>"
  have e: "pkt_eth p = 0" using True assms(1) is_vlan_iff by simp
  have "pkt_rewr {} p ?q" using e True assms(1)
    by (auto simp: pkt_rewr_def link_wf_def pkt_end_def pkt_rest_def mem_simps)
  moreover have "link_src ?q = link_src p" "link_dst ?q = link_dst p"
    by (simp_all add: link_src_def link_dst_def e mem_simps)
  ultimately show ?thesis using True e by (simp add: vlan_retag_def relink_def)
next
  case False
  with relink_add [OF assms(1) _ assms(2), of t] relink_refl [OF assms(1)] show ?thesis
    by (auto simp: vlan_retag_def)
qed

definition ADDRS :: "nat set" where "ADDRS = {30..<38}"

lemma put_addr_rewr:
  assumes "link_wf p" "pkt_ip p = 18"
  shows "relink ADDRS p (put_saddr p a)" "relink ADDRS p (put_daddr p a)"
  unfolding put_saddr_def put_daddr_def
  by (rule relink_frame [OF assms(1)]; use assms(2) in \<open>auto simp: ADDRS_def mem_simps\<close>)+

lemma put_host_rewr:
  assumes "link_wf p"
  shows "pkt_rewr {} p (put_shost p m)" "pkt_rewr {} p (put_dhost p m)"
  using put_host_link [of p m] put_host_effect [OF assms, of m] assms
  by (auto simp: link_wf_def intro!: pkt_rewr_link)

lemma size_ge4: "link_wf p \<Longrightarrow> 18 \<le> pkt_end p \<Longrightarrow> 4 \<le> unat (pkt_size p)"
  by (auto simp: link_wf_def pkt_end_def)

lemma relink_any:
  assumes "link_wf p" "18 \<le> pkt_end p" "pkt_end p < 2 ^ 31"
  shows "relink {} p (if is_vlan p then vlan_strip p else p)" "relink {} p (vlan_retag p t)"
    "\<not> is_vlan p \<Longrightarrow> relink {} p (vlan_add p t)" "relink {} p p" "is_vlan p \<Longrightarrow> relink {} p (vlan_strip p)"
  using relink_strip [OF assms(1) size_ge4 [OF assms(1,2)]] relink_retag [OF assms(1,3)]
    relink_add [OF assms(1) _ assms(3)] relink_refl [OF assms(1)]
  by (auto split: if_splits)

text \<open>Which address of the IP header the translation replaces, and by what.\<close>

definition dnat :: "pkt_struct \<Rightarrow> bool" where
  "dnat p \<longleftrightarrow> pkt_origin p = EXT \<or> pkt_destination p = INTRA"

definition snat :: "pkt_struct \<Rightarrow> bool" where
  "snat p \<longleftrightarrow> pkt_origin p \<noteq> EXT \<and> (pkt_destination p = EXT \<or> pkt_destination p = HIH)"

lemma nat_addrs_steps:
  assumes n: "nat_addrs s p = Inr (True, q)" and wf: "link_wf p" "pkt_ip p = 18"
    and e: "18 \<le> pkt_end p" "pkt_end p < 2 ^ 31" and v: "pkt_origin p = EXT \<Longrightarrow> \<not> is_vlan p"
  obtains out mac p1 p2 a where "get_iface s (pkt_out p) = Inr out" "nat_dst_mac (pkt_nat p) = Some mac"
    "p1 = put_dhost (put_shost p (if_mac out)) mac" "relink {} p2 q"
    "dnat p \<and> nat_dst_ip (pkt_nat p) = Some a \<and> p2 = put_daddr p1 a \<or>
     snat p \<and> nat_src_ip (pkt_nat p) = Some a \<and> p2 = put_saddr p1 a"
proof -
  from n obtain out mac where om: "get_iface s (pkt_out p) = Inr out" "nat_dst_mac (pkt_nat p) = Some mac"
    by (auto simp: nat_addrs_def Let_def rbind_simps put_shost_def)
  define p1 where "p1 = put_dhost (put_shost p (if_mac out)) mac"
  note h1 = put_host_effect [OF wf(1), of "if_mac out"]
  note h2 = put_host_effect [OF h1(1), of mac]
  have p1: "link_wf p1" "pkt_ip p1 = 18" "pkt_end p1 = pkt_end p" "pkt_eth p1 = pkt_eth p"
      "pkt_nat p1 = pkt_nat p" "pkt_origin p1 = pkt_origin p" "pkt_destination p1 = pkt_destination p"
    using h1 h2 wf by (simp_all add: p1_def) (simp_all add: put_dhost_def put_shost_def)
  have v1: "is_vlan p1 = is_vlan p" using is_vlan_iff [OF p1(1)] is_vlan_iff [OF wf(1)] p1(4) by simp
  note st = relink_any [of "put_saddr p1 a" for a] relink_any [of "put_daddr p1 a" for a]
  have "pkt_nat (put_shost p (if_mac out)) = pkt_nat p" by (simp add: put_shost_def)
  then have "\<exists>p2 a. relink {} p2 q \<and> (dnat p \<and> nat_dst_ip (pkt_nat p) = Some a \<and> p2 = put_daddr p1 a \<or>
      snat p \<and> nat_src_ip (pkt_nat p) = Some a \<and> p2 = put_saddr p1 a)"
    using n om v v1 p1 e unfolding nat_addrs_def Let_def
    by (auto simp: rbind_simps p1_def [symmetric] put_addr_effect st dnat_def snat_def
          split: role_t.splits option.splits if_splits)
  with that [OF om p1_def] show thesis by blast
qed

lemma nat_addrs_flag: "nat_addrs s p = Inr (b, q) \<Longrightarrow> b \<longleftrightarrow> dnat p \<or> snat p"
  by (cases "pkt_origin p"; cases "pkt_destination p")
    (auto simp: nat_addrs_def Let_def rbind_simps dnat_def snat_def put_shost_def put_dhost_def)

lemma pkt_wf_link:
  assumes "pkt_wf p"
  shows "link_wf p" "pkt_ip p = 18" "pkt_end p = 18 + unat (ntohs (ip_tot_len (pkt_FRAME p) 18))"
    "18 \<le> pkt_end p" "pkt_end p < 2 ^ 31"
proof -
  show l: "link_wf p" "pkt_ip p = 18" using assms by (simp_all add: pkt_wf_def link_wf_def Let_def)
  show e: "pkt_end p = 18 + unat (ntohs (ip_tot_len (pkt_FRAME p) 18))"
    using assms by (auto simp: pkt_wf_def pkt_end_def Let_def)
  show "18 \<le> pkt_end p" "pkt_end p < 2 ^ 31"
    using e unat_bounds(2) [of "ntohs (ip_tot_len (pkt_FRAME p) 18)"] by simp_all
qed

text \<open>Where the program writes checksums: TCP at 36 and UDP at 26 from the IP header, IP at 10.  The first is the checksum field of the TCP or UDP header only when the
  IP header has no options; with options it is a part of the transport header before it.\<close>

definition L4SUM :: "pkt_struct \<Rightarrow> nat set" where
  "L4SUM p = (if ip_protocol (pkt_FRAME p) 18 = IPPROTO_TCP then {54, 55} else {44, 45})"

definition IPSUM :: "nat set" where "IPSUM = {28, 29}"

lemma put16_other: "i \<noteq> off \<Longrightarrow> i \<noteq> Suc off \<Longrightarrow> put16 f off v i = f i"
  by (auto simp: put16_def memput_def)

lemma set_tcp_checksum_out:
  assumes "set_tcp_checksum f flen hdr = Inr f'" and "i \<notin> {hdr + 36, hdr + 37}"
  shows "f' i = f i"
proof -
  from assms(1) obtain c where "f' = put16 (put16 f (hdr + 36) (htons 0)) (hdr + 36) c"
    by (auto simp: set_tcp_checksum_def Let_def rbind_simps)
  with assms(2) show ?thesis by (simp add: put16_other)
qed

lemma fix_l4_checksum_rewr:
  assumes "fix_l4_checksum p = Inr q" "link_wf p" "pkt_ip p = 18"
  shows "relink (L4SUM p) p q"
proof (cases "ip_protocol (pkt_FRAME p) 18 = IPPROTO_TCP")
  case True
  with assms obtain f where f: "set_tcp_checksum (pkt_FRAME p) (pkt_flen p) 18 = Inr f" "q = p\<lparr>pkt_FRAME := f\<rparr>"
    by (auto simp: fix_l4_checksum_def rbind_simps)
  show ?thesis unfolding f(2)
    by (rule relink_frame [OF assms(2)]; rule set_tcp_checksum_out [OF f(1)]; use True in \<open>auto simp: L4SUM_def\<close>)
next
  case False
  with assms have q: "q = p\<lparr>pkt_FRAME := set_udp_checksum (pkt_FRAME p) 18\<rparr>"
    by (auto simp: fix_l4_checksum_def rbind_simps)
  show ?thesis unfolding q
    by (rule relink_frame [OF assms(2)]; use False in \<open>auto simp: L4SUM_def set_udp_checksum_def put16_other\<close>)
qed

lemma fix_ip_checksum_rewr:
  assumes "link_wf p" "pkt_ip p = 18"
  shows "relink IPSUM p (fix_ip_checksum p)"
  unfolding fix_ip_checksum_def
  by (rule relink_frame [OF assms(1)]; use assms(2) in \<open>auto simp: IPSUM_def set_ip_checksum_def Let_def put16_other\<close>)

text \<open>The IP checksum is outside what the TCP checksum sums.\<close>

lemma tcp_checksum_ipsum: "tcp_checksum (put16 f (hdr + 10) v) flen hdr = tcp_checksum f flen hdr"
proof -
  let ?f = "put16 f (hdr + 10) v"
  have h: "HDRDATA_SIZE ?f hdr = HDRDATA_SIZE f hdr" by (rule HDRDATA_put) simp
  have "memget ?f (hdr + 20) n = memget f (hdr + 20) n" "memget ?f (hdr + 40) n = memget f (hdr + 40) n" for n
    unfolding put16_def by (rule memget_put_other; simp)+
  then have "tcp_chk_packet ?f hdr = tcp_chk_packet f hdr"
    by (simp add: tcp_chk_packet_def h mem_simps)
  then show ?thesis by (simp add: tcp_checksum_def h)
qed

lemma sums_verify:
  assumes "fix_l4_checksum p = Inr q" "pkt_ip p = 18" "r = fix_ip_checksum q"
  shows "in_cksum (pkt_FRAME r) 18 20 = 0"
    "ip_protocol (pkt_FRAME p) 18 = IPPROTO_TCP \<Longrightarrow> tcp_checksum (pkt_FRAME r) (pkt_flen r) 18 = Inr 0"
proof -
  have ip: "pkt_ip q = 18" "pkt_flen q = pkt_flen p"
    using assms(1,2) by (auto simp: fix_l4_checksum_def rbind_simps split: if_splits)
  show "in_cksum (pkt_FRAME r) 18 20 = 0"
    using set_ip_checksum_verifies [of "pkt_FRAME q" 18] ip by (simp add: assms(3) fix_ip_checksum_def)
  assume "ip_protocol (pkt_FRAME p) 18 = IPPROTO_TCP"
  with assms(1,2) have "set_tcp_checksum (pkt_FRAME p) (pkt_flen p) 18 = Inr (pkt_FRAME q)"
    by (auto simp: fix_l4_checksum_def rbind_simps)
  from set_tcp_checksum_verifies [OF this] show "tcp_checksum (pkt_FRAME r) (pkt_flen r) 18 = Inr 0"
    using ip tcp_checksum_ipsum [of _ 18, simplified] by (simp add: assms(3) fix_ip_checksum_def set_ip_checksum_def Let_def)
qed

lemma rewr_get:
  assumes "pkt_rewr W p q" "18 \<le> off"
  shows "off \<notin> W \<Longrightarrow> Suc off \<notin> W \<Longrightarrow> get16 (pkt_FRAME q) off = get16 (pkt_FRAME p) off"
    "off \<notin> W \<Longrightarrow> Suc off \<notin> W \<Longrightarrow> off + 2 \<notin> W \<Longrightarrow> off + 3 \<notin> W \<Longrightarrow>
       get32 (pkt_FRAME q) off = get32 (pkt_FRAME p) off"
    "off \<notin> W \<Longrightarrow> pkt_FRAME q off = pkt_FRAME p off"
proof -
  have i: "pkt_FRAME q i = pkt_FRAME p i" if "18 \<le> i" "i \<notin> W" for i
    using assms(1) that by (auto simp: pkt_rewr_def)
  show "get16 (pkt_FRAME q) off = get16 (pkt_FRAME p) off" if "off \<notin> W" "Suc off \<notin> W"
    using i assms(2) that by (simp add: get16_def)
  show "get32 (pkt_FRAME q) off = get32 (pkt_FRAME p) off"
    if "off \<notin> W" "Suc off \<notin> W" "off + 2 \<notin> W" "off + 3 \<notin> W"
    using i [of off] i [of "off + 1"] i [of "off + 2"] i [of "off + 3"] assms(2) that
    by (simp add: get32_def get16_def numeral_3_eq_3)
  show "pkt_FRAME q off = pkt_FRAME p off" if "off \<notin> W" using i assms(2) that by simp
qed

text \<open>A packet with a plain IP header stays well-formed when the bytes that describe it stay.\<close>

lemma pkt_wf_rewr:
  assumes wf: "pkt_wf p" "ip_ihl (pkt_FRAME p) 18 = 5" and r: "pkt_rewr W p q"
    and W: "18 \<notin> W" "20 \<notin> W" "21 \<notin> W" "27 \<notin> W" "50 \<notin> W"
  shows "pkt_wf q" "ip_ihl (pkt_FRAME q) 18 = 5"
proof -
  note g = rewr_get [OF r]
  have b: "ip_ihl (pkt_FRAME q) 18 = 5" "ip_tot_len (pkt_FRAME q) 18 = ip_tot_len (pkt_FRAME p) 18"
    "ip_protocol (pkt_FRAME q) 18 = ip_protocol (pkt_FRAME p) 18"
    using g(3) [of 18] g(1) [of 20] g(3) [of 27] W wf(2)
    by (simp_all add: ip_ihl_def ip_tot_len_def)
  have d: "tcp_doff (pkt_FRAME q) 38 = tcp_doff (pkt_FRAME p) 38"
    using g(3) [of 50] W by (simp add: tcp_doff_def)
  have l: "link_wf q" "pkt_end q = pkt_end p" using r by (simp_all add: pkt_rewr_def)
  have "unat (pkt_size q) = 18 - pkt_eth q + unat (ntohs (ip_tot_len (pkt_FRAME q) 18))"
    using l pkt_wf_link(3) [OF wf(1)] b(2) by (auto simp: pkt_end_def link_wf_def)
  then show "pkt_wf q" using wf l(1) b d pkt_rewr_fields [OF r]
    by (auto simp: pkt_wf_def link_wf_def Let_def)
  show "ip_ihl (pkt_FRAME q) 18 = 5" by (rule b(1))
qed

text \<open>The bytes \<open>nat\<close> writes beyond the link header.\<close>

definition NATBYTES :: "pkt_struct \<Rightarrow> nat set" where
  "NATBYTES p = ADDRS \<union> L4SUM p \<union> IPSUM"

lemma put_addr_get:
  assumes "pkt_ip p = 18"
  shows "ip_saddr (pkt_FRAME (put_saddr p a)) 18 = a" "ip_daddr (pkt_FRAME (put_daddr p a)) 18 = a"
    "ip_daddr (pkt_FRAME (put_saddr p a)) 18 = ip_daddr (pkt_FRAME p) 18"
    "ip_saddr (pkt_FRAME (put_daddr p a)) 18 = ip_saddr (pkt_FRAME p) 18"
  using assms by (simp_all add: put_saddr_def put_daddr_def mem_simps)

lemma nat_pkt_effect:
  assumes n: "nat_pkt s p = Inr q" and wf: "pkt_wf p" and d: "dnat p \<or> snat p"
    and v: "pkt_origin p = EXT \<Longrightarrow> \<not> is_vlan p"
  obtains out mac where "get_iface s (pkt_out p) = Inr out" "nat_dst_mac (pkt_nat p) = Some mac"
    "pkt_rewr (NATBYTES p) p q" "link_src q = if_mac out" "link_dst q = mac"
    "dnat p \<Longrightarrow> Some (ip_daddr (pkt_FRAME q) 18) = nat_dst_ip (pkt_nat p) \<and>
       ip_saddr (pkt_FRAME q) 18 = ip_saddr (pkt_FRAME p) 18"
    "snat p \<Longrightarrow> Some (ip_saddr (pkt_FRAME q) 18) = nat_src_ip (pkt_nat p) \<and>
       ip_daddr (pkt_FRAME q) 18 = ip_daddr (pkt_FRAME p) 18"
    "in_cksum (pkt_FRAME q) 18 20 = 0"
    "ip_protocol (pkt_FRAME p) 18 = IPPROTO_TCP \<Longrightarrow> tcp_checksum (pkt_FRAME q) (pkt_flen q) 18 = Inr 0"
    "ip_protocol (pkt_FRAME p) 18 \<noteq> IPPROTO_TCP \<Longrightarrow> get16 (pkt_FRAME q) 44 = 0"
proof -
  note w = pkt_wf_link [OF wf]
  from n d obtain q1 q2 where a: "nat_addrs s p = Inr (True, q1)" and q2: "fix_l4_checksum q1 = Inr q2"
    and q: "q = fix_ip_checksum q2"
    using nat_addrs_flag [of s p] by (fastforce simp: nat_pkt_def rbind_simps split: if_splits)
  from nat_addrs_steps [OF a w(1,2,4,5) v] obtain out mac p1 p2 a where
    om: "get_iface s (pkt_out p) = Inr out" "nat_dst_mac (pkt_nat p) = Some mac"
    and p1: "p1 = put_dhost (put_shost p (if_mac out)) mac" and rl: "relink {} p2 q1"
    and p2: "dnat p \<and> nat_dst_ip (pkt_nat p) = Some a \<and> p2 = put_daddr p1 a \<or>
       snat p \<and> nat_src_ip (pkt_nat p) = Some a \<and> p2 = put_saddr p1 a" .
  note h1 = put_host_effect [OF w(1), of "if_mac out"]
  note h2 = put_host_effect [OF h1(1), of mac]
  have r1: "pkt_rewr {} p p1"
    using pkt_rewr_trans [OF put_host_rewr(1) [OF w(1)] put_host_rewr(2) [OF h1(1)]] by (simp add: p1)
  have w1: "link_wf p1" "pkt_ip p1 = 18" using h2 w(2) pkt_rewr_fields [OF r1] by (simp_all add: p1)
  have r2: "relink ADDRS p1 p2" using p2 put_addr_rewr [OF w1] by auto
  have r3: "relink ADDRS p1 q1" using relink_trans [OF r2 rl] by simp
  then have q1: "link_wf q1" "pkt_ip q1 = 18" and r3': "pkt_rewr ADDRS p1 q1"
    using w1 pkt_rewr_fields [of ADDRS p1 q1] by (auto simp: relink_def pkt_rewr_def)
  have pr: "ip_protocol (pkt_FRAME q1) 18 = ip_protocol (pkt_FRAME p) 18"
    using rewr_get(3) [OF r3', of 27] rewr_get(3) [OF r1, of 27] by (simp add: ADDRS_def)
  have r4: "relink (L4SUM p) q1 q2"
    using fix_l4_checksum_rewr [OF q2 q1] pr by (simp add: L4SUM_def)
  then have q2': "link_wf q2" "pkt_ip q2 = 18"
    using q1 pkt_rewr_fields [of "L4SUM p" q1 q2] by (auto simp: relink_def pkt_rewr_def)
  have r5: "relink IPSUM q2 q" unfolding q by (rule fix_ip_checksum_rewr [OF q2'])
  have r35: "relink (NATBYTES p) p1 q"
    unfolding NATBYTES_def by (rule relink_trans [OF relink_trans [OF r3 r4] r5])
  have r24: "pkt_rewr (L4SUM p \<union> IPSUM) p2 q"
    using relink_trans [OF relink_trans [OF rl r4] r5] by (simp add: relink_def)
  have ad: "ip_saddr (pkt_FRAME q) 18 = ip_saddr (pkt_FRAME p2) 18"
    "ip_daddr (pkt_FRAME q) 18 = ip_daddr (pkt_FRAME p2) 18"
    using rewr_get(2) [OF r24, of 30] rewr_get(2) [OF r24, of 34] by (simp_all add: L4SUM_def IPSUM_def)
  have ad1: "ip_saddr (pkt_FRAME p1) 18 = ip_saddr (pkt_FRAME p) 18"
    "ip_daddr (pkt_FRAME p1) 18 = ip_daddr (pkt_FRAME p) 18"
    using rewr_get(2) [OF r1, of 30] rewr_get(2) [OF r1, of 34] by simp_all
  have ex: "\<not> (dnat p \<and> snat p)" by (auto simp: dnat_def snat_def)
  show thesis
  proof
    show "get_iface s (pkt_out p) = Inr out" "nat_dst_mac (pkt_nat p) = Some mac" by fact+
    show "pkt_rewr (NATBYTES p) p q"
      using pkt_rewr_trans [OF r1, of "NATBYTES p" q] r35 by (simp add: relink_def)
    show "link_src q = if_mac out" "link_dst q = mac"
      using r35 h1 h2 by (simp_all add: relink_def p1)
    show "in_cksum (pkt_FRAME q) 18 20 = 0"
      "ip_protocol (pkt_FRAME p) 18 = IPPROTO_TCP \<Longrightarrow> tcp_checksum (pkt_FRAME q) (pkt_flen q) 18 = Inr 0"
      using sums_verify [OF q2 q1(2) q] pr by simp_all
    show "ip_protocol (pkt_FRAME p) 18 \<noteq> IPPROTO_TCP \<Longrightarrow> get16 (pkt_FRAME q) 44 = 0"
      using q2 q1(2) pr
      by (auto simp: q fix_l4_checksum_def fix_ip_checksum_def set_ip_checksum_def set_udp_checksum_def Let_def rbind_simps
          mem_simps ntohs_def)
  qed (use p2 ad ad1 ex put_addr_get [OF w1(2), of a] in auto)
qed

section \<open>When the translation does not fault\<close>

text \<open>What the TCP checksum needs of the lengths in the packet.\<close>

definition tcp_fits :: "mem \<Rightarrow> nat \<Rightarrow> bool" where
  "tcp_fits f flen \<longleftrightarrow> 58 \<le> flen \<and> TCP_HDR_LEN \<le> unat (HDRDATA_SIZE f 18) \<and>
     unat (HDRDATA_SIZE f 18) \<le> TCP_HDR_LEN + BUFSIZE \<and> 38 + unat (HDRDATA_SIZE f 18) \<le> flen"

lemma set_tcp_checksum_total:
  "set_tcp_checksum f flen 18 = Inl OutOfBounds \<longleftrightarrow> \<not> tcp_fits f flen"
  "(\<exists>f'. set_tcp_checksum f flen 18 = Inr f') \<longleftrightarrow> tcp_fits f flen"
  using HDRDATA_put [of 18 54 f "htons 0"]
  by (auto simp: set_tcp_checksum_def Let_def tcp_checksum_def guard_def tcp_fits_def)

lemma HDRDATA_unat:
  assumes "4 * ip_ihl f 18 \<le> unat (ntohs (ip_tot_len f 18))"
  shows "unat (HDRDATA_SIZE f 18) = unat (ntohs (ip_tot_len f 18)) - 4 * ip_ihl f 18"
proof -
  have "unat (of_nat (4 * ip_ihl f 18) :: u16) = 4 * ip_ihl f 18"
    using ip_ihl_le [of f 18] by (simp only: unsigned_of_nat) (simp add: take_bit_nat_eq_self)
  with assms show ?thesis
    by (simp add: HDRDATA_SIZE_def unat_sub word_le_nat_alt mult.commute [of _ 4] del: of_nat_mult)
qed

lemma tcp_fits_intro:
  assumes "pkt_wf p" "ip_protocol (pkt_FRAME p) 18 = IPPROTO_TCP" "pkt_end p \<le> pkt_flen p"
    and "4 * ip_ihl (pkt_FRAME p) 18 + 20 \<le> unat (ntohs (ip_tot_len (pkt_FRAME p) 18))"
    and "unat (ntohs (ip_tot_len (pkt_FRAME p) 18)) \<le> 2068"
  shows "tcp_fits (pkt_FRAME p) (pkt_flen p)"
proof -
  have "5 \<le> ip_ihl (pkt_FRAME p) 18" "pkt_l4 p = 18 + 4 * ip_ihl (pkt_FRAME p) 18" "pkt_l4 p + 20 \<le> pkt_flen p"
    using assms(1,2) by (auto simp: pkt_wf_def Let_def)
  then show ?thesis using assms(3-5) pkt_wf_link(3) [OF assms(1)] HDRDATA_unat [of "pkt_FRAME p"]
    by (simp add: tcp_fits_def) arith
qed

lemma HDRDATA_rewr:
  assumes "pkt_rewr W p q" "18 \<notin> W" "20 \<notin> W" "21 \<notin> W"
  shows "HDRDATA_SIZE (pkt_FRAME q) 18 = HDRDATA_SIZE (pkt_FRAME p) 18"
  using rewr_get(3) [OF assms(1), of 18] rewr_get(1) [OF assms(1), of 20] assms(2-4)
  by (simp add: HDRDATA_SIZE_def ip_ihl_def ip_tot_len_def)

text \<open>The addresses a translation needs are there.\<close>

definition nat_ready :: "hb_state \<Rightarrow> pkt_struct \<Rightarrow> bool" where
  "nat_ready s p \<longleftrightarrow> (\<exists>out. get_iface s (pkt_out p) = Inr out) \<and> nat_dst_mac (pkt_nat p) \<noteq> None \<and>
     (dnat p \<longrightarrow> nat_dst_ip (pkt_nat p) \<noteq> None) \<and> (snat p \<longrightarrow> nat_src_ip (pkt_nat p) \<noteq> None) \<and>
     (pkt_origin p \<noteq> EXT \<longrightarrow> pkt_destination p \<noteq> EXT \<longrightarrow> nat_dst_vlan (pkt_nat p) \<noteq> None)"

lemma nat_addrs_total:
  assumes "nat_ready s p" "dnat p \<or> snat p" "pkt_ip p + 20 \<le> pkt_flen p"
  shows "\<exists>q. nat_addrs s p = Inr (True, q)"
proof -
  from assms(1) obtain out mac where o: "get_iface s (pkt_out p) = Inr out" "nat_dst_mac (pkt_nat p) = Some mac"
    by (auto simp: nat_ready_def)
  show ?thesis using assms o
    by (cases "pkt_origin p"; cases "pkt_destination p")
      (auto simp: nat_addrs_def Let_def nat_ready_def dnat_def snat_def put_shost_def put_dhost_def)
qed

lemma wf_flen: "pkt_wf p \<Longrightarrow> 46 \<le> pkt_flen p"
  by (auto simp: pkt_wf_def Let_def)

lemma nat_pkt_outcome:
  assumes wf: "pkt_wf p" and r: "nat_ready s p" and d: "dnat p \<or> snat p"
    and v: "pkt_origin p = EXT \<Longrightarrow> \<not> is_vlan p"
  shows "ip_protocol (pkt_FRAME p) 18 \<noteq> IPPROTO_TCP \<or> tcp_fits (pkt_FRAME p) (pkt_flen p) \<Longrightarrow> \<exists>q. nat_pkt s p = Inr q"
    and "ip_protocol (pkt_FRAME p) 18 = IPPROTO_TCP \<Longrightarrow> \<not> tcp_fits (pkt_FRAME p) (pkt_flen p) \<Longrightarrow>
      nat_pkt s p = Inl OutOfBounds"
proof -
  note w = pkt_wf_link [OF wf]
  have "pkt_ip p + 20 \<le> pkt_flen p" using w(2) wf_flen [OF wf] by simp
  from nat_addrs_total [OF r d this] obtain q1 where a: "nat_addrs s p = Inr (True, q1)" ..
  from nat_addrs_steps [OF a w(1,2,4,5) v] obtain out mac p1 p2 a where
    "get_iface s (pkt_out p) = Inr out" "nat_dst_mac (pkt_nat p) = Some mac"
    and p1: "p1 = put_dhost (put_shost p (if_mac out)) mac" and rl: "relink {} p2 q1"
    and p2: "dnat p \<and> nat_dst_ip (pkt_nat p) = Some a \<and> p2 = put_daddr p1 a \<or>
       snat p \<and> nat_src_ip (pkt_nat p) = Some a \<and> p2 = put_saddr p1 a" .
  note h1 = put_host_effect [OF w(1), of "if_mac out"]
  have r1: "pkt_rewr {} p p1"
    using pkt_rewr_trans [OF put_host_rewr(1) [OF w(1)] put_host_rewr(2) [OF h1(1)]] by (simp add: p1)
  have w1: "link_wf p1" "pkt_ip p1 = 18"
    using put_host_effect [OF h1(1), of mac] w(2) pkt_rewr_fields [OF r1] by (simp_all add: p1)
  have "relink ADDRS p1 p2" using p2 put_addr_rewr [OF w1] by auto
  from relink_trans [OF this rl] have "pkt_rewr ADDRS p1 q1" by (simp add: relink_def)
  from pkt_rewr_trans [OF r1 this] have rw: "pkt_rewr ADDRS p q1" by simp
  have fits: "tcp_fits (pkt_FRAME q1) (pkt_flen q1) = tcp_fits (pkt_FRAME p) (pkt_flen p)"
    using HDRDATA_rewr [OF rw] pkt_rewr_fields [OF rw] by (simp add: tcp_fits_def ADDRS_def)
  have pr: "ip_protocol (pkt_FRAME q1) 18 = ip_protocol (pkt_FRAME p) 18"
    using rewr_get(3) [OF rw, of 27] by (simp add: ADDRS_def)
  have q1: "pkt_ip q1 = 18" "46 \<le> pkt_flen q1" using pkt_rewr_fields [OF rw] w(2) wf_flen [OF wf] by simp_all
  show "\<exists>q. nat_pkt s p = Inr q" if "ip_protocol (pkt_FRAME p) 18 \<noteq> IPPROTO_TCP \<or> tcp_fits (pkt_FRAME p) (pkt_flen p)"
    using that a q1 pr fits set_tcp_checksum_total(2) [of "pkt_FRAME q1" "pkt_flen q1"]
    by (auto simp: nat_pkt_def fix_l4_checksum_def)
  show "nat_pkt s p = Inl OutOfBounds"
    if "ip_protocol (pkt_FRAME p) 18 = IPPROTO_TCP" "\<not> tcp_fits (pkt_FRAME p) (pkt_flen p)"
    using that a q1 pr fits set_tcp_checksum_total(1) [of "pkt_FRAME q1" "pkt_flen q1"]
    by (auto simp: nat_pkt_def fix_l4_checksum_def)
qed

section \<open>The forwarding functions\<close>

lemma send_pkt_pkt: "send_pkt E s p = Inr (r, q, s') \<Longrightarrow> q = p"
  by (auto simp: send_pkt_def Let_def rbind_simps split: option.splits prod.splits)

text \<open>The sequence and acknowledgement number of a TCP packet with a plain IP header, as numbers.\<close>

definition seq_of :: "pkt_struct \<Rightarrow> u32" where "seq_of p = ntohl (tcp_seq (pkt_FRAME p) (pkt_l4 p))"
definition ack_of :: "pkt_struct \<Rightarrow> u32" where "ack_of p = ntohl (tcp_ack_seq (pkt_FRAME p) (pkt_l4 p))"

lemma forward_hih2ext_l4_tcp:
  assumes "forward_hih2ext_l4 conn p = Inr q" "pkt_ip p = 18" "pkt_l4 p = 38"
    and "ip_protocol (pkt_FRAME p) 18 = IPPROTO_TCP" "link_wf p"
  shows "seq_of q = seq_of p + hih_delta (cn_hih conn)" "ack_of q = ack_of p"
    "l4_source (pkt_FRAME q) 38 = hih_port (cn_hih conn)"
    "\<And>i. i < 38 \<Longrightarrow> pkt_FRAME q i = pkt_FRAME p i" "pkt_rest q = pkt_rest p" "pkt_eth q = pkt_eth p"
    "in_cksum (pkt_FRAME (fix_ip_checksum q)) 18 20 = 0"
    "tcp_checksum (pkt_FRAME (fix_ip_checksum q)) (pkt_flen p) 18 = Inr 0" "pkt_size q = pkt_size p"
proof -
  define f where "f = put32 (put16 (pkt_FRAME p) 38 (hih_port (cn_hih conn))) 42
    (htonl (seq_of p + hih_delta (cn_hih conn)))"
  from assms obtain x f' where fx: "fix_tcp_timestamps f (pkt_flen p) 38 conn = Inr (x, f')"
    and q: "fix_l4_checksum (p\<lparr>pkt_FRAME := f'\<rparr>) = Inr q"
    by (auto simp: forward_hih2ext_l4_def Let_def rbind_simps f_def seq_of_def mem_simps)
  from fix_tcp_timestamps_frame [OF fx] have f': "f' i = f i" if "i < 58" for i using that by simp
  let ?p = "p\<lparr>pkt_FRAME := f'\<rparr>"
  have pr: "ip_protocol (pkt_FRAME ?p) 18 = IPPROTO_TCP"
    using assms(4) f' [of 27] by (simp add: f_def mem_simps)
  with q assms(2) have st: "set_tcp_checksum f' (pkt_flen p) 18 = Inr (pkt_FRAME q)" and qq: "q = ?p\<lparr>pkt_FRAME := pkt_FRAME q\<rparr>"
    by (auto simp: fix_l4_checksum_def rbind_simps)
  have same: "pkt_FRAME q i = f i" if "i < 54" for i
    using set_tcp_checksum_out [OF st, of i] f' [of i] that by simp
  have l4: "pkt_l4 q = 38" by (subst qq) (simp add: assms(3))
  have g: "get32 (pkt_FRAME q) 42 = get32 f 42" "get32 (pkt_FRAME q) 46 = get32 f 46" "get16 (pkt_FRAME q) 38 = get16 f 38"
    by (rule get_cong; use same in simp)+
  show "seq_of q = seq_of p + hih_delta (cn_hih conn)" "ack_of q = ack_of p"
    using g by (simp_all add: seq_of_def ack_of_def l4 assms(3)) (simp_all add: f_def mem_simps seq_of_def assms(3))
  show "l4_source (pkt_FRAME q) 38 = hih_port (cn_hih conn)"
    using g by (simp add: f_def mem_simps)
  show "pkt_FRAME q i = pkt_FRAME p i" if "i < 38" for i
    using same [of i] that by (simp add: f_def mem_simps)
  show "pkt_rest q = pkt_rest p" "pkt_eth q = pkt_eth p" "pkt_size q = pkt_size p"
    by (subst qq, simp add: pkt_rest_def)+
  have "pkt_flen q = pkt_flen p" by (subst qq) simp
  then show "in_cksum (pkt_FRAME (fix_ip_checksum q)) 18 20 = 0"
    "tcp_checksum (pkt_FRAME (fix_ip_checksum q)) (pkt_flen p) 18 = Inr 0"
    using sums_verify [OF q _ refl] pr assms(2) by (simp_all add: fix_ip_checksum_def)
qed

lemma forward_ext2hih_l4_tcp:
  assumes "forward_ext2hih_l4 conn p = Inr q" "pkt_ip p = 18" "pkt_l4 p = 38"
    and "ip_protocol (pkt_FRAME p) 18 = IPPROTO_TCP"
  shows "tcp_ack (pkt_FRAME p) 38 \<Longrightarrow> ack_of q = ack_of p - hih_delta (cn_hih conn)" "seq_of q = seq_of p"
    "l4_dest (pkt_FRAME q) 38 = hih_port (cn_hih conn)"
    "\<And>i. i < 38 \<Longrightarrow> pkt_FRAME q i = pkt_FRAME p i" "pkt_rest q = pkt_rest p" "pkt_eth q = pkt_eth p"
    "in_cksum (pkt_FRAME (fix_ip_checksum q)) 18 20 = 0"
    "tcp_checksum (pkt_FRAME (fix_ip_checksum q)) (pkt_flen p) 18 = Inr 0" "pkt_size q = pkt_size p"
proof -
  define f0 where "f0 = put16 (pkt_FRAME p) 40 (hih_port (cn_hih conn))"
  define f where "f = (if tcp_ack f0 38 then put32 f0 46 (htonl (ack_of p + NOT (hih_delta (cn_hih conn)) + 1)) else f0)"
  have neg: "x + NOT d + 1 = x - d" for x d :: u32 by (simp add: not_eq_complement)
  let ?p = "p\<lparr>pkt_FRAME := f\<rparr>"
  have ack0: "tcp_ack f0 38 = tcp_ack (pkt_FRAME p) 38" by (simp add: tcp_ack_def f0_def mem_simps)
  from assms have q: "fix_l4_checksum ?p = Inr q"
    by (auto simp: forward_ext2hih_l4_def Let_def rbind_simps f_def f0_def ack_of_def mem_simps)
  have pr: "ip_protocol (pkt_FRAME ?p) 18 = IPPROTO_TCP"
    using assms(4) by (simp add: f_def f0_def mem_simps)
  with q assms(2) have st: "set_tcp_checksum f (pkt_flen p) 18 = Inr (pkt_FRAME q)" and qq: "q = ?p\<lparr>pkt_FRAME := pkt_FRAME q\<rparr>"
    by (auto simp: fix_l4_checksum_def rbind_simps)
  have same: "pkt_FRAME q i = f i" if "i < 54" for i
    using set_tcp_checksum_out [OF st, of i] that by simp
  have l4: "pkt_l4 q = 38" by (subst qq) (simp add: assms(3))
  have g: "get32 (pkt_FRAME q) 42 = get32 f 42" "get32 (pkt_FRAME q) 46 = get32 f 46" "get16 (pkt_FRAME q) 40 = get16 f 40"
    by (rule get_cong; use same in simp)+
  show "seq_of q = seq_of p"
    using g by (simp add: seq_of_def l4 assms(3)) (simp add: f_def f0_def mem_simps)
  show "ack_of q = ack_of p - hih_delta (cn_hih conn)" if "tcp_ack (pkt_FRAME p) 38"
    using g that ack0 neg by (simp add: ack_of_def l4 assms(3)) (simp add: f_def mem_simps ack_of_def assms(3))
  show "l4_dest (pkt_FRAME q) 38 = hih_port (cn_hih conn)"
    using g by (simp add: f_def f0_def mem_simps)
  show "pkt_FRAME q i = pkt_FRAME p i" if "i < 38" for i
    using same [of i] that by (simp add: f_def f0_def mem_simps)
  show "pkt_rest q = pkt_rest p" "pkt_eth q = pkt_eth p" "pkt_size q = pkt_size p"
    by (subst qq, simp add: pkt_rest_def)+
  have "pkt_flen q = pkt_flen p" by (subst qq) simp
  then show "in_cksum (pkt_FRAME (fix_ip_checksum q)) 18 20 = 0"
    "tcp_checksum (pkt_FRAME (fix_ip_checksum q)) (pkt_flen p) 18 = Inr 0"
    using sums_verify [OF q _ refl] pr assms(2) by (simp_all add: fix_ip_checksum_def)
qed

text \<open>A TCP packet whose IP header has no options.\<close>

definition plain_tcp :: "pkt_struct \<Rightarrow> bool" where
  "plain_tcp p \<longleftrightarrow> pkt_wf p \<and> ip_ihl (pkt_FRAME p) 18 = 5 \<and> ip_protocol (pkt_FRAME p) 18 = IPPROTO_TCP"

lemma plain_tcp_l4: "plain_tcp p \<Longrightarrow> pkt_l4 p = 38"
  by (auto simp: plain_tcp_def pkt_wf_def Let_def)

lemma rewr_l4:
  assumes "pkt_rewr W p q" "W \<subseteq> ADDRS" "pkt_l4 p = 38"
  shows "seq_of q = seq_of p" "ack_of q = ack_of p" "tcp_ack (pkt_FRAME q) 38 = tcp_ack (pkt_FRAME p) 38"
    "ip_protocol (pkt_FRAME q) 18 = ip_protocol (pkt_FRAME p) 18"
proof -
  have o: "i \<notin> W" if "38 \<le> i \<or> i < 30" for i using assms(2) that by (auto simp: ADDRS_def)
  show "seq_of q = seq_of p" "ack_of q = ack_of p"
    using rewr_get(2) [OF assms(1), of 42] rewr_get(2) [OF assms(1), of 46] o pkt_rewr_fields(3) [OF assms(1)] assms(3)
    by (simp_all add: seq_of_def ack_of_def)
  show "tcp_ack (pkt_FRAME q) 38 = tcp_ack (pkt_FRAME p) 38"
    using rewr_get(3) [OF assms(1), of 51] o by (simp add: tcp_ack_def)
  show "ip_protocol (pkt_FRAME q) 18 = ip_protocol (pkt_FRAME p) 18"
    using rewr_get(3) [OF assms(1), of 27] o by simp
qed

text \<open>The three writes both forwarding functions start with.\<close>

lemma forward_hosts:
  fixes ms md :: mac_t
  assumes "link_wf p" "pkt_ip p = 18"
  defines "p1 \<equiv> put_dhost (put_shost p ms) md"
  shows "pkt_rewr {} p p1" "link_wf p1" "pkt_ip p1 = 18" "link_src p1 = ms" "link_dst p1 = md"
proof -
  note h1 = put_host_effect [OF assms(1), of ms]
  note h2 = put_host_effect [OF h1(1), of md]
  show r: "pkt_rewr {} p p1"
    using pkt_rewr_trans [OF put_host_rewr(1) [OF assms(1)] put_host_rewr(2) [OF h1(1)]] by (simp add: p1_def)
  show "link_wf p1" "link_src p1 = ms" "link_dst p1 = md" using h1 h2 by (simp_all add: p1_def)
  show "pkt_ip p1 = 18" using pkt_rewr_fields [OF r] assms(2) by simp
qed

lemma link_low:
  assumes "\<And>i. i < 18 \<Longrightarrow> pkt_FRAME q i = pkt_FRAME p i" "pkt_eth q = pkt_eth p" "link_wf p"
  shows "link_src q = link_src p" "link_dst q = link_dst p"
proof -
  have "pkt_eth p \<le> 4" using assms(3) by (auto simp: link_wf_def)
  with assms(1,2) show "link_src q = link_src p" "link_dst q = link_dst p"
    by (auto simp: link_src_def link_dst_def intro!: get_cong)
qed

lemma fix_ip_checksum_fields:
  assumes "pkt_ip p = 18" "pkt_l4 p = 38"
  shows "seq_of (fix_ip_checksum p) = seq_of p" "ack_of (fix_ip_checksum p) = ack_of p"
    "l4_source (pkt_FRAME (fix_ip_checksum p)) 38 = l4_source (pkt_FRAME p) 38"
    "l4_dest (pkt_FRAME (fix_ip_checksum p)) 38 = l4_dest (pkt_FRAME p) 38"
    "ip_saddr (pkt_FRAME (fix_ip_checksum p)) 18 = ip_saddr (pkt_FRAME p) 18"
    "ip_daddr (pkt_FRAME (fix_ip_checksum p)) 18 = ip_daddr (pkt_FRAME p) 18"
  using assms
  by (simp_all add: seq_of_def ack_of_def fix_ip_checksum_def set_ip_checksum_def Let_def mem_simps)

text \<open>Hosts, one IP address and the link header: what the packet is before its ports change.\<close>

lemma tcp_fits_cong:
  "f' 18 = f 18 \<Longrightarrow> f' 20 = f 20 \<Longrightarrow> f' 21 = f 21 \<Longrightarrow> tcp_fits f' flen = tcp_fits f flen"
  by (simp add: tcp_fits_def HDRDATA_SIZE_def ip_ihl_def ip_tot_len_def get16_def)

definition fwd_front ::
  "pkt_struct \<Rightarrow> pkt_struct \<Rightarrow> mac_t \<Rightarrow> mac_t \<Rightarrow> u32 \<Rightarrow> u32 \<Rightarrow> bool" where
  "fwd_front p p3 ms md sa da \<longleftrightarrow>
     link_wf p3 \<and> pkt_ip p3 = 18 \<and> pkt_l4 p3 = 38 \<and> link_src p3 = ms \<and> link_dst p3 = md \<and>
     seq_of p3 = seq_of p \<and> ack_of p3 = ack_of p \<and>
     tcp_ack (pkt_FRAME p3) 38 = tcp_ack (pkt_FRAME p) 38 \<and>
     ip_protocol (pkt_FRAME p3) 18 = ip_protocol (pkt_FRAME p) 18 \<and>
     ip_saddr (pkt_FRAME p3) 18 = sa \<and> ip_daddr (pkt_FRAME p3) 18 = da \<and>
     pkt_end p3 = pkt_end p \<and> pkt_flen p3 = pkt_flen p \<and>
     ip_ihl (pkt_FRAME p3) 18 = ip_ihl (pkt_FRAME p) 18 \<and> tcp_doff (pkt_FRAME p3) 38 = tcp_doff (pkt_FRAME p) 38 \<and>
     tcp_fits (pkt_FRAME p3) (pkt_flen p3) = tcp_fits (pkt_FRAME p) (pkt_flen p)"

lemma forward_front:
  fixes ms md :: mac_t
  assumes "link_wf p" "pkt_ip p = 18" "pkt_l4 p = 38" and e: "18 \<le> pkt_end p" "pkt_end p < 2 ^ 31"
    and p1: "p1 = put_dhost (put_shost p ms) md"
    and p2: "p2 = (if sn then put_saddr p1 a else put_daddr p1 a)"
    and r3: "link_wf p2 \<Longrightarrow> 18 \<le> pkt_end p2 \<Longrightarrow> pkt_end p2 < 2 ^ 31 \<Longrightarrow> relink {} p2 p3"
  shows "fwd_front p p3 ms md (if sn then a else ip_saddr (pkt_FRAME p) 18)
      (if sn then ip_daddr (pkt_FRAME p) 18 else a)"
    "pkt_out p3 = pkt_out p" "link_wf p2" "pkt_end p2 = pkt_end p"
proof -
  note h = forward_hosts [OF assms(1,2), of ms md, folded p1]
  have r2: "relink ADDRS p1 p2" using put_addr_rewr [OF h(2,3), of a] by (simp add: p2)
  show w2: "link_wf p2" "pkt_end p2 = pkt_end p" using r2 h(1) by (auto simp: relink_def pkt_rewr_def)
  have rl: "relink {} p2 p3" using r3 w2 e by simp
  have r13: "relink ADDRS p1 p3" using relink_trans [OF r2 rl] by simp
  have r03: "pkt_rewr ADDRS p p3" using pkt_rewr_trans [OF h(1)] r13 by (fastforce simp: relink_def)
  have f: "link_wf p3" "pkt_ip p3 = 18" "pkt_l4 p3 = 38" "pkt_out p3 = pkt_out p" "pkt_end p3 = pkt_end p"
    "pkt_flen p3 = pkt_flen p"
    using r03 pkt_rewr_fields [OF r03] assms by (simp_all add: pkt_rewr_def)
  then show "pkt_out p3 = pkt_out p" by simp
  have b: "get32 (pkt_FRAME p3) k = get32 (pkt_FRAME p2) k" "get32 (pkt_FRAME p1) k = get32 (pkt_FRAME p) k"
    if "18 \<le> k" for k
    using rewr_get(2) [of "{}" p2 p3 k] rewr_get(2) [OF h(1) that] rl that by (auto simp: relink_def)
  have a: "ip_saddr (pkt_FRAME p3) 18 = (if sn then a else ip_saddr (pkt_FRAME p) 18)"
    "ip_daddr (pkt_FRAME p3) 18 = (if sn then ip_daddr (pkt_FRAME p) 18 else a)"
    using b(1) [of 30] b(1) [of 34] b(2) [of 30] b(2) [of 34] put_addr_get [OF h(3), of a] by (simp_all add: p2)
  have "tcp_fits (pkt_FRAME p3) (pkt_flen p3) = tcp_fits (pkt_FRAME p) (pkt_flen p)"
    using tcp_fits_cong [of "pkt_FRAME p3" "pkt_FRAME p"] rewr_get(3) [OF r03] f(6) by (simp add: ADDRS_def)
  then show "fwd_front p p3 ms md (if sn then a else ip_saddr (pkt_FRAME p) 18)
      (if sn then ip_daddr (pkt_FRAME p) 18 else a)"
    using f a r13 h(4,5) rewr_l4 [OF r03 subset_refl assms(3)] rewr_get(3) [OF r03, of 18] rewr_get(3) [OF r03, of 50]
    by (simp add: fwd_front_def relink_def ip_ihl_def tcp_doff_def ADDRS_def)
qed

text \<open>And after: the ports and numbers changed, the frame below the transport header did not.\<close>

lemma forward_back:
  assumes "link_wf p3" "pkt_ip p3 = 18" "pkt_l4 p3 = 38" "\<And>i. i < 38 \<Longrightarrow> pkt_FRAME q0 i = pkt_FRAME p3 i"
    "pkt_rest q0 = pkt_rest p3" "pkt_eth q0 = pkt_eth p3" "pkt_size q0 = pkt_size p3" and q: "q = fix_ip_checksum q0"
  shows "seq_of q = seq_of q0" "ack_of q = ack_of q0" "l4_source (pkt_FRAME q) 38 = l4_source (pkt_FRAME q0) 38"
    "l4_dest (pkt_FRAME q) 38 = l4_dest (pkt_FRAME q0) 38" "pkt_out q = pkt_out p3" "pkt_flen q = pkt_flen p3"
    "ip_saddr (pkt_FRAME q) 18 = ip_saddr (pkt_FRAME p3) 18" "ip_daddr (pkt_FRAME q) 18 = ip_daddr (pkt_FRAME p3) 18"
    "link_src q = link_src p3" "link_dst q = link_dst p3" "pkt_eth q = pkt_eth p3" "pkt_end q = pkt_end p3"
    "ip_ihl (pkt_FRAME q) 18 = ip_ihl (pkt_FRAME p3) 18"
proof -
  have q0: "pkt_ip q0 = 18" "pkt_l4 q0 = 38" "pkt_out q0 = pkt_out p3" "pkt_flen q0 = pkt_flen p3"
    using pkt_rest_fields [of q0, unfolded assms(5) pkt_rest_fields] assms by simp_all
  note k = fix_ip_checksum_fields [OF q0(1,2), folded q]
  have a: "get32 (pkt_FRAME q0) 30 = get32 (pkt_FRAME p3) 30" "get32 (pkt_FRAME q0) 34 = get32 (pkt_FRAME p3) 34"
    by (rule get_cong; use assms(4) in simp)+
  show "seq_of q = seq_of q0" "ack_of q = ack_of q0" "l4_source (pkt_FRAME q) 38 = l4_source (pkt_FRAME q0) 38"
    "l4_dest (pkt_FRAME q) 38 = l4_dest (pkt_FRAME q0) 38"
    "ip_saddr (pkt_FRAME q) 18 = ip_saddr (pkt_FRAME p3) 18" "ip_daddr (pkt_FRAME q) 18 = ip_daddr (pkt_FRAME p3) 18"
    using k a by simp_all
  show "pkt_out q = pkt_out p3" "pkt_flen q = pkt_flen p3" "pkt_eth q = pkt_eth p3" "pkt_end q = pkt_end p3"
    using q0 assms(6,7) by (simp_all add: q fix_ip_checksum_def pkt_end_def)
  show "ip_ihl (pkt_FRAME q) 18 = ip_ihl (pkt_FRAME p3) 18"
    using q0(1) assms(4) [of 18] by (simp add: q ip_ihl_def fix_ip_checksum_def set_ip_checksum_def Let_def mem_simps)
  have lw: "link_wf q0" using assms(1,4,6) get_cong(1) [of 16 "pkt_FRAME q0" "pkt_FRAME p3"]
      get_cong(1) [of 12 "pkt_FRAME q0" "pkt_FRAME p3"] by (auto simp: link_wf_def)
  show "link_src q = link_src p3" "link_dst q = link_dst p3"
    using fix_ip_checksum_rewr [OF lw q0(1)] link_low [of q0 p3, OF _ assms(6,1)] assms(4)
    by (simp_all add: q relink_def)
qed

lemma forward_ext2hih_vlan_relink:
  assumes "link_wf p" "18 \<le> pkt_end p" "pkt_end p < 2 ^ 31"
  shows "relink {} p (forward_ext2hih_vlan tci p)"
proof (cases "tci = 0 \<or> \<not> is_vlan p")
  case True
  then show ?thesis using relink_any(3) [OF assms, of tci] relink_any(4) [OF assms] by (auto simp: forward_ext2hih_vlan_def)
next
  case False
  let ?f = "put16 (put16 (put16 (pkt_FRAME p) 12 (htons ETHERTYPE_VLAN)) 16 (htons ETHERTYPE_IP)) 14 tci"
  have e: "pkt_eth p = 0" using False is_vlan_iff [OF assms(1)] by simp
  have "relink {} p (p\<lparr>pkt_FRAME := ?f\<rparr>)"
    using e by (auto simp: relink_def pkt_rewr_def link_wf_def pkt_end_def pkt_rest_def link_src_def
        link_dst_def mem_simps)
  moreover have "forward_ext2hih_vlan tci p = p\<lparr>pkt_FRAME := ?f\<rparr>"
    using False e by (simp add: forward_ext2hih_vlan_def Let_def)
  ultimately show ?thesis by simp
qed

text \<open>Both forwarding functions are this front, the change of ports and numbers, and the sending.\<close>

lemma forward_hih2ext_front:
  assumes p: "plain_tcp p" and t: "get_target s (cn_target conn) = Inr t" "tg_default_route t = Some i"
  obtains p3 where "fwd_front p p3 (cn_first_pkt_dst_mac conn) (cn_first_pkt_src_mac conn)
      (cn_first_pkt_dst_ip conn) (ip_daddr (pkt_FRAME p) 18)"
    "pkt_out p3 = Some i" "pkt_eth p3 = 4"
    "forward_hih2ext E s conn p =
       rbind (forward_hih2ext_l4 conn p3) (\<lambda>pkt. send_pkt E s (fix_ip_checksum pkt))"
proof -
  define p0 where "p0 = p\<lparr>pkt_out := Some i, pkt_destination := EXT\<rparr>"
  define p1 where "p1 = put_dhost (put_shost p0 (cn_first_pkt_dst_mac conn)) (cn_first_pkt_src_mac conn)"
  define p2 where "p2 = put_saddr p1 (cn_first_pkt_dst_ip conn)"
  define p3 where "p3 = (if is_vlan p2 then vlan_strip p2 else p2)"
  have wf: "pkt_wf p" and l4: "pkt_l4 p = 38" using p plain_tcp_l4 [OF p] by (simp_all add: plain_tcp_def)
  note w = pkt_wf_link [OF wf]
  have p0: "link_wf p0" "pkt_ip p0 = 18" "pkt_l4 p0 = 38" "18 \<le> pkt_end p0" "pkt_end p0 < 2 ^ 31"
    "pkt_end p0 = pkt_end p"
    using w l4 by (simp_all add: p0_def link_wf_def pkt_end_def)
  have s0: "seq_of p0 = seq_of p" "ack_of p0 = ack_of p" "pkt_end p0 = pkt_end p" "pkt_FRAME p0 = pkt_FRAME p"
    "pkt_flen p0 = pkt_flen p" by (simp_all add: p0_def seq_of_def ack_of_def pkt_end_def)
  have p2': "p2 = (if True then put_saddr p1 (cn_first_pkt_dst_ip conn) else put_daddr p1 (cn_first_pkt_dst_ip conn))"
    by (simp add: p2_def)
  have r3: "link_wf p2 \<Longrightarrow> 18 \<le> pkt_end p2 \<Longrightarrow> pkt_end p2 < 2 ^ 31 \<Longrightarrow> relink {} p2 p3"
    unfolding p3_def by (rule relink_any(1))
  note F = forward_front [OF p0(1-5) p1_def p2' r3]
  show thesis
  proof
    show "fwd_front p p3 (cn_first_pkt_dst_mac conn) (cn_first_pkt_src_mac conn)
        (cn_first_pkt_dst_ip conn) (ip_daddr (pkt_FRAME p) 18)"
      using F(1) by (auto simp: fwd_front_def s0)
    show "pkt_out p3 = Some i" using F(2) by (simp add: p0_def)
    show "pkt_eth p3 = 4"
      using vlan_strip_effect(6) [OF F(3)] is_vlan_iff [OF F(3)] F(3,4) size_ge4 [OF F(3)] p0(4)
      by (auto simp: p3_def link_wf_def)
    show "forward_hih2ext E s conn p =
       rbind (forward_hih2ext_l4 conn p3) (\<lambda>pkt. send_pkt E s (fix_ip_checksum pkt))"
      using t wf_flen [OF wf] w(2)
      by (simp add: forward_hih2ext_def Let_def p3_def p2_def p1_def p0_def)
  qed
qed

lemma forward_ext2hih_front:
  assumes p: "plain_tcp p" and h: "hih_back_handler (cn_hih conn) = Some hp" "st_handlers s hp = Some h"
    and "get_iface s (hd_iface h) = Inr out" "hd_mac h = Some mac" "hd_ip h = Some ip"
  obtains p3 where "fwd_front p p3 (if_mac out) mac (ip_saddr (pkt_FRAME p) 18) ip" "pkt_out p3 = hd_iface h"
    "forward_ext2hih E s conn p =
       rbind (forward_ext2hih_l4 conn p3) (\<lambda>pkt. send_pkt E s (fix_ip_checksum pkt))"
proof -
  define p0 where "p0 = p\<lparr>pkt_out := hd_iface h, pkt_destination := HIH\<rparr>"
  define p1 where "p1 = put_dhost (put_shost p0 (if_mac out)) mac"
  define p2 where "p2 = put_daddr p1 ip"
  define p3 where "p3 = forward_ext2hih_vlan (hd_vlan h) p2"
  have wf: "pkt_wf p" and l4: "pkt_l4 p = 38" using p plain_tcp_l4 [OF p] by (simp_all add: plain_tcp_def)
  note w = pkt_wf_link [OF wf]
  have p0: "link_wf p0" "pkt_ip p0 = 18" "pkt_l4 p0 = 38" "18 \<le> pkt_end p0" "pkt_end p0 < 2 ^ 31"
    using w l4 by (simp_all add: p0_def link_wf_def pkt_end_def)
  have s0: "seq_of p0 = seq_of p" "ack_of p0 = ack_of p" "pkt_end p0 = pkt_end p" "pkt_FRAME p0 = pkt_FRAME p"
    "pkt_flen p0 = pkt_flen p" by (simp_all add: p0_def seq_of_def ack_of_def pkt_end_def)
  have p2': "p2 = (if False then put_saddr p1 ip else put_daddr p1 ip)" by (simp add: p2_def)
  have r3: "link_wf p2 \<Longrightarrow> 18 \<le> pkt_end p2 \<Longrightarrow> pkt_end p2 < 2 ^ 31 \<Longrightarrow> relink {} p2 p3"
    unfolding p3_def by (rule forward_ext2hih_vlan_relink)
  note F = forward_front [OF p0(1-5) p1_def p2' r3]
  show thesis
  proof
    show "fwd_front p p3 (if_mac out) mac (ip_saddr (pkt_FRAME p) 18) ip"
      using F(1) by (auto simp: fwd_front_def s0)
    show "pkt_out p3 = hd_iface h" using F(2) by (simp add: p0_def)
    show "forward_ext2hih E s conn p =
       rbind (forward_ext2hih_l4 conn p3) (\<lambda>pkt. send_pkt E s (fix_ip_checksum pkt))"
      using assms wf_flen [OF wf] w(2)
      by (simp add: forward_ext2hih_def get_handler_def Let_def p3_def p2_def p1_def p0_def)
  qed
qed

lemma forward_hih2ext_effect:
  assumes f: "forward_hih2ext E s conn p = Inr (r, q, s')" and p: "plain_tcp p"
    and t: "get_target s (cn_target conn) = Inr t" "tg_default_route t = Some i"
  shows "seq_of q = seq_of p + hih_delta (cn_hih conn)" "ack_of q = ack_of p"
    "l4_source (pkt_FRAME q) 38 = hih_port (cn_hih conn)"
    "ip_saddr (pkt_FRAME q) 18 = cn_first_pkt_dst_ip conn"
    "ip_daddr (pkt_FRAME q) 18 = ip_daddr (pkt_FRAME p) 18"
    "link_src q = cn_first_pkt_dst_mac conn" "link_dst q = cn_first_pkt_src_mac conn"
    "pkt_out q = Some i" "pkt_eth q = 4"
    "in_cksum (pkt_FRAME q) 18 20 = 0" "tcp_checksum (pkt_FRAME q) (pkt_flen q) 18 = Inr 0" "ip_ihl (pkt_FRAME q) 18 = 5"
proof -
  obtain p3 where
    F: "fwd_front p p3 (cn_first_pkt_dst_mac conn) (cn_first_pkt_src_mac conn)
      (cn_first_pkt_dst_ip conn) (ip_daddr (pkt_FRAME p) 18)" "pkt_out p3 = Some i" "pkt_eth p3 = 4"
    and eq: "forward_hih2ext E s conn p = rbind (forward_hih2ext_l4 conn p3) (\<lambda>pkt. send_pkt E s (fix_ip_checksum pkt))"
    by (rule forward_hih2ext_front [OF p t])
  from f [unfolded eq] obtain q0 where q0: "forward_hih2ext_l4 conn p3 = Inr q0" and q: "q = fix_ip_checksum q0"
    by (auto simp: rbind_simps dest!: send_pkt_pkt)
  note F' = F(1) [unfolded fwd_front_def]
  have g': "link_wf p3" "pkt_ip p3 = 18" "pkt_l4 p3 = 38" "ip_protocol (pkt_FRAME p3) 18 = IPPROTO_TCP"
    using F' p by (simp_all add: plain_tcp_def)
  note g = forward_hih2ext_l4_tcp [OF q0 g'(2-4,1)]
  note B = forward_back [OF g'(1-3) g(4-6) g(9) q]
  show "seq_of q = seq_of p + hih_delta (cn_hih conn)" "ack_of q = ack_of p"
    "l4_source (pkt_FRAME q) 38 = hih_port (cn_hih conn)"
    "ip_saddr (pkt_FRAME q) 18 = cn_first_pkt_dst_ip conn"
    "ip_daddr (pkt_FRAME q) 18 = ip_daddr (pkt_FRAME p) 18"
    "link_src q = cn_first_pkt_dst_mac conn" "link_dst q = cn_first_pkt_src_mac conn"
    "pkt_out q = Some i" "pkt_eth q = 4"
    "in_cksum (pkt_FRAME q) 18 20 = 0" "tcp_checksum (pkt_FRAME q) (pkt_flen q) 18 = Inr 0" "ip_ihl (pkt_FRAME q) 18 = 5"
    using B g(1-3,7,8) F F' p by (simp_all add: q plain_tcp_def)
qed

lemma forward_ext2hih_effect:
  assumes f: "forward_ext2hih E s conn p = Inr (r, q, s')" and p: "plain_tcp p"
    and h: "hih_back_handler (cn_hih conn) = Some hp" "st_handlers s hp = Some h" "get_iface s (hd_iface h) = Inr out"
  shows "tcp_ack (pkt_FRAME p) 38 \<Longrightarrow> ack_of q = ack_of p - hih_delta (cn_hih conn)" "seq_of q = seq_of p"
    "l4_dest (pkt_FRAME q) 38 = hih_port (cn_hih conn)"
    "Some (ip_daddr (pkt_FRAME q) 18) = hd_ip h" "ip_saddr (pkt_FRAME q) 18 = ip_saddr (pkt_FRAME p) 18"
    "link_src q = if_mac out" "Some (link_dst q) = hd_mac h" "pkt_out q = hd_iface h"
    "in_cksum (pkt_FRAME q) 18 20 = 0" "tcp_checksum (pkt_FRAME q) (pkt_flen q) 18 = Inr 0" "ip_ihl (pkt_FRAME q) 18 = 5"
proof -
  from f h obtain mac ip where mi: "hd_mac h = Some mac" "hd_ip h = Some ip"
    by (auto simp: forward_ext2hih_def get_handler_def Let_def rbind_simps)
  obtain p3 where
    F: "fwd_front p p3 (if_mac out) mac (ip_saddr (pkt_FRAME p) 18) ip" "pkt_out p3 = hd_iface h"
    and eq: "forward_ext2hih E s conn p = rbind (forward_ext2hih_l4 conn p3) (\<lambda>pkt. send_pkt E s (fix_ip_checksum pkt))"
    by (rule forward_ext2hih_front [OF p h mi])
  from f [unfolded eq] obtain q0 where q0: "forward_ext2hih_l4 conn p3 = Inr q0" and q: "q = fix_ip_checksum q0"
    by (auto simp: rbind_simps dest!: send_pkt_pkt)
  note F' = F(1) [unfolded fwd_front_def]
  have g': "link_wf p3" "pkt_ip p3 = 18" "pkt_l4 p3 = 38" "ip_protocol (pkt_FRAME p3) 18 = IPPROTO_TCP"
    using F' p by (simp_all add: plain_tcp_def)
  note g = forward_ext2hih_l4_tcp [OF q0 g'(2-4)]
  note B = forward_back [OF g'(1-3) g(4-6) g(9) q]
  show "tcp_ack (pkt_FRAME p) 38 \<Longrightarrow> ack_of q = ack_of p - hih_delta (cn_hih conn)" "seq_of q = seq_of p"
    "l4_dest (pkt_FRAME q) 38 = hih_port (cn_hih conn)"
    "Some (ip_daddr (pkt_FRAME q) 18) = hd_ip h" "ip_saddr (pkt_FRAME q) 18 = ip_saddr (pkt_FRAME p) 18"
    "link_src q = if_mac out" "Some (link_dst q) = hd_mac h" "pkt_out q = hd_iface h"
    "in_cksum (pkt_FRAME q) 18 20 = 0" "tcp_checksum (pkt_FRAME q) (pkt_flen q) 18 = Inr 0" "ip_ihl (pkt_FRAME q) 18 = 5"
    using B g(1-3,7,8) F F' mi p by (simp_all add: q plain_tcp_def)
qed

text \<open>And they do send, when the lengths fit.\<close>

lemma forward_l4_total:
  assumes "pkt_ip p = 18" "pkt_l4 p = 38" "ip_protocol (pkt_FRAME p) 18 = IPPROTO_TCP"
    and "tcp_fits (pkt_FRAME p) (pkt_flen p)"
  shows "cn_replay_problem conn = 0 \<or> tcp_doff (pkt_FRAME p) 38 = 5 \<Longrightarrow> \<exists>q. forward_hih2ext_l4 conn p = Inr q"
    "\<exists>q. forward_ext2hih_l4 conn p = Inr q"
proof -
  have fl: "58 \<le> pkt_flen p" using assms(4) by (simp add: tcp_fits_def)
  have sums: "\<exists>q. fix_l4_checksum (p\<lparr>pkt_FRAME := f\<rparr>) = Inr q"
    if "\<And>i. i < 38 \<Longrightarrow> f i = pkt_FRAME p i" for f
  proof -
    have "tcp_fits f (pkt_flen p)" using tcp_fits_cong [of f "pkt_FRAME p"] that assms(4) by simp
    then show ?thesis using set_tcp_checksum_total(2) [of f "pkt_flen p"] that [of 27] assms(1,3)
      by (auto simp: fix_l4_checksum_def)
  qed
  show "\<exists>q. forward_hih2ext_l4 conn p = Inr q" if c: "cn_replay_problem conn = 0 \<or> tcp_doff (pkt_FRAME p) 38 = 5"
  proof -
    let ?f = "put32 (put16 (pkt_FRAME p) 38 (hih_port (cn_hih conn))) 42 (htonl (ntohl (tcp_seq (pkt_FRAME p) 38) + hih_delta (cn_hih conn)))"
    have "tcp_doff ?f 38 = tcp_doff (pkt_FRAME p) 38" by (simp add: tcp_doff_def mem_simps)
    then have "\<exists>r. fix_tcp_timestamps ?f (pkt_flen p) 38 conn = Inr (r, ?f)"
      using fl c by (auto simp: fix_tcp_timestamps_def strip_tcp_timestamps_def get_tcp_timestamps_def)
    then obtain r where "fix_tcp_timestamps ?f (pkt_flen p) 38 conn = Inr (r, ?f)" ..
    then show ?thesis using fl assms(1-3) sums [of ?f]
      by (simp add: forward_hih2ext_l4_def Let_def mem_simps)
  qed
  show "\<exists>q. forward_ext2hih_l4 conn p = Inr q"
    using fl assms(1-3)
    by (simp add: forward_ext2hih_l4_def Let_def) (intro conjI impI; rule sums; simp add: mem_simps)
qed

text \<open>The bytes \<open>send_pkt\<close> hands to the interface.\<close>

definition wire :: "pkt_struct \<Rightarrow> byte list" where
  "wire p = memget (pkt_FRAME p) (pkt_eth p) (unat (pkt_size p))"

lemma send_pkt_total:
  assumes "pkt_out p = Some i" "st_ifaces s i \<noteq> None" "pkt_end p \<le> pkt_flen p"
  shows "send_pkt E s p = Inr (if ev_inject E i (wire p) then OK else NOK, p, snd (pcap_inject E s i (wire p)))"
  using assms by (auto simp: send_pkt_def get_iface_def pkt_end_def pcap_inject_def wire_def)

lemma forward_hih2ext_total:
  assumes p: "plain_tcp p" and fits: "tcp_fits (pkt_FRAME p) (pkt_flen p)" "pkt_end p \<le> pkt_flen p"
    and t: "get_target s (cn_target conn) = Inr t" "tg_default_route t = Some i" "st_ifaces s i \<noteq> None"
    and c: "cn_replay_problem conn = 0 \<or> tcp_doff (pkt_FRAME p) 38 = 5"
  shows "\<exists>q. forward_hih2ext E s conn p =
    Inr (if ev_inject E i (wire q) then OK else NOK, q, snd (pcap_inject E s i (wire q)))"
proof -
  obtain p3 where
    F: "fwd_front p p3 (cn_first_pkt_dst_mac conn) (cn_first_pkt_src_mac conn)
      (cn_first_pkt_dst_ip conn) (ip_daddr (pkt_FRAME p) 18)" "pkt_out p3 = Some i"
    and eq: "forward_hih2ext E s conn p = rbind (forward_hih2ext_l4 conn p3) (\<lambda>pkt. send_pkt E s (fix_ip_checksum pkt))"
    by (rule forward_hih2ext_front [OF p t(1,2)])
  note F' = F(1) [unfolded fwd_front_def]
  have g': "link_wf p3" "pkt_ip p3 = 18" "pkt_l4 p3 = 38" "ip_protocol (pkt_FRAME p3) 18 = IPPROTO_TCP"
    "tcp_fits (pkt_FRAME p3) (pkt_flen p3)" using F' p fits by (auto simp: plain_tcp_def)
  from forward_l4_total(1) [OF g'(2-5)] c F' obtain q0 where q0: "forward_hih2ext_l4 conn p3 = Inr q0" by auto
  note g = forward_hih2ext_l4_tcp [OF q0 g'(2-4,1)]
  note B = forward_back [OF g'(1-3) g(4-6) g(9) refl]
  have "send_pkt E s (fix_ip_checksum q0) = Inr (if ev_inject E i (wire (fix_ip_checksum q0)) then OK else NOK,
      fix_ip_checksum q0, snd (pcap_inject E s i (wire (fix_ip_checksum q0))))"
    using B(5,6,12) F(2) F' fits(2) t(3) by (intro send_pkt_total) auto
  with eq q0 show ?thesis by auto
qed

lemma forward_ext2hih_total:
  assumes p: "plain_tcp p" and fits: "tcp_fits (pkt_FRAME p) (pkt_flen p)" "pkt_end p \<le> pkt_flen p"
    and h: "hih_back_handler (cn_hih conn) = Some hp" "st_handlers s hp = Some h"
      "hd_iface h = Some i" "st_ifaces s i = Some out" "hd_mac h = Some mac" "hd_ip h = Some ip"
  shows "\<exists>q. forward_ext2hih E s conn p =
    Inr (if ev_inject E i (wire q) then OK else NOK, q, snd (pcap_inject E s i (wire q)))"
proof -
  have gi: "get_iface s (hd_iface h) = Inr out" using h by (simp add: get_iface_def)
  obtain p3 where
    F: "fwd_front p p3 (if_mac out) mac (ip_saddr (pkt_FRAME p) 18) ip" "pkt_out p3 = hd_iface h"
    and eq: "forward_ext2hih E s conn p = rbind (forward_ext2hih_l4 conn p3) (\<lambda>pkt. send_pkt E s (fix_ip_checksum pkt))"
    by (rule forward_ext2hih_front [OF p h(1,2) gi h(5,6)])
  note F' = F(1) [unfolded fwd_front_def]
  have g': "link_wf p3" "pkt_ip p3 = 18" "pkt_l4 p3 = 38" "ip_protocol (pkt_FRAME p3) 18 = IPPROTO_TCP"
    "tcp_fits (pkt_FRAME p3) (pkt_flen p3)" using F' p fits by (auto simp: plain_tcp_def)
  from forward_l4_total(2) [OF g'(2-5)] obtain q0 where q0: "forward_ext2hih_l4 conn p3 = Inr q0" by blast
  note g = forward_ext2hih_l4_tcp [OF q0 g'(2-4)]
  note B = forward_back [OF g'(1-3) g(4-6) g(9) refl]
  have "send_pkt E s (fix_ip_checksum q0) = Inr (if ev_inject E i (wire (fix_ip_checksum q0)) then OK else NOK,
      fix_ip_checksum q0, snd (pcap_inject E s i (wire (fix_ip_checksum q0))))"
    using B(5,6,12) F(2) F' fits(2) h(3,4) by (intro send_pkt_total) auto
  with eq q0 show ?thesis by auto
qed

section \<open>Properties\<close>

lemma short_not_fits:
  assumes "unat (ntohs (ip_tot_len f 18)) < 4 * ip_ihl f 18 + 20"
  shows "\<not> tcp_fits f flen"
proof (cases "4 * ip_ihl f 18 \<le> unat (ntohs (ip_tot_len f 18))")
  case True
  with HDRDATA_unat [OF True] assms have "unat (HDRDATA_SIZE f 18) < 20" by linarith
  then show ?thesis by (simp add: tcp_fits_def)
next
  case False
  define t where "t = ntohs (ip_tot_len f 18)"
  define h where "h = (of_nat (4 * ip_ihl f 18) :: u16)"
  have h: "unat h = 4 * ip_ihl f 18" unfolding h_def
    using ip_ihl_le [of f 18] by (simp only: unsigned_of_nat) (simp add: take_bit_nat_eq_self)
  have lt: "unat t < unat h" using False by (simp add: h t_def)
  have "unat (t - h) = unat t + 65536 - unat h" using lt by (simp add: unat_sub_if')
  moreover have "unat h \<le> 60" using h ip_ihl_le [of f 18] by simp
  ultimately have "2068 < unat (HDRDATA_SIZE f 18)"
    by (simp add: HDRDATA_SIZE_def t_def h_def mult.commute)
  then show ?thesis by (simp add: tcp_fits_def)
qed

text \<open>C5: Address translation is exact for a packet without IP options (\<open>ihl\<close> is 5) that, when it comes from outside,
  has no VLAN tag.  When \<open>nat\<close> returns, the frame has the outgoing interface as
  link source and the chosen link destination; a packet from outside or to an internal target has its
  destination address replaced and its source address kept, one to the outside or to a HIH the reverse;
  the packet ends where it ended; the IP header and a TCP segment have a valid checksum (the sums of their words in
  network order, for TCP with the pseudo header, are a one's complement zero) and the checksum of UDP is switched off;
  and beyond the link header nothing but the IP checksum, the two addresses and the checksum field of the transport
  header changed.\<close>

theorem nat_translates:
  assumes "nat_pkt s p = Inr q" and "pkt_wf p" and "dnat p \<or> snat p" and "pkt_origin p = EXT \<Longrightarrow> \<not> is_vlan p"
    and "ip_ihl (pkt_FRAME p) 18 = 5"
  shows "\<exists>out mac. get_iface s (pkt_out p) = Inr out \<and> nat_dst_mac (pkt_nat p) = Some mac \<and>
     link_src q = if_mac out \<and> link_dst q = mac \<and> pkt_end q = pkt_end p \<and>
     (if dnat p then Some (ip_daddr (pkt_FRAME q) 18) = nat_dst_ip (pkt_nat p) \<and>
                     ip_saddr (pkt_FRAME q) 18 = ip_saddr (pkt_FRAME p) 18
      else Some (ip_saddr (pkt_FRAME q) 18) = nat_src_ip (pkt_nat p) \<and>
           ip_daddr (pkt_FRAME q) 18 = ip_daddr (pkt_FRAME p) 18) \<and>
     65535 dvd net_sum (pkt_FRAME q) 18 20 \<and>
     (if ip_protocol (pkt_FRAME p) 18 = IPPROTO_TCP then 65535 dvd tcp_segment_sum (pkt_FRAME q) 18
      else get16 (pkt_FRAME q) (pkt_l4 p + 6) = 0) \<and>
     (\<forall>i \<ge> 18. i \<notin> {28, 29} \<union> {30..<38} \<union>
        (if ip_protocol (pkt_FRAME p) 18 = IPPROTO_TCP then {pkt_l4 p + 16, pkt_l4 p + 17} else {pkt_l4 p + 6, pkt_l4 p + 7}) \<longrightarrow>
        pkt_FRAME q i = pkt_FRAME p i)"
proof (rule nat_pkt_effect [OF assms(1-3)], use assms(4) in blast)
  fix out mac
  assume e: "get_iface s (pkt_out p) = Inr out" "nat_dst_mac (pkt_nat p) = Some mac"
    "pkt_rewr (NATBYTES p) p q" "link_src q = if_mac out" "link_dst q = mac"
    "dnat p \<Longrightarrow> Some (ip_daddr (pkt_FRAME q) 18) = nat_dst_ip (pkt_nat p) \<and> ip_saddr (pkt_FRAME q) 18 = ip_saddr (pkt_FRAME p) 18"
    "snat p \<Longrightarrow> Some (ip_saddr (pkt_FRAME q) 18) = nat_src_ip (pkt_nat p) \<and> ip_daddr (pkt_FRAME q) 18 = ip_daddr (pkt_FRAME p) 18"
    "in_cksum (pkt_FRAME q) 18 20 = 0"
    "ip_protocol (pkt_FRAME p) 18 = IPPROTO_TCP \<Longrightarrow> tcp_checksum (pkt_FRAME q) (pkt_flen q) 18 = Inr 0"
    "ip_protocol (pkt_FRAME p) 18 \<noteq> IPPROTO_TCP \<Longrightarrow> get16 (pkt_FRAME q) 44 = 0"
  have l4: "pkt_l4 p = 38" using assms(2,5) by (auto simp: pkt_wf_def Let_def)
  have "ip_ihl (pkt_FRAME q) 18 = 5"
    using rewr_get(3) [OF e(3), of 18] assms(5) by (auto simp: ip_ihl_def NATBYTES_def ADDRS_def L4SUM_def IPSUM_def)
  then have "ip_protocol (pkt_FRAME p) 18 = IPPROTO_TCP \<Longrightarrow> 65535 dvd tcp_segment_sum (pkt_FRAME q) 18"
    using e(9) by (intro tcp_checksum_net)
  moreover have "65535 dvd net_sum (pkt_FRAME q) 18 20" by (rule in_cksum_net [OF e(8)]) simp
  moreover have "pkt_FRAME q i = pkt_FRAME p i" if "18 \<le> i" "i \<notin> NATBYTES p" for i
    using e(3) that by (simp add: pkt_rewr_def)
  ultimately show ?thesis using e assms(3) l4
    by (auto simp: pkt_rewr_def NATBYTES_def ADDRS_def L4SUM_def IPSUM_def)
qed

text \<open>The packet of the scenario on its way to the front handler.\<close>

definition ex_dnat :: pkt_struct where
  "ex_dnat = nat_to_handler ex_pkt ex_front LIH"

lemma ex_pkt_wf: "pkt_wf ex_pkt"
  using process_packet_shape(1) [OF process_ex_syn] .

lemma pkt_wf_cong:
  "pkt_FRAME q = pkt_FRAME p \<Longrightarrow> pkt_flen q = pkt_flen p \<Longrightarrow> pkt_ip q = pkt_ip p \<Longrightarrow> pkt_eth q = pkt_eth p \<Longrightarrow>
   pkt_l4 q = pkt_l4 p \<Longrightarrow> pkt_size q = pkt_size p \<Longrightarrow> pkt_wf q = pkt_wf p"
  by (simp add: pkt_wf_def)

lemma ex_pkt_frame:
  "ip_ihl (pkt_FRAME ex_pkt) 18 = 5" "ip_protocol (pkt_FRAME ex_pkt) 18 = IPPROTO_TCP"
  "unat (ntohs (ip_tot_len (pkt_FRAME ex_pkt) 18)) = 40" "pkt_flen ex_pkt = 74" "pkt_origin ex_pkt = EXT"
  "pkt_eth ex_pkt = 4" "pkt_ip ex_pkt = 18" "pkt_l4 ex_pkt = 38" "pkt_size ex_pkt = 54"
  by (simp_all add: ex_pkt_def zero_pkt_def ex_syn_at frame_eval)

lemma ex_dnat_facts:
  "pkt_wf ex_dnat" "nat_ready ex_state ex_dnat" "dnat ex_dnat" "\<not> is_vlan ex_dnat"
  "ip_protocol (pkt_FRAME ex_dnat) 18 = IPPROTO_TCP" "pkt_flen ex_dnat = 74" "pkt_end ex_dnat = 58"
  "tcp_fits (pkt_FRAME ex_dnat) (pkt_flen ex_dnat)"
proof -
  have same: "pkt_FRAME ex_dnat = pkt_FRAME ex_pkt" "pkt_flen ex_dnat = pkt_flen ex_pkt" "pkt_ip ex_dnat = pkt_ip ex_pkt"
    "pkt_eth ex_dnat = pkt_eth ex_pkt" "pkt_l4 ex_dnat = pkt_l4 ex_pkt" "pkt_size ex_dnat = pkt_size ex_pkt"
    "pkt_origin ex_dnat = EXT"
    by (simp_all add: ex_dnat_def nat_to_handler_def ex_pkt_frame)
  show wf: "pkt_wf ex_dnat" using ex_pkt_wf pkt_wf_cong [OF same(1-6)] by simp
  show "dnat ex_dnat" by (simp add: dnat_def same)
  show "nat_ready ex_state ex_dnat"
    by (simp add: nat_ready_def same dnat_def snat_def)
      (simp add: ex_dnat_def nat_to_handler_def ex_front_def get_iface_def)
  show "\<not> is_vlan ex_dnat" using is_vlan_iff [OF pkt_wf_link(1) [OF wf]] by (simp add: same ex_pkt_frame)
  show pr: "ip_protocol (pkt_FRAME ex_dnat) 18 = IPPROTO_TCP" and fl: "pkt_flen ex_dnat = 74" and e: "pkt_end ex_dnat = 58"
    using ex_pkt_frame by (simp_all add: same pkt_end_def)
  show "tcp_fits (pkt_FRAME ex_dnat) (pkt_flen ex_dnat)"
    by (rule tcp_fits_intro [OF wf pr]) (simp_all add: e fl, simp_all add: same ex_pkt_frame)
qed

theorem nat_translates_witness:
  "\<exists>q. nat_pkt ex_state ex_dnat = Inr q \<and> link_src q = if_mac ex_downlink \<and> Some (link_dst q) = hd_mac ex_front \<and>
     Some (ip_daddr (pkt_FRAME q) 18) = hd_ip ex_front \<and> 65535 dvd tcp_segment_sum (pkt_FRAME q) 18"
proof -
  note e = ex_dnat_facts
  from nat_pkt_outcome(1) [of ex_dnat ex_state] e obtain q where q: "nat_pkt ex_state ex_dnat = Inr q" by blast
  have o: "pkt_out ex_dnat = Some 12" "pkt_nat ex_dnat = null_nat\<lparr>nat_dst_mac := hd_mac ex_front,
      nat_dst_ip := hd_ip ex_front, nat_dst_vlan := Some 0\<rparr>"
    by (simp_all add: ex_dnat_def nat_to_handler_def ex_front_def ex_pkt_def zero_pkt_def)
  have "ip_ihl (pkt_FRAME ex_dnat) 18 = 5" by (simp add: ex_dnat_def nat_to_handler_def ex_pkt_frame)
  from nat_translates [OF q e(1) _ _ this] e(3-5) q show ?thesis by (auto simp: o get_iface_def)
qed

text \<open>C28: The checksum fields are written at a fixed distance from the IP header.  In a packet with one word of IP
  options (\<open>ihl\<close> is 6, which the program accepts) \<open>nat\<close> leaves the checksum of a TCP segment as it was, although an
  address that it covers is replaced, and clears the destination port of a UDP datagram.\<close>

theorem nat_options_damaged:
  assumes "nat_pkt s p = Inr q" and "pkt_wf p" and "dnat p \<or> snat p" and "pkt_origin p = EXT \<Longrightarrow> \<not> is_vlan p"
    and "ip_ihl (pkt_FRAME p) 18 = 6"
  shows "if ip_protocol (pkt_FRAME p) 18 = IPPROTO_TCP then get16 (pkt_FRAME q) (pkt_l4 p + 16) = get16 (pkt_FRAME p) (pkt_l4 p + 16)
    else l4_dest (pkt_FRAME q) (pkt_l4 p) = 0"
proof -
  have l4: "pkt_l4 p = 42" using assms(2,5) by (auto simp: pkt_wf_def Let_def)
  have r: "pkt_rewr (NATBYTES p) p q" and u: "ip_protocol (pkt_FRAME p) 18 \<noteq> IPPROTO_TCP \<Longrightarrow> get16 (pkt_FRAME q) 44 = 0"
    by (rule nat_pkt_effect [OF assms(1-3)], use assms(4) in blast, assumption+)+
  have "get16 (pkt_FRAME q) 58 = get16 (pkt_FRAME p) 58" if "ip_protocol (pkt_FRAME p) 18 = IPPROTO_TCP"
    using rewr_get(1) [OF r, of 58] that by (simp add: NATBYTES_def ADDRS_def L4SUM_def IPSUM_def)
  then show ?thesis using u by (simp add: l4)
qed

text \<open>The packet of the scenario as a UDP datagram to port 53 with one word of IP options.\<close>

definition ex_udp :: mem where
  "ex_udp = ex_syn(14 := 0x46, 23 := 17, 38 := 0x30, 39 := 0x39, 41 := 53)"

definition ex_udp_pkt :: pkt_struct where
  "ex_udp_pkt = (zero_pkt 11 (\<lambda>i. if i < 4 then 0 else ex_udp (i - 4)) 74 4
       (null_headers\<lparr>oh_eth := Some ex_udp, oh_ip := Some (\<lambda>i. ex_udp (14 + i)),
                     oh_udp := Some (\<lambda>i. ex_udp (38 + i))\<rparr>) 54)
     \<lparr>pkt_l4 := 42, pkt_payload := 50, pkt_data := 8\<rparr>"

lemma ex_udp_at:
  "ex_udp (Suc 0) = 0" "ex_udp 14 = 0x46" "ex_udp 23 = 17" "ex_udp 38 = 0x30" "ex_udp 39 = 0x39" "ex_udp 41 = 53"
  "i \<notin> {14, 23, 38, 39, 41} \<Longrightarrow> ex_udp i = ex_syn i"
  by (simp_all add: ex_udp_def ex_syn_at)

lemma process_ex_udp: "process_packet ex_state 11 ex_header ex_udp = Inr (Some ex_udp_pkt)"
  by (simp add: process_packet_def ex_header_def ex_udp_at ex_syn_at Let_def frame_eval init_pkt_def init_eth_def
      init_l4_def memdup_def zero_pkt_def get_iface_def ex_udp_pkt_def)

theorem nat_options_damaged_witness:
  "\<exists>q. process_packet ex_state 11 ex_header ex_udp = Inr (Some ex_udp_pkt) \<and> l4_dest (pkt_FRAME ex_udp_pkt) 42 = htons 53 \<and>
     nat_pkt ex_state (nat_to_handler ex_udp_pkt ex_front LIH) = Inr q \<and> l4_dest (pkt_FRAME q) 42 = 0"
proof -
  let ?p = "nat_to_handler ex_udp_pkt ex_front LIH"
  have f: "ip_ihl (pkt_FRAME ?p) 18 = 6" "ip_protocol (pkt_FRAME ?p) 18 = 17" "pkt_origin ?p = EXT" "pkt_eth ?p = 4" "pkt_l4 ?p = 42"
    by (simp_all add: nat_to_handler_def ex_udp_pkt_def zero_pkt_def ex_udp_at ex_syn_at frame_eval)
  have wf: "pkt_wf ?p"
    using process_packet_shape(1) [OF process_ex_udp] pkt_wf_cong [of ?p ex_udp_pkt] by (simp add: nat_to_handler_def)
  have d: "dnat ?p \<or> snat ?p" by (simp add: dnat_def f)
  have v: "\<not> is_vlan ?p" using is_vlan_iff [OF pkt_wf_link(1) [OF wf]] by (simp add: f)
  have "nat_ready ex_state ?p"
    by (simp add: nat_ready_def f dnat_def snat_def) (simp add: nat_to_handler_def ex_front_def get_iface_def)
  from nat_pkt_outcome(1) [OF wf this d v] f(2) obtain q where q: "nat_pkt ex_state ?p = Inr q" by auto
  have "l4_dest (pkt_FRAME ex_udp_pkt) 42 = htons 53"
    by (simp add: ex_udp_pkt_def zero_pkt_def ex_udp_at ex_syn_at frame_eval)
  then show ?thesis using nat_options_damaged [OF q wf d v f(1)] f(2,5) q process_ex_udp by auto
qed

text \<open>C37: A TCP packet that claims an IP length below its IP header plus 20 bytes (and passes every check on the way
  in) makes the program copy a negative number of bytes when it translates the packet, towards a honeypot or towards
  the attacker.  The addresses the translation needs are set, and a packet from outside has no VLAN tag.\<close>

theorem nat_short_tcp_crash:
  assumes "pkt_wf p" and "nat_ready s p" and "dnat p \<or> snat p" and "pkt_origin p = EXT \<Longrightarrow> \<not> is_vlan p"
    and "ip_protocol (pkt_FRAME p) 18 = IPPROTO_TCP"
    and "unat (ntohs (ip_tot_len (pkt_FRAME p) 18)) < 4 * ip_ihl (pkt_FRAME p) 18 + 20"
  shows "nat_pkt s p = Inl OutOfBounds"
  using nat_pkt_outcome(2) [OF assms(1-4)] assms(5) short_not_fits [OF assms(6)] by blast

text \<open>The SYN of the scenario with one word of IP options and an IP length of 40.\<close>

definition ex_short :: mem where
  "ex_short = ex_syn(14 := 0x46, 38 := 0x30, 41 := 80, 50 := 0x50, 51 := 2)"

definition ex_short_pkt :: pkt_struct where
  "ex_short_pkt = (zero_pkt 11 (\<lambda>i. if i < 4 then 0 else ex_short (i - 4)) 74 4
       (null_headers\<lparr>oh_eth := Some ex_short, oh_ip := Some (\<lambda>i. ex_short (14 + i)),
                     oh_tcp := Some (\<lambda>i. ex_short (38 + i))\<rparr>) 54)
     \<lparr>pkt_l4 := 42, pkt_payload := 62, pkt_data := - 4\<rparr>"

lemma ex_short_at:
  "ex_short (Suc 0) = 0" "ex_short 14 = 0x46" "ex_short 38 = 0x30" "ex_short 41 = 80" "ex_short 50 = 0x50"
  "i \<notin> {14, 38, 41, 50, 51} \<Longrightarrow> ex_short i = ex_syn i"
  by (simp_all add: ex_short_def ex_syn_at)

lemma process_ex_short: "process_packet ex_state 11 ex_header ex_short = Inr (Some ex_short_pkt)"
  by (simp add: process_packet_def ex_header_def ex_short_at ex_syn_at Let_def frame_eval init_pkt_def init_eth_def
      init_l4_def memdup_def zero_pkt_def get_iface_def ex_short_pkt_def)

theorem nat_short_tcp_crash_witness:
  "process_packet ex_state 11 ex_header ex_short = Inr (Some ex_short_pkt) \<and>
   nat_pkt ex_state (nat_to_handler ex_short_pkt ex_front LIH) = Inl OutOfBounds"
proof
  show "process_packet ex_state 11 ex_header ex_short = Inr (Some ex_short_pkt)" by (rule process_ex_short)
  let ?p = "nat_to_handler ex_short_pkt ex_front LIH"
  have f: "ip_ihl (pkt_FRAME ?p) 18 = 6" "pkt_FRAME ?p (18 + 9) = IPPROTO_TCP"
    "unat (ntohs (ip_tot_len (pkt_FRAME ?p) 18)) = 40" "pkt_origin ?p = EXT" "pkt_eth ?p = 4"
    by (simp_all add: nat_to_handler_def ex_short_pkt_def zero_pkt_def ex_short_at ex_syn_at frame_eval)
  have wf: "pkt_wf ?p"
    using process_packet_shape(1) [OF process_ex_short] pkt_wf_cong [of ?p ex_short_pkt]
    by (simp add: nat_to_handler_def)
  show "nat_pkt ex_state ?p = Inl OutOfBounds"
  proof (rule nat_short_tcp_crash [OF wf])
    show "nat_ready ex_state ?p"
      by (simp add: nat_ready_def f dnat_def snat_def)
        (simp add: nat_to_handler_def ex_front_def get_iface_def)
    show "\<not> is_vlan ?p" using is_vlan_iff [OF pkt_wf_link(1) [OF wf]] by (simp add: f)
  qed (use f in \<open>simp_all add: dnat_def\<close>)
qed

text \<open>C12: A redirection is invisible in the sequence numbers.  A segment of the HIH reaches the attacker
  shifted by the connection's delta; when the attacker acknowledges n bytes beyond it, the HIH receives
  an acknowledgement of n bytes beyond the segment it sent.\<close>

theorem forward_numbers:
  assumes "forward_hih2ext E s conn p = Inr (r, q, s')" and "plain_tcp p"
    and "get_target s (cn_target conn) = Inr t" and "tg_default_route t = Some i"
    and "forward_ext2hih E s' conn p' = Inr (r', q', s'')" and "plain_tcp p'" and "tcp_ack (pkt_FRAME p') 38"
    and "hih_back_handler (cn_hih conn) = Some hp" and "st_handlers s' hp = Some h"
    and "get_iface s' (hd_iface h) = Inr out"
    and "ack_of p' = seq_of q + n"
  shows "seq_of q = seq_of p + hih_delta (cn_hih conn) \<and> ack_of q' = seq_of p + n \<and>
    l4_source (pkt_FRAME q) 38 = l4_dest (pkt_FRAME q') 38"
  using forward_hih2ext_effect(1,3) [OF assms(1-4)] forward_ext2hih_effect(1,3) [OF assms(5,6,8-10)] assms(7,11)
  by simp

text \<open>C13: Forwarding delivers.  Take a TCP packet without IP options whose lengths fit, of a redirected connection whose
  target has a default route and whose handler has its addresses; and, towards the outside, let the replay have
  recorded no problem or the segment have no TCP options (the rewriting of time stamps may not end otherwise).  In either
  direction the frame is handed to the right interface exactly once, the answer says whether the interface took it, and
  the frame is the rewritten one: towards the attacker it carries the addresses the attacker talked to, the port of the
  connection and the sequence number moved by the delta; towards the HIH the addresses and the port of the HIH and, when
  it acknowledges, the number moved back.  Both have valid IP and TCP checksums.\<close>

theorem forward_delivers:
  assumes "plain_tcp p" and "tcp_fits (pkt_FRAME p) (pkt_flen p)" and "pkt_end p \<le> pkt_flen p"
    and "get_target s (cn_target conn) = Inr t" and "tg_default_route t = Some i" and "st_ifaces s i \<noteq> None"
    and "cn_replay_problem conn = 0 \<or> tcp_doff (pkt_FRAME p) 38 = 5"
    and "hih_back_handler (cn_hih conn) = Some hp" and "st_handlers s hp = Some h"
    and "hd_iface h = Some j" and "st_ifaces s j = Some out" and "hd_mac h = Some mac" and "hd_ip h = Some ip"
  shows "(\<exists>q. forward_hih2ext E s conn p =
            Inr (if ev_inject E i (wire q) then OK else NOK, q, snd (pcap_inject E s i (wire q))) \<and>
          link_src q = cn_first_pkt_dst_mac conn \<and> link_dst q = cn_first_pkt_src_mac conn \<and>
          ip_saddr (pkt_FRAME q) 18 = cn_first_pkt_dst_ip conn \<and> ip_daddr (pkt_FRAME q) 18 = ip_daddr (pkt_FRAME p) 18 \<and>
          l4_source (pkt_FRAME q) 38 = hih_port (cn_hih conn) \<and> seq_of q = seq_of p + hih_delta (cn_hih conn) \<and>
          ack_of q = ack_of p \<and> 65535 dvd net_sum (pkt_FRAME q) 18 20 \<and> 65535 dvd tcp_segment_sum (pkt_FRAME q) 18) \<and>
         (\<exists>q. forward_ext2hih E s conn p =
            Inr (if ev_inject E j (wire q) then OK else NOK, q, snd (pcap_inject E s j (wire q))) \<and>
          link_src q = if_mac out \<and> link_dst q = mac \<and>
          ip_saddr (pkt_FRAME q) 18 = ip_saddr (pkt_FRAME p) 18 \<and> ip_daddr (pkt_FRAME q) 18 = ip \<and>
          l4_dest (pkt_FRAME q) 38 = hih_port (cn_hih conn) \<and> seq_of q = seq_of p \<and>
          (tcp_ack (pkt_FRAME p) 38 \<longrightarrow> ack_of q = ack_of p - hih_delta (cn_hih conn)) \<and>
          65535 dvd net_sum (pkt_FRAME q) 18 20 \<and> 65535 dvd tcp_segment_sum (pkt_FRAME q) 18)"
proof (rule conjI, goal_cases)
  case 1
  obtain q where q: "forward_hih2ext E s conn p =
      Inr (if ev_inject E i (wire q) then OK else NOK, q, snd (pcap_inject E s i (wire q)))"
    using forward_hih2ext_total [OF assms(1-7)] ..
  note e = forward_hih2ext_effect [OF q assms(1,4,5)]
  show ?case using q e in_cksum_net [OF e(10)] tcp_checksum_net [OF e(11,12)] by auto
next
  case 2
  obtain q where q: "forward_ext2hih E s conn p =
      Inr (if ev_inject E j (wire q) then OK else NOK, q, snd (pcap_inject E s j (wire q)))"
    using forward_ext2hih_total [OF assms(1-3,8-13)] ..
  have g: "get_iface s (hd_iface h) = Inr out" using assms(10,11) by (simp add: get_iface_def)
  note e = forward_ext2hih_effect [OF q assms(1,8,9) g]
  show ?case using q e assms(12,13) in_cksum_net [OF e(9)] tcp_checksum_net [OF e(10,11)] by auto
qed

text \<open>A redirected connection of the scenario, and the attacker's acknowledgement of the HIH's first
  segment (the bytes of the SYN with ACK set and acknowledgement number 106).\<close>

definition ex_redirected :: conn_struct where
  "ex_redirected = (zero_conn 50)\<lparr>cn_protocol := 6, cn_state := FORWARD, cn_first_pkt_dst_ip := 0x010000C6,
     cn_hih := zero_hih\<lparr>hih_hihID := 1, hih_back_handler := Some 22, hih_port := 0x5000, hih_delta := 5\<rparr>\<rparr>"

definition ex_ack :: pkt_struct where
  "ex_ack = ex_pkt\<lparr>pkt_FRAME := (pkt_FRAME ex_pkt)(49 := 106, 51 := 0x10)\<rparr>"

lemma ex_pkt_plain: "plain_tcp ex_pkt" "tcp_fits (pkt_FRAME ex_pkt) (pkt_flen ex_pkt)" "pkt_end ex_pkt \<le> pkt_flen ex_pkt"
proof -
  have e: "pkt_end ex_pkt = 58" using ex_pkt_frame by (simp add: pkt_end_def)
  then show "pkt_end ex_pkt \<le> pkt_flen ex_pkt" using ex_pkt_frame by simp
  show "plain_tcp ex_pkt" using ex_pkt_wf ex_pkt_frame by (simp add: plain_tcp_def)
  show "tcp_fits (pkt_FRAME ex_pkt) (pkt_flen ex_pkt)"
    by (rule tcp_fits_intro [OF ex_pkt_wf]) (use ex_pkt_frame e in simp_all)
qed

lemma ex_ack_plain: "plain_tcp ex_ack" "tcp_fits (pkt_FRAME ex_ack) (pkt_flen ex_ack)" "pkt_end ex_ack \<le> pkt_flen ex_ack"
  "tcp_ack (pkt_FRAME ex_ack) 38" "ack_of ex_ack = 106"
proof -
  let ?f = "(pkt_FRAME ex_pkt)(49 := 106, 51 := 0x10)"
  have r: "pkt_rewr {49, 51} ex_pkt ex_ack" unfolding ex_ack_def
    using relink_frame [OF pkt_wf_link(1) [OF ex_pkt_wf], of ?f "{49, 51}"] by (simp add: relink_def)
  show "plain_tcp ex_ack" using pkt_wf_rewr [OF ex_pkt_wf ex_pkt_frame(1) r] ex_pkt_plain(1)
    by (simp add: plain_tcp_def ex_ack_def)
  show "tcp_fits (pkt_FRAME ex_ack) (pkt_flen ex_ack)" "pkt_end ex_ack \<le> pkt_flen ex_ack"
    using ex_pkt_plain(2,3) tcp_fits_cong [of ?f "pkt_FRAME ex_pkt"] by (simp_all add: ex_ack_def pkt_end_def)
  show "tcp_ack (pkt_FRAME ex_ack) 38" by (simp add: ex_ack_def tcp_ack_def bit_simps)
  show "ack_of ex_ack = 106" by (simp add: ack_of_def ex_ack_def ex_pkt_def zero_pkt_def ex_syn_at frame_eval)
qed

lemma ex_redirected_at:
  "get_target ex_state (cn_target ex_redirected) = Inr ex_target" "tg_default_route ex_target = Some 11"
  "hih_back_handler (cn_hih ex_redirected) = Some 22" "hd_iface ex_back = Some 12" "cn_replay_problem ex_redirected = 0"
  "hd_mac ex_back = Some 0x0B0000000002" "hd_ip ex_back = Some 0x0300000A" "hih_delta (cn_hih ex_redirected) = 5"
  by (simp_all add: ex_redirected_def zero_conn_def get_target_def ex_target_def ex_back_def)

theorem forward_delivers_witness:
  "\<exists>q. forward_hih2ext ex_env ex_state ex_redirected ex_pkt = Inr (OK, q, ex_state\<lparr>st_sent := [(11, wire q)]\<rparr>) \<and>
     ip_saddr (pkt_FRAME q) 18 = 0x010000C6 \<and> seq_of q = seq_of ex_pkt + 5"
  using forward_delivers [OF ex_pkt_plain ex_redirected_at(1,2) _ disjI1 [OF ex_redirected_at(5)] ex_redirected_at(3) _ ex_redirected_at(4) _ ex_redirected_at(6,7), where E = ex_env]
  by (auto simp: ex_env_def pcap_inject_def ex_state_def ex_redirected_at(8)) (auto simp: ex_redirected_def)

theorem forward_numbers_witness:
  "\<exists>q s' q' s''. forward_hih2ext ex_env ex_state ex_redirected ex_pkt = Inr (OK, q, s') \<and>
     forward_ext2hih ex_env s' ex_redirected ex_ack = Inr (OK, q', s'') \<and> seq_of q = 105 \<and> ack_of q' = 101"
proof -
  obtain q s' where f: "forward_hih2ext ex_env ex_state ex_redirected ex_pkt = Inr (OK, q, s')"
    and s': "s' = ex_state\<lparr>st_sent := [(11, wire q)]\<rparr>"
    using forward_hih2ext_total [OF ex_pkt_plain ex_redirected_at(1,2) _ disjI1 [OF ex_redirected_at(5)], of ex_env]
    by (auto simp: ex_env_def pcap_inject_def ex_state_def)
  have h: "st_handlers s' 22 = Some ex_back" "st_ifaces s' 12 = Some ex_downlink" by (simp_all add: s')
  obtain q' s'' where g: "forward_ext2hih ex_env s' ex_redirected ex_ack = Inr (OK, q', s'')"
    using forward_ext2hih_total [OF ex_ack_plain(1-3) ex_redirected_at(3) h(1) ex_redirected_at(4) h(2) ex_redirected_at(6,7), where E = ex_env]
    by (auto simp: ex_env_def pcap_inject_def)
  have sq: "seq_of ex_pkt = 100" by (simp add: seq_of_def ex_pkt_def zero_pkt_def ex_syn_at frame_eval)
  have "seq_of q = 105" using forward_hih2ext_effect(1) [OF f ex_pkt_plain(1) ex_redirected_at(1,2)] sq
    by (simp add: ex_redirected_at)
  moreover have "get_iface s' (hd_iface ex_back) = Inr ex_downlink" using h by (simp add: get_iface_def ex_redirected_at)
  ultimately show ?thesis
    using forward_numbers [OF f ex_pkt_plain(1) ex_redirected_at(1,2) g ex_ack_plain(1,4) ex_redirected_at(3) h(1), of ex_downlink 1]
      f g sq ex_ack_plain(5) by auto
qed

end
