(* ===== verification/Replay.thy ===== *)
theory Replay
  imports Nat_Rewrite
begin

text \<open>
  The replay of a redirected connection (\<open>netcode.c\<close>): what a packet of the LIH
  makes the HIH be expected to answer, the comparison of a packet of the HIH
  with that, and the loop that sends the buffered packets of the attacker to
  the HIH until the next packet of the LIH.  The loop mutates the buffered
  packets (forwarding rewrites a frame in place), so it carries the buffer.
\<close>

section \<open>Expected data\<close>

text \<open>The bytes a payload pointer can be read for: up to the end of its frame.\<close>

definition payload_bytes :: "pkt_struct \<Rightarrow> byte list" where
  "payload_bytes p = memget (pkt_FRAME p) (pkt_payload p) (pkt_flen p - pkt_payload p)"

definition define_expected_data :: "conn_struct \<Rightarrow> pkt_struct \<Rightarrow> conn_struct res" where
  "define_expected_data conn pkt =
     (let f = pkt_FRAME pkt; flen = pkt_flen pkt; l4 = pkt_l4 pkt in
      rbind (inside flen (pkt_ip pkt + 10)) (\<lambda>_.
      let proto = ip_protocol f (pkt_ip pkt);
          ex = (cn_expected_data conn)\<lparr>ex_ip_proto := ucast proto, ex_payload := Some (payload_bytes pkt)\<rparr> in
      if proto = IPPROTO_TCP then
        rbind (inside flen (l4 + 12)) (\<lambda>_.
        rbind (get_tcp_timestamps f flen l4) (\<lambda>ts.
        Inr (conn\<lparr>cn_expected_data := ex\<lparr>
               ex_tcp_seq := ntohl (tcp_seq f l4) + NOT (hih_delta (cn_hih conn)) + 1,
               ex_tcp_ack_seq := ntohl (tcp_ack_seq f l4),
               ex_tcp_ts := (case ts of Some (temp, _) \<Rightarrow> uint temp | None \<Rightarrow> -1)\<rparr>\<rparr>)))
      else Inr (conn\<lparr>cn_expected_data := ex\<rparr>)))"

text \<open>Whether \<open>strncmp\<close> of two buffers gives 0; reading past a buffer is a fault.\<close>

fun strncmp_eq :: "byte list \<Rightarrow> byte list \<Rightarrow> nat \<Rightarrow> bool res" where
  "strncmp_eq a b 0 = Inr True"
| "strncmp_eq (x # a) (y # b) (Suc n) =
     (if x \<noteq> y then Inr False else if x = 0 then Inr True else strncmp_eq a b n)"
| "strncmp_eq a b (Suc n) = Inl OutOfBounds"

definition add_problem :: "conn_struct \<Rightarrow> u32 \<Rightarrow> conn_struct" where
  "add_problem conn x = conn\<lparr>cn_replay_problem := cn_replay_problem conn OR x\<rparr>"

text \<open>The comparison of the timestamps: none of its outcomes is a failure.\<close>

definition test_ts :: "conn_struct \<Rightarrow> int \<Rightarrow> conn_struct" where
  "test_ts conn tcp_ts =
     (let ets = ex_tcp_ts (cn_expected_data conn) in
      if ets = -1 \<and> tcp_ts \<noteq> -1 then add_problem conn REPLAY_UNEXPECTED_TCP_TS
      else if ets > -1 \<and> tcp_ts > -1 \<and> tcp_ts \<noteq> ets then
        add_problem (conn\<lparr>cn_tcp_ts_diff := ets - tcp_ts\<rparr>) REPLAY_TCP_TS_OUTOFSYNC
      else if ets > -1 \<and> tcp_ts = -1 then add_problem conn REPLAY_EXPECTED_TCP_TS
      else conn)"

definition test_payload :: "conn_struct \<Rightarrow> pkt_struct \<Rightarrow> conn_struct res" where
  "test_payload conn pkt =
     rbind (nonnull (ex_payload (cn_expected_data conn))) (\<lambda>pl.
     rbind (strncmp_eq (payload_bytes pkt) pl (unat (pkt_data pkt))) (\<lambda>eq.
     Inr (if eq then conn else add_problem conn REPLAY_UNEXPECTED_PAYLOAD)))"

definition test_expected :: "conn_struct \<Rightarrow> pkt_struct \<Rightarrow> (status_t \<times> conn_struct) res" where
  "test_expected conn pkt =
     (let f = pkt_FRAME pkt; flen = pkt_flen pkt; l4 = pkt_l4 pkt; ex = cn_expected_data conn in
      rbind (inside flen (pkt_ip pkt + 10)) (\<lambda>_.
      let proto = ip_protocol f (pkt_ip pkt) in
      if ucast proto \<noteq> ex_ip_proto ex then Inr (NOK, add_problem conn REPLAY_UNEXPECTED_PROTOCOL)
      else if proto = IPPROTO_TCP then
        rbind (inside flen (l4 + 14)) (\<lambda>_.
        if \<not> tcp_syn f l4 \<and> ntohl (tcp_seq f l4) \<noteq> ex_tcp_seq ex
        then Inr (NOK, add_problem conn REPLAY_UNEXPECTED_TCP_SEQ)
        else if ntohl (tcp_ack_seq f l4) \<noteq> ex_tcp_ack_seq ex
        then Inr (NOK, add_problem conn REPLAY_UNEXPECTED_TCP_ACK)
        else rbind (get_tcp_timestamps f flen l4) (\<lambda>ts.
          rbind (test_payload (test_ts conn (case ts of Some (temp, _) \<Rightarrow> uint temp | None \<Rightarrow> -1)) pkt)
            (\<lambda>conn. Inr (OK, conn))))
      else rbind (test_payload conn pkt) (\<lambda>conn. Inr (OK, conn))))"

section \<open>The replay loop\<close>

text \<open>\<open>g_slist_nth_data\<close>: NULL past the end of the list.\<close>

definition nth_data :: "'a list \<Rightarrow> nat \<Rightarrow> 'a option" where
  "nth_data xs i = (if i < length xs then Some (xs ! i) else None)"

function replay_loop ::
  "env \<Rightarrow> hb_state \<Rightarrow> conn_struct \<Rightarrow> pkt_struct list \<Rightarrow> nat \<Rightarrow> int \<Rightarrow> (conn_struct \<times> hb_state) res" where
  "replay_loop E s conn buf i de =
     (case nth_data buf i of
        None \<Rightarrow> Inl NullDeref
      | Some current \<Rightarrow>
          if pkt_origin current = EXT \<or> de = 1 then
            rbind (if pkt_origin current = EXT then forward_ext2hih E s conn current
                   else Inr (NOK, current, s)) (\<lambda>(_, q, s).
            if length buf \<le> i + 1
            then Inr (switch_state (conn\<lparr>cn_BUFFER := buf[i := q], cn_replay_id := i\<rparr>) FORWARD, s)
            else replay_loop E s conn (buf[i := q]) (i + 1)
                   (if de = 0 then pkt_DE (buf ! (i + 1)) else de))
          else
            rbind (define_expected_data conn current) (\<lambda>conn.
            Inr (conn\<lparr>cn_BUFFER := buf, cn_replay_id := i + 1\<rparr>, s)))"
  by pat_completeness auto
termination
  by (relation "measure (\<lambda>(E, s, conn, buf, i, de). length buf - i)")
    (auto simp: nth_data_def split: if_splits)

declare replay_loop.simps [simp del]

definition replay :: "env \<Rightarrow> hb_state \<Rightarrow> conn_struct \<Rightarrow> pkt_struct \<Rightarrow> (status_t \<times> conn_struct \<times> hb_state) res" where
  "replay E s conn pkt =
     (if pkt_origin pkt \<noteq> HIH then Inr (NOK, conn, s)
      else
        rbind (test_expected conn pkt) (\<lambda>(flag, conn).
        if flag = OK then
          rbind (nonnull (nth_data (cn_BUFFER conn) (cn_replay_id conn))) (\<lambda>current.
          rbind (replay_loop E s conn (cn_BUFFER conn) (cn_replay_id conn) (pkt_DE current)) (\<lambda>(conn, s).
          Inr (OK, conn, s)))
        else Inr (OK, conn, s)))"

section \<open>What the comparison accepts\<close>

lemma add_problem_simps [simp]:
  "cn_replay_id (add_problem c x) = cn_replay_id c" "cn_BUFFER (add_problem c x) = cn_BUFFER c"
  "cn_hih (add_problem c x) = cn_hih c" "cn_state (add_problem c x) = cn_state c"
  "cn_expected_data (add_problem c x) = cn_expected_data c"
  "cn_replay_problem (add_problem c x) = cn_replay_problem c OR x"
  by (simp_all add: add_problem_def)

text \<open>The comparison changes the recorded problems and the timestamp difference, nothing else.\<close>

definition noted :: "conn_struct \<Rightarrow> conn_struct \<Rightarrow> bool" where
  "noted c c' \<longleftrightarrow> c' = c\<lparr>cn_replay_problem := cn_replay_problem c', cn_tcp_ts_diff := cn_tcp_ts_diff c'\<rparr>"

lemma noted_refl [simp]: "noted c c"
  by (simp add: noted_def)

lemma noted_trans: "noted a b \<Longrightarrow> noted b c \<Longrightarrow> noted a c"
  unfolding noted_def by (cases a, cases b, cases c) simp

lemma noted_add [simp]: "noted c (add_problem c x)"
  by (simp add: noted_def add_problem_def)

lemma noted_test_ts: "noted c (test_ts c ts)"
  by (simp add: noted_def test_ts_def Let_def add_problem_def)

lemma noted_test_payload: "test_payload c p = Inr c' \<Longrightarrow> noted c c'"
  by (auto simp: test_payload_def rbind_simps)

lemma noted_fields:
  assumes "noted c c'"
  shows "cn_replay_id c' = cn_replay_id c" "cn_BUFFER c' = cn_BUFFER c" "cn_hih c' = cn_hih c"
    "cn_state c' = cn_state c" "cn_expected_data c' = cn_expected_data c"
  by (metis assms noted_def conn_struct.simps conn_struct.select_convs conn_struct.surjective)+

lemma test_expected_noted: "test_expected c p = Inr (r, c') \<Longrightarrow> noted c c'"
  using noted_trans [OF noted_test_ts noted_test_payload]
  by (auto simp: test_expected_def Let_def rbind_simps split: if_splits dest: noted_test_payload)

lemma test_expected_OK:
  assumes "test_expected c p = Inr (OK, c')"
  shows "ucast (ip_protocol (pkt_FRAME p) (pkt_ip p)) = ex_ip_proto (cn_expected_data c)"
    "ip_protocol (pkt_FRAME p) (pkt_ip p) = IPPROTO_TCP \<Longrightarrow>
      (tcp_syn (pkt_FRAME p) (pkt_l4 p) \<or> seq_of p = ex_tcp_seq (cn_expected_data c)) \<and>
      ack_of p = ex_tcp_ack_seq (cn_expected_data c)"
  using assms by (auto simp: test_expected_def Let_def rbind_simps seq_of_def ack_of_def split: if_splits)

lemma define_expected_TCP:
  assumes "define_expected_data c p = Inr c'" and "ip_protocol (pkt_FRAME p) (pkt_ip p) = IPPROTO_TCP"
  shows "ex_tcp_seq (cn_expected_data c') = seq_of p - hih_delta (cn_hih c)"
    "ex_tcp_ack_seq (cn_expected_data c') = ack_of p" "ex_ip_proto (cn_expected_data c') = 6"
    "cn_hih c' = cn_hih c"
  using assms
  by (auto simp: define_expected_data_def Let_def rbind_simps seq_of_def ack_of_def not_eq_complement)

section \<open>What the loop sends\<close>

text \<open>A packet the forwarding sends on this connection.\<close>

definition sendable :: "pkt_struct \<Rightarrow> bool" where
  "sendable p \<longleftrightarrow> plain_tcp p \<and> tcp_fits (pkt_FRAME p) (pkt_flen p) \<and> pkt_end p \<le> pkt_flen p"

definition hih_at :: "hb_state \<Rightarrow> conn_struct \<Rightarrow> ptr \<Rightarrow> u32 \<Rightarrow> bool" where
  "hih_at s conn i ip \<longleftrightarrow> (\<exists>hp h mac out. hih_back_handler (cn_hih conn) = Some hp \<and> st_handlers s hp = Some h \<and>
     hd_iface h = Some i \<and> st_ifaces s i = Some out \<and> hd_mac h = Some mac \<and> hd_ip h = Some ip)"

text \<open>The packet \<open>q\<close> that left for the HIH is the buffered packet \<open>p\<close> readdressed.\<close>

definition replayed :: "conn_struct \<Rightarrow> u32 \<Rightarrow> pkt_struct \<Rightarrow> pkt_struct \<Rightarrow> bool" where
  "replayed conn ip p q \<longleftrightarrow> seq_of q = seq_of p \<and> ip_daddr (pkt_FRAME q) 18 = ip \<and>
     ip_saddr (pkt_FRAME q) 18 = ip_saddr (pkt_FRAME p) 18 \<and>
     (tcp_ack (pkt_FRAME p) 38 \<longrightarrow> ack_of q = ack_of p - hih_delta (cn_hih conn)) \<and>
     in_cksum (pkt_FRAME q) 18 20 = 0 \<and> tcp_checksum (pkt_FRAME q) (pkt_flen q) 18 = Inr 0"

lemma forward_replayed:
  assumes "sendable p" and "hih_at s conn i ip" and "\<And>bs. ev_inject E i bs"
  shows "\<exists>q. forward_ext2hih E s conn p = Inr (OK, q, s\<lparr>st_sent := st_sent s @ [(i, wire q)]\<rparr>) \<and>
     replayed conn ip p q"
proof -
  obtain hp h mac out where h: "hih_back_handler (cn_hih conn) = Some hp" "st_handlers s hp = Some h"
    "hd_iface h = Some i" "st_ifaces s i = Some out" "hd_mac h = Some mac" "hd_ip h = Some ip"
    using assms(2) by (auto simp: hih_at_def)
  have p: "plain_tcp p" "tcp_fits (pkt_FRAME p) (pkt_flen p)" "pkt_end p \<le> pkt_flen p"
    using assms(1) by (auto simp: sendable_def)
  obtain q where q: "forward_ext2hih E s conn p = Inr (OK, q, s\<lparr>st_sent := st_sent s @ [(i, wire q)]\<rparr>)"
    using forward_ext2hih_total [OF p h, where E = E] assms(3) by (auto simp: pcap_inject_def)
  have gi: "get_iface s (hd_iface h) = Inr out" using h by (simp add: get_iface_def)
  show ?thesis using q forward_ext2hih_effect [OF q p(1) h(1,2) gi] h(6) by (auto simp: replayed_def)
qed

lemma nth_data_append [simp]: "nth_data (pre @ x # xs) (length pre) = Some x"
  by (simp add: nth_data_def)

lemma replay_loop_run:
  assumes "\<forall>p \<in> set run. pkt_origin p = EXT \<and> sendable p" and "\<forall>p \<in> set (run @ post). pkt_DE p = 0"
    and "post = [] \<longrightarrow> run \<noteq> []" and "\<And>p ps. post = p # ps \<Longrightarrow> pkt_origin p \<noteq> EXT"
    and "hih_at s conn i ip" and "\<And>bs. ev_inject E i bs"
  shows "\<exists>qs. list_all2 (replayed conn ip) run qs \<and>
    replay_loop E s conn (pre @ run @ post) (length pre) 0 =
    (let s' = s\<lparr>st_sent := st_sent s @ map (\<lambda>q. (i, wire q)) qs\<rparr>; buf = pre @ qs @ post in
     case post of
       [] \<Rightarrow> Inr (conn\<lparr>cn_BUFFER := buf, cn_replay_id := length pre + length run - 1, cn_state := FORWARD\<rparr>, s')
     | p # ps \<Rightarrow> rbind (define_expected_data conn p) (\<lambda>conn.
                 Inr (conn\<lparr>cn_BUFFER := buf, cn_replay_id := length pre + length run + 1\<rparr>, s')))"
  using assms
proof (induction run arbitrary: pre s)
  case Nil
  then show ?case by (cases post) (simp_all add: replay_loop.simps [of E s conn])
next
  case (Cons p run)
  obtain q where q: "forward_ext2hih E s conn p = Inr (OK, q, s\<lparr>st_sent := st_sent s @ [(i, wire q)]\<rparr>)"
    "replayed conn ip p q"
    using forward_replayed [of p s conn i ip E] Cons.prems by auto
  let ?s = "s\<lparr>st_sent := st_sent s @ [(i, wire q)]\<rparr>"
  have p: "pkt_origin p = EXT" using Cons.prems by simp
  show ?case
  proof (cases "run @ post")
    case Nil
    with q p show ?thesis
      by (intro exI [of _ "[q]"]) (simp add: replay_loop.simps [of E s conn] switch_state_def)
  next
    case (Cons r rs)
    have "hih_at ?s conn i ip" using Cons.prems(5) by (simp add: hih_at_def)
    moreover have "post = [] \<longrightarrow> run \<noteq> []" using Cons by auto
    ultimately obtain qs where qs: "list_all2 (replayed conn ip) run qs"
      "replay_loop E ?s conn ((pre @ [q]) @ run @ post) (length (pre @ [q])) 0 =
        (let s' = ?s\<lparr>st_sent := st_sent ?s @ map (\<lambda>q. (i, wire q)) qs\<rparr>; buf = (pre @ [q]) @ qs @ post in
         case post of
           [] \<Rightarrow> Inr (conn\<lparr>cn_BUFFER := buf, cn_replay_id := length (pre @ [q]) + length run - 1, cn_state := FORWARD\<rparr>, s')
         | p # ps \<Rightarrow> rbind (define_expected_data conn p) (\<lambda>conn.
             Inr (conn\<lparr>cn_BUFFER := buf, cn_replay_id := length (pre @ [q]) + length run + 1\<rparr>, s')))"
      using Cons.IH [of ?s "pre @ [q]"] Cons.prems by auto
    have de: "pkt_DE r = 0" using Cons.prems(2) Cons by auto
    have step: "replay_loop E s conn (pre @ (p # run) @ post) (length pre) 0 =
        replay_loop E ?s conn ((pre @ [q]) @ run @ post) (length (pre @ [q])) 0"
      using q(1) p Cons de
      by (subst replay_loop.simps) (auto simp: nth_append)
    show ?thesis using qs(2) q(2) qs(1) unfolding step
      by (intro exI [of _ "q # qs"]) (simp add: Let_def split: list.split)
  qed
qed


text \<open>A packet that passes the comparison starts the loop at the next packet of the buffer.\<close>

lemma replay_run:
  assumes "pkt_origin pkt = HIH" and "test_expected conn pkt = Inr (OK, conn1)"
    and "cn_BUFFER conn = pre @ run @ post" and "cn_replay_id conn = length pre"
    and "\<forall>p \<in> set run. pkt_origin p = EXT \<and> sendable p" and "\<forall>p \<in> set (run @ post). pkt_DE p = 0"
    and "run @ post \<noteq> []" and "post \<noteq> [] \<longrightarrow> pkt_origin (hd post) \<noteq> EXT"
    and "hih_at s conn i ip" and "\<forall>bs. ev_inject E i bs"
  shows "\<exists>qs. list_all2 (replayed conn ip) run qs \<and>
    replay E s conn pkt =
    (let s' = s\<lparr>st_sent := st_sent s @ map (\<lambda>q. (i, wire q)) qs\<rparr>; buf = pre @ qs @ post in
     case post of
       [] \<Rightarrow> Inr (OK, conn1\<lparr>cn_BUFFER := buf, cn_replay_id := length pre + length run - 1, cn_state := FORWARD\<rparr>, s')
     | p # ps \<Rightarrow> rbind (define_expected_data conn1 p) (\<lambda>conn.
                 Inr (OK, conn\<lparr>cn_BUFFER := buf, cn_replay_id := length pre + length run + 1\<rparr>, s')))"
proof -
  note n = noted_fields [OF test_expected_noted [OF assms(2)]]
  have h: "hih_at s conn1 i ip" using assms(9) n by (simp add: hih_at_def)
  have r: "replayed conn1 ip = replayed conn ip" using n by (simp add: replayed_def fun_eq_iff)
  obtain x xs where x: "run @ post = x # xs" using assms(7) by (cases "run @ post") auto
  have "pkt_DE x = 0" using x assms(6) by (metis list.set_intros(1))
  then have "replay E s conn pkt = rbind (replay_loop E s conn1 (pre @ run @ post) (length pre) 0) (\<lambda>(conn, s). Inr (OK, conn, s))"
    using assms(1-4) n x by (simp add: replay_def)
  then show ?thesis
    using replay_loop_run [of run post s conn1 i ip E pre] assms(5-8,10) h unfolding r
    by (cases post) (auto simp: rbind_assoc Let_def)
qed

section \<open>Properties\<close>

text \<open>C11: The replay goes on only in step.  Once a TCP packet of the LIH was made the expected data, \<open>replay\<close> sends
  something, advances in the buffer or changes the state of the connection only for a TCP packet of the HIH that
  acknowledges what the packet of the LIH acknowledged and whose sequence number, moved by the delta of the
  connection, is the number the attacker got from the LIH; only the number of a SYN is not compared.\<close>

theorem replay_in_step:
  assumes "define_expected_data conn0 lih = Inr conn1" and "ip_protocol (pkt_FRAME lih) (pkt_ip lih) = IPPROTO_TCP"
    and "replay E s conn pkt = Inr (r, conn', s')"
    and "cn_expected_data conn = cn_expected_data conn1" and "cn_hih conn = cn_hih conn1"
    and "s' \<noteq> s \<or> cn_replay_id conn' \<noteq> cn_replay_id conn \<or> cn_state conn' \<noteq> cn_state conn"
  shows "pkt_origin pkt = HIH \<and> ip_protocol (pkt_FRAME pkt) (pkt_ip pkt) = IPPROTO_TCP \<and> ack_of pkt = ack_of lih \<and>
    (seq_of pkt + hih_delta (cn_hih conn) = seq_of lih \<or> tcp_syn (pkt_FRAME pkt) (pkt_l4 pkt))"
proof -
  have o: "pkt_origin pkt = HIH" using assms(3,6) by (auto simp: replay_def split: if_split_asm)
  with assms(3) obtain flag c where t: "test_expected conn pkt = Inr (flag, c)"
    and n: "flag = NOK \<Longrightarrow> conn' = c \<and> s' = s" by (auto simp: replay_def elim!: rbindE split: if_split_asm)
  have "flag = OK" using n noted_fields [OF test_expected_noted [OF t]] assms(6) by (cases flag) auto
  note k = test_expected_OK [OF t [unfolded this]] and x = define_expected_TCP [OF assms(1,2)]
  have inj: "b = IPPROTO_TCP" if "(ucast b :: u16) = 6" for b :: byte
    using arg_cong [OF that, of unat] unsigned_less [where 'a = nat, of b]
    by (simp add: unsigned_ucast_eq take_bit_nat_eq_self word_unat_eq_iff)
  have p: "ip_protocol (pkt_FRAME pkt) (pkt_ip pkt) = IPPROTO_TCP" using k(1) x(3) assms(4) by (intro inj) simp
  then show ?thesis using o k(2) x assms(4,5) by auto
qed

text \<open>A packet of the LIH (sequence number 105) and the packet of the HIH (100) that matches it.\<close>

definition ex_lih :: pkt_struct where
  "ex_lih = ex_pkt\<lparr>pkt_FRAME := (pkt_FRAME ex_pkt)(45 := 105, 51 := 0x10), pkt_origin := LIH\<rparr>"

definition ex_hih :: pkt_struct where
  "ex_hih = ex_pkt\<lparr>pkt_FRAME := (pkt_FRAME ex_pkt)(51 := 0x10), pkt_origin := HIH\<rparr>"

lemma ex_pkt_variant:
  assumes "\<And>k. k \<noteq> 45 \<Longrightarrow> k \<noteq> 51 \<Longrightarrow> f k = pkt_FRAME ex_pkt k"
  shows "sendable (ex_pkt\<lparr>pkt_FRAME := f, pkt_origin := r\<rparr>)"
proof -
  let ?p = "ex_pkt\<lparr>pkt_FRAME := f\<rparr>"
  have r: "pkt_rewr {45, 51} ex_pkt ?p"
    using relink_frame [OF pkt_wf_link(1) [OF ex_pkt_wf], of f "{45, 51}"] assms by (simp add: relink_def)
  have "pkt_wf ?p" by (rule pkt_wf_rewr [OF ex_pkt_wf ex_pkt_frame(1) r]) simp_all
  then have "plain_tcp (?p\<lparr>pkt_origin := r\<rparr>)"
    using ex_pkt_plain(1) assms [of 18] assms [of 27] pkt_wf_cong [of "?p\<lparr>pkt_origin := r\<rparr>" ?p]
    by (simp add: plain_tcp_def ip_ihl_def)
  then show ?thesis
    using ex_pkt_plain(2,3) tcp_fits_cong [of f "pkt_FRAME ex_pkt"] assms
    by (simp add: sendable_def pkt_end_def)
qed

lemma ex_lih_hih_sendable: "sendable ex_lih" "sendable ex_hih"
  by (simp_all add: ex_lih_def ex_hih_def ex_pkt_variant)

definition ex_expected :: expected_data_struct where
  "ex_expected = \<lparr>ex_ip_proto = 6, ex_tcp_seq = 100, ex_tcp_ack_seq = 0, ex_tcp_ts = -1, ex_payload = Some (payload_bytes ex_lih)\<rparr>"

definition ex_expecting :: conn_struct where
  "ex_expecting = ex_redirected\<lparr>cn_expected_data := ex_expected\<rparr>"

lemma ex_lih_hih_eval:
  "define_expected_data ex_redirected ex_lih = Inr ex_expecting"
  "cn_expected_data c = ex_expected \<Longrightarrow> test_expected c ex_hih = Inr (OK, c)"
  "\<not> tcp_syn (pkt_FRAME ex_hih) 38"
proof -
  have f: "pkt_FRAME ex_lih = (pkt_FRAME ex_pkt)(45 := 105, 51 := 0x10)" "pkt_ip ex_lih = 18" "pkt_l4 ex_lih = 38"
    "pkt_flen ex_lih = 74" "pkt_FRAME ex_hih = (pkt_FRAME ex_pkt)(51 := 0x10)" "pkt_ip ex_hih = 18"
    "pkt_l4 ex_hih = 38" "pkt_flen ex_hih = 74" "pkt_data ex_hih = 0" "pkt_origin ex_hih = HIH"
    "pkt_FRAME ex_pkt = (\<lambda>i. if i < 4 then 0 else ex_syn (i - 4))"
    by (simp_all add: ex_lih_def ex_hih_def ex_pkt_def zero_pkt_def)
  show "define_expected_data ex_redirected ex_lih = Inr ex_expecting"
    by (simp add: define_expected_data_def Let_def f ex_syn_at frame_eval get_tcp_timestamps_def ex_redirected_def
        zero_conn_def zero_hih_def zero_expected_def ex_expecting_def ex_expected_def)
  show "test_expected c ex_hih = Inr (OK, c)" if "cn_expected_data c = ex_expected"
    by (simp add: test_expected_def Let_def f ex_syn_at frame_eval get_tcp_timestamps_def tcp_syn_def
        test_payload_def test_ts_def that ex_expected_def)
  show "\<not> tcp_syn (pkt_FRAME ex_hih) 38" by (simp add: tcp_syn_def f bit_simps)
qed

definition ex_replaying :: conn_struct where
  "ex_replaying = ex_expecting\<lparr>cn_state := REPLAY, cn_BUFFER := [ex_pkt, ex_lih, ex_ack], cn_replay_id := 2\<rparr>"

lemma ex_replaying_at:
  "pkt_origin ex_hih = HIH" "pkt_origin ex_ack = EXT" "pkt_DE ex_ack = 0" "hih_at ex_state ex_replaying 12 0x0300000A"
  "test_expected ex_replaying ex_hih = Inr (OK, ex_replaying)" "sendable ex_ack" "ev_inject ex_env 12 bs"
  "cn_BUFFER ex_replaying = [ex_pkt, ex_lih] @ [ex_ack] @ []" "cn_replay_id ex_replaying = length [ex_pkt, ex_lih]"
proof -
  show "pkt_origin ex_hih = HIH" "pkt_origin ex_ack = EXT" "pkt_DE ex_ack = 0"
    by (simp_all add: ex_hih_def ex_ack_def ex_pkt_def zero_pkt_def)
  show "test_expected ex_replaying ex_hih = Inr (OK, ex_replaying)"
    by (rule ex_lih_hih_eval(2)) (simp add: ex_replaying_def ex_expecting_def)
  show "hih_at ex_state ex_replaying 12 0x0300000A"
    using ex_redirected_at by (auto simp: hih_at_def ex_replaying_def ex_expecting_def)
  show "sendable ex_ack" using ex_ack_plain by (simp add: sendable_def)
qed (simp_all add: ex_replaying_def ex_env_def)

theorem replay_in_step_witness:
  "\<exists>conn' s'. define_expected_data ex_redirected ex_lih = Inr ex_expecting \<and>
     replay ex_env ex_state ex_replaying ex_hih = Inr (OK, conn', s') \<and> cn_state conn' = FORWARD \<and>
     ack_of ex_hih = ack_of ex_lih \<and> seq_of ex_hih + 5 = seq_of ex_lih"
proof -
  note e = ex_replaying_at
  obtain qs where r: "replay ex_env ex_state ex_replaying ex_hih =
      Inr (OK, ex_replaying\<lparr>cn_BUFFER := [ex_pkt, ex_lih] @ qs, cn_replay_id := 2, cn_state := FORWARD\<rparr>,
           ex_state\<lparr>st_sent := st_sent ex_state @ map (\<lambda>q. (12, wire q)) qs\<rparr>)"
    using replay_run [OF e(1,5,8,9), of ex_state 12 "0x0300000A" ex_env] e by (auto simp: Let_def numeral_2_eq_2)
  have p: "ip_protocol (pkt_FRAME ex_lih) (pkt_ip ex_lih) = IPPROTO_TCP"
    using ex_lih_hih_sendable(1) by (auto simp: sendable_def plain_tcp_def pkt_wf_def Let_def)
  have c: "cn_expected_data ex_replaying = cn_expected_data ex_expecting" "cn_hih ex_replaying = cn_hih ex_expecting"
    "cn_state ex_replaying = REPLAY" "hih_delta (cn_hih ex_replaying) = 5" "pkt_l4 ex_hih = 38"
    by (simp_all add: ex_replaying_def ex_expecting_def ex_redirected_at ex_hih_def ex_pkt_frame)
  from replay_in_step [OF ex_lih_hih_eval(1) p r c(1,2)] c(3-5) ex_lih_hih_eval(1,3) r show ?thesis by auto
qed

text \<open>C10: A packet of the HIH that matches what is expected advances the replay.  The run of packets of the
  attacker that follows in the buffer is sent to the HIH, each once and in order, readdressed, with its
  numbers and checksums right; then either the buffer is exhausted and the connection is in state
  FORWARD, or the next packet of the LIH becomes the expected data.\<close>

theorem replay_progress:
  assumes "pkt_origin pkt = HIH" and "test_expected conn pkt = Inr (OK, conn1)"
    and "cn_BUFFER conn = pre @ run @ post" and "cn_replay_id conn = length pre"
    and "\<forall>p \<in> set run. pkt_origin p = EXT \<and> sendable p" and "\<forall>p \<in> set (run @ post). pkt_DE p = 0"
    and "run @ post \<noteq> []" and "post \<noteq> [] \<longrightarrow> pkt_origin (hd post) \<noteq> EXT"
    and "hih_at s conn i ip" and "\<forall>bs. ev_inject E i bs"
  shows "\<exists>qs. list_all2 (replayed conn ip) run qs \<and>
    replay E s conn pkt =
    (let s' = s\<lparr>st_sent := st_sent s @ map (\<lambda>q. (i, wire q)) qs\<rparr>; buf = pre @ qs @ post in
     case post of
       [] \<Rightarrow> Inr (OK, conn1\<lparr>cn_BUFFER := buf, cn_replay_id := length pre + length run - 1, cn_state := FORWARD\<rparr>, s')
     | p # ps \<Rightarrow> rbind (define_expected_data conn1 p) (\<lambda>conn.
                 Inr (OK, conn\<lparr>cn_BUFFER := buf, cn_replay_id := length pre + length run + 1\<rparr>, s')))"
  using assms by (rule replay_run)

theorem replay_progress_witness:
  "\<exists>q. replay ex_env ex_state ex_replaying ex_hih =
     Inr (OK, ex_replaying\<lparr>cn_BUFFER := [ex_pkt, ex_lih, q], cn_replay_id := 2, cn_state := FORWARD\<rparr>,
          ex_state\<lparr>st_sent := st_sent ex_state @ [(12, wire q)]\<rparr>)"
proof -
  note e = ex_replaying_at
  obtain qs where "list_all2 (replayed ex_replaying 0x0300000A) [ex_ack] qs"
    "replay ex_env ex_state ex_replaying ex_hih =
      Inr (OK, ex_replaying\<lparr>cn_BUFFER := [ex_pkt, ex_lih] @ qs, cn_replay_id := 2, cn_state := FORWARD\<rparr>,
           ex_state\<lparr>st_sent := st_sent ex_state @ map (\<lambda>q. (12, wire q)) qs\<rparr>)"
    using replay_progress [OF e(1,5,8,9), of ex_state 12 "0x0300000A" ex_env] e by (auto simp: Let_def numeral_2_eq_2)
  then show ?thesis by (auto simp: list_all2_Cons1)
qed

text \<open>A redirection whose buffered packets all came from the attacker never leaves the state REPLAY:
  no data is ever expected (its protocol number is 0), so every packet of the HIH fails the comparison,
  is dropped, and leaves the connection in the same situation.\<close>

theorem replay_stuck:
  assumes "ex_ip_proto (cn_expected_data conn) = 0" and "cn_state conn = REPLAY"
    and "pkt_wf pkt" and "pkt_origin pkt = HIH"
  shows "\<exists>conn'. replay E s conn pkt = Inr (OK, conn', s) \<and> cn_state conn' = REPLAY \<and>
    cn_replay_id conn' = cn_replay_id conn \<and> ex_ip_proto (cn_expected_data conn') = 0 \<and>
    cn_replay_problem conn' = cn_replay_problem conn OR REPLAY_UNEXPECTED_PROTOCOL"
proof -
  have p: "pkt_ip pkt = 18" "28 \<le> pkt_flen pkt" "pkt_FRAME pkt 27 = 6 \<or> pkt_FRAME pkt 27 = 17"
    using assms(3) by (auto simp: pkt_wf_def Let_def)
  then have "ucast (pkt_FRAME pkt 27) \<noteq> ex_ip_proto (cn_expected_data conn)" using assms(1) by auto
  then have "test_expected conn pkt = Inr (NOK, add_problem conn REPLAY_UNEXPECTED_PROTOCOL)"
    using p by (simp add: test_expected_def Let_def)
  then show ?thesis using assms by (simp add: replay_def)
qed

theorem replay_stuck_witness:
  "\<exists>conn'. replay ex_env ex_state (ex_redirected\<lparr>cn_state := REPLAY\<rparr>) ex_hih = Inr (OK, conn', ex_state) \<and>
     cn_state conn' = REPLAY"
proof -
  have "ex_ip_proto (cn_expected_data (ex_redirected\<lparr>cn_state := REPLAY\<rparr>)) = 0"
    by (simp add: ex_redirected_def zero_conn_def zero_expected_def)
  moreover have "pkt_wf ex_hih" using ex_lih_hih_sendable(2) by (simp add: sendable_def plain_tcp_def)
  moreover have "pkt_origin ex_hih = HIH" by (simp add: ex_hih_def)
  ultimately show ?thesis using replay_stuck [of "ex_redirected\<lparr>cn_state := REPLAY\<rparr>" ex_hih ex_env ex_state] by auto
qed

end
