(* ===== verification/Connections.thy ===== *)
theory Connections
  imports Replay
begin

text \<open>
  The flow tracking of \<open>connections.c\<close>: which connection a packet belongs to,
  how a connection is created for each role its first packet can come from, the
  statistics, expiry and removal, the redirection to a HIH and the switch to an
  INTRA handler.  The connection trees hold their keys by value and the
  connection by address; an entry whose connection was freed is a dangling one.
  The pin trees hold their keys by address (see \<open>HB_Types\<close>).
\<close>

section \<open>Pin keys and pins\<close>

definition new_pin_key :: "hb_state \<Rightarrow> pin_key \<Rightarrow> pin_key_ref \<times> hb_state" where
  "new_pin_key s k =
     (let (p, s) = alloc s in ((p, k), s\<lparr>st_pin_keys := insert p (st_pin_keys s)\<rparr>))"

definition free_pin_key :: "hb_state \<Rightarrow> pin_key_ref \<Rightarrow> hb_state res" where
  "free_pin_key s r =
     rbind (guard DoubleFree (fst r \<in> st_pin_keys s)) (\<lambda>_.
     Inr (s\<lparr>st_pin_keys := st_pin_keys s - {fst r}\<rparr>))"

text \<open>\<open>free_0\<close> of a pointer that may be NULL.\<close>

definition free_pin_key_opt :: "hb_state \<Rightarrow> pin_key_ref option \<Rightarrow> hb_state res" where
  "free_pin_key_opt s r = (case r of None \<Rightarrow> Inr s | Some r \<Rightarrow> free_pin_key s r)"

definition free_pin :: "hb_state \<Rightarrow> ptr \<Rightarrow> hb_state res" where
  "free_pin s p =
     rbind (deref (st_pins s) p) (\<lambda>pin.
     rbind (free_pin_key s (pin_pin_key pin)) (\<lambda>s.
     Inr (s\<lparr>st_pins := (st_pins s)(p := None)\<rparr>)))"

text \<open>
  A lookup compares the key with the keys on one path of the tree, so a key that
  was freed while it was still in the tree may be read.  The path depends on the
  shape of the balanced tree, which the sorted list leaves out: the definition
  succeeds when every key of the tree is live, hence the lookup succeeds on
  whatever path, and otherwise counts as a fault.  It errs on the side of the
  fault; no result is drawn from a lookup that faults.
\<close>

definition pin_lookup :: "hb_state \<Rightarrow> (pin_key_ref, ptr) gtree \<Rightarrow> pin_key_ref \<Rightarrow> ptr option res" where
  "pin_lookup s t r =
     rbind (guard UseAfterFree (fst r \<in> st_pin_keys s \<and> (\<forall>(k, _) \<in> set t. fst k \<in> st_pin_keys s))) (\<lambda>_.
     Inr (g_tree_lookup pinrefcmp t r))"

definition pin_remove :: "hb_state \<Rightarrow> (pin_key_ref, ptr) gtree \<Rightarrow> pin_key_ref \<Rightarrow> (pin_key_ref, ptr) gtree res" where
  "pin_remove s t r =
     rbind (guard UseAfterFree (fst r \<in> st_pin_keys s \<and> (\<forall>(k, _) \<in> set t. fst k \<in> st_pin_keys s))) (\<lambda>_.
     Inr (g_tree_remove pinrefcmp t r))"

text \<open>\<open>pin->count\<close> plus or minus one\<close>

definition pin_count_add :: "hb_state \<Rightarrow> ptr \<Rightarrow> u64 \<Rightarrow> hb_state res" where
  "pin_count_add s p d =
     rbind (deref (st_pins s) p) (\<lambda>pin.
     Inr (s\<lparr>st_pins := (st_pins s)(p \<mapsto> pin\<lparr>pin_count := pin_count pin + d\<rparr>)\<rparr>))"

definition new_pin :: "hb_state \<Rightarrow> pin_key_ref \<Rightarrow> u32 \<Rightarrow> ptr \<times> hb_state" where
  "new_pin s r ip =
     (let (p, s) = alloc s in
      (p, s\<lparr>st_pins := (st_pins s)(p \<mapsto> \<lparr>pin_pin_key = r, pin_ip = ip, pin_count = 1\<rparr>)\<rparr>))"

section \<open>Where a packet comes from\<close>

definition pkt_vlan_id :: "pkt_struct \<Rightarrow> u16" where
  "pkt_vlan_id pkt =
     (if ether_type (pkt_FRAME pkt) (pkt_eth pkt) = htons ETHERTYPE_IP then 0
      else vlan_vid (h_vlan_TCI (pkt_FRAME pkt) (pkt_eth pkt)))"

abbreviation pkt_saddr :: "pkt_struct \<Rightarrow> u32" where "pkt_saddr p \<equiv> ip_saddr (pkt_FRAME p) (pkt_ip p)"
abbreviation pkt_daddr :: "pkt_struct \<Rightarrow> u32" where "pkt_daddr p \<equiv> ip_daddr (pkt_FRAME p) (pkt_ip p)"
abbreviation pkt_source :: "pkt_struct \<Rightarrow> u16" where "pkt_source p \<equiv> l4_source (pkt_FRAME p) (pkt_l4 p)"
abbreviation pkt_dest :: "pkt_struct \<Rightarrow> u16" where "pkt_dest p \<equiv> l4_dest (pkt_FRAME p) (pkt_l4 p)"
abbreviation pkt_proto :: "pkt_struct \<Rightarrow> byte" where "pkt_proto p \<equiv> ip_protocol (pkt_FRAME p) (pkt_ip p)"

definition vlan_matches :: "pkt_struct \<Rightarrow> handler \<Rightarrow> bool" where
  "vlan_matches pkt h \<longleftrightarrow>
     (let ty = ether_type (pkt_FRAME pkt) (pkt_eth pkt) in
      ty = htons ETHERTYPE_IP \<and> vlan_vid (hd_vlan h) = 0 \<or>
      ty = htons ETHERTYPE_VLAN \<and> vlan_vid (hd_vlan h) = vlan_vid (h_vlan_TCI (pkt_FRAME pkt) (pkt_eth pkt)))"

text \<open>The packet came in on the interface, from the address and on the VLAN of the handler.\<close>

definition from_handler :: "pkt_struct \<Rightarrow> handler \<Rightarrow> bool res" where
  "from_handler pkt h =
     (if hd_iface h = Some (pkt_in pkt)
      then rbind (nonnull (hd_ip h)) (\<lambda>ip. Inr (ip = pkt_saddr pkt \<and> vlan_matches pkt h))
      else Inr False)"

text \<open>The search structures live on the stack; a field that was not written is \<open>None\<close>.\<close>

record hih_search =
  hs_found :: bool
  hs_hihID :: "u64 option"
  hs_back_handler :: "ptr option"

record intra_search =
  is_found :: bool
  is_intra_handler :: "ptr option"

record target_search =
  ts_found :: bool
  ts_pkt :: pkt_struct
  ts_target :: "ptr option"
  ts_hih_search :: hih_search
  ts_intra_search :: intra_search

definition find_hih_src :: "hb_state \<Rightarrow> pkt_struct \<Rightarrow> u64 \<Rightarrow> ptr \<Rightarrow> hih_search \<Rightarrow> (bool \<times> hih_search) res" where
  "find_hih_src s pkt hihID back_handler hs =
     rbind (get_handler s (Some back_handler)) (\<lambda>h.
     rbind (from_handler pkt h) (\<lambda>m.
     Inr (if m then (True, \<lparr>hs_found = True, hs_hihID = Some hihID, hs_back_handler = Some back_handler\<rparr>)
          else (False, hs))))"

definition find_hih_dst :: "hb_state \<Rightarrow> pkt_struct \<Rightarrow> u64 \<Rightarrow> ptr \<Rightarrow> hih_search \<Rightarrow> (bool \<times> hih_search) res" where
  "find_hih_dst s pkt hihID back_handler hs =
     rbind (get_handler s (Some back_handler)) (\<lambda>h.
     rbind (nonnull (hd_ip h)) (\<lambda>ip.
     Inr (if ip = pkt_daddr pkt then (True, hs\<lparr>hs_found := True\<rparr>) else (False, hs))))"

definition find_intra :: "hb_state \<Rightarrow> pkt_struct \<Rightarrow> u32 \<Rightarrow> ptr \<Rightarrow> intra_search \<Rightarrow> (bool \<times> intra_search) res" where
  "find_intra s pkt targetIP intra_handler is =
     rbind (get_handler s (Some intra_handler)) (\<lambda>h.
     rbind (from_handler pkt h) (\<lambda>m.
     Inr (if m then (True, \<lparr>is_found = True, is_intra_handler = Some intra_handler\<rparr>) else (False, is))))"

definition find_target :: "hb_state \<Rightarrow> u64 \<Rightarrow> ptr \<Rightarrow> target_search \<Rightarrow> (bool \<times> target_search) res" where
  "find_target s targetID target ts =
     (let pkt = ts_pkt ts; ts = ts\<lparr>ts_target := Some target\<rparr> in
      rbind (get_target s target) (\<lambda>t.
      rbind (get_handler s (tg_front_handler t)) (\<lambda>front.
      rbind (nonnull (hd_ip front)) (\<lambda>ip.
      if pkt_saddr pkt = ip
      then Inr (True, ts\<lparr>ts_found := True, ts_pkt := pkt\<lparr>pkt_origin := LIH\<rparr>\<rparr>)
      else
        rbind (g_tree_foreach (find_hih_src s pkt) (tg_back_handlers t) (ts_hih_search ts)) (\<lambda>hs.
        let ts = ts\<lparr>ts_hih_search := hs\<rparr> in
        if hs_found hs then Inr (True, ts\<lparr>ts_found := True, ts_pkt := pkt\<lparr>pkt_origin := HIH\<rparr>\<rparr>)
        else
          rbind (g_tree_foreach (find_intra s pkt) (tg_intra_handlers t) (ts_intra_search ts)) (\<lambda>is.
          let ts = ts\<lparr>ts_intra_search := is\<rparr> in
          if is_found is then Inr (True, ts\<lparr>ts_found := True, ts_pkt := pkt\<lparr>pkt_origin := INTRA\<rparr>\<rparr>)
          else Inr (False, ts)))))))"

section \<open>Looking a connection up (conn_lookup)\<close>

definition pkt_key :: "pkt_struct \<Rightarrow> conn_key" where
  "pkt_key pkt = \<lparr>ck_protocol = pkt_proto pkt, ck_src_ip = pkt_saddr pkt, ck_src_port = pkt_source pkt,
     ck_dst_ip = pkt_daddr pkt, ck_dst_port = pkt_dest pkt, ck_vlan_id = pkt_vlan_id pkt\<rparr>"

definition conn_find :: "(conn_key, ptr) gtree \<Rightarrow> conn_key \<Rightarrow> ptr option" where
  "conn_find t k = g_tree_lookup conn_key_cmp t k"

text \<open>The sender of a packet from the inside on a connection: the front handler, or else a HIH.\<close>

definition int_origin :: "hb_state \<Rightarrow> pkt_struct \<Rightarrow> ptr \<Rightarrow> role_t res" where
  "int_origin s pkt p =
     rbind (get_conn s p) (\<lambda>c.
     rbind (conn_front_handler s c) (\<lambda>h.
     rbind (from_handler pkt h) (\<lambda>m. Inr (if m then LIH else HIH))))"

definition lookup_trees :: "hb_state \<Rightarrow> pkt_struct \<Rightarrow> (ptr \<times> pkt_struct) option res" where
  "lookup_trees s pkt =
     (let key = pkt_key pkt;
          inside_conn = (\<lambda>p. rbind (int_origin s pkt p) (\<lambda>r. Inr (Some (p, pkt\<lparr>pkt_origin := r\<rparr>)))) in
      if pkt_origin pkt = EXT then
        Inr (case conn_find (ext_tree1 s) key of
               Some p \<Rightarrow> Some (p, pkt)
             | None \<Rightarrow> map_option (\<lambda>p. (p, pkt)) (conn_find (int_tree2 s) key))
      else
        (case conn_find (ext_tree2 s) key of
           Some p \<Rightarrow> inside_conn p
         | None \<Rightarrow>
             (case conn_find (int_tree1 s) key of
                Some p \<Rightarrow> inside_conn p
              | None \<Rightarrow>
                  (case conn_find (intra_tree1 s) key of
                     Some p \<Rightarrow> inside_conn p
                   | None \<Rightarrow>
                       Inr (map_option (\<lambda>p. (p, pkt\<lparr>pkt_origin := INTRA\<rparr>)) (conn_find (intra_tree2 s) key))))))"

text \<open>Taking the mutex of a connection blocks while it is held.\<close>

definition lock_conn :: "hb_state \<Rightarrow> ptr \<Rightarrow> hb_state res" where
  "lock_conn s p =
     rbind (get_conn s p) (\<lambda>c.
     rbind (guard Hangs (\<not> cn_locked c)) (\<lambda>_. Inr (set_conn p (c\<lparr>cn_locked := True\<rparr>) s)))"

definition conn_lookup :: "hb_state \<Rightarrow> pkt_struct \<Rightarrow> ((ptr \<times> pkt_struct) option \<times> hb_state) res" where
  "conn_lookup s pkt =
     rbind (inside (pkt_flen pkt) (pkt_l4 pkt + 4)) (\<lambda>_.
     rbind (lookup_trees s pkt) (\<lambda>r.
     (case r of
        None \<Rightarrow> Inr (None, s)
      | Some (p, pkt) \<Rightarrow> rbind (lock_conn s p) (\<lambda>s. Inr (Some (p, pkt), s)))))"

section \<open>Freeing a connection (free_conn)\<close>

text \<open>
  The buffered packets, the connection keys and the strings go with the
  connection; the two pin keys are blocks of their own.
\<close>

definition free_conn :: "hb_state \<Rightarrow> ptr \<Rightarrow> hb_state res" where
  "free_conn s p =
     rbind (get_conn s p) (\<lambda>c.
     rbind (free_pin_key_opt s (cn_pin_key c)) (\<lambda>s.
     rbind (free_pin_key_opt s (hih_target_pin_key (cn_hih c))) (\<lambda>s.
     Inr (s\<lparr>st_conns := (st_conns s)(p := None)\<rparr>))))"

section \<open>Creating a connection (create_conn)\<close>

text \<open>The search for the sender of a packet from the inside.\<close>

definition search_target :: "hb_state \<Rightarrow> pkt_struct \<Rightarrow> target_search res" where
  "search_target s pkt =
     g_tree_foreach (find_target s) (targets s)
       \<lparr>ts_found = False, ts_pkt = pkt, ts_target = None,
        ts_hih_search = \<lparr>hs_found = False, hs_hihID = None, hs_back_handler = None\<rparr>,
        ts_intra_search = \<lparr>is_found = False, is_intra_handler = None\<rparr>\<rparr>"

text \<open>The structure filled in before the roles are told apart.  \<open>access_time\<close> is a \<open>gint\<close>.\<close>

definition fill_conn :: "ptr \<Rightarrow> pkt_struct \<Rightarrow> int \<Rightarrow> u32 \<Rightarrow> conn_struct res" where
  "fill_conn target pkt now cid =
     rbind (gint_of_double now) (\<lambda>access_time.
      let f = pkt_FRAME pkt; c = zero_conn target in
      Inr (c\<lparr>cn_locked := True, cn_protocol := pkt_proto pkt, cn_access_time := access_time,
        cn_initiator := pkt_origin pkt, cn_id := cid, cn_start_microtime := now,
        cn_stat_time := (cn_stat_time c)(INIT := now), cn_stat_packet := (cn_stat_packet c)(INIT := 1),
        cn_stat_byte := (cn_stat_byte c)(INIT := pkt_size pkt), cn_total_packet := 1,
        cn_total_byte := pkt_size pkt,
        cn_first_pkt_src_mac := ether_shost f (pkt_eth pkt), cn_first_pkt_dst_mac := ether_dhost f (pkt_eth pkt),
        cn_first_pkt_src_ip := pkt_saddr pkt, cn_first_pkt_dst_ip := pkt_daddr pkt,
        cn_first_pkt_src_port := pkt_source pkt, cn_first_pkt_dst_port := pkt_dest pkt\<rparr>))"

abbreviation conn_insert :: "(conn_key, ptr) gtree \<Rightarrow> conn_key \<Rightarrow> ptr \<Rightarrow> (conn_key, ptr) gtree" where
  "conn_insert \<equiv> g_tree_insert conn_key_cmp"

text \<open>The pin of a target address on the LIH: counted, or made with a copy of the key.\<close>

definition hold_comm_pin :: "hb_state \<Rightarrow> pin_key_ref \<Rightarrow> u32 \<Rightarrow> hb_state res" where
  "hold_comm_pin s r ip =
     rbind (pin_lookup s (comm_pin_tree s) r) (\<lambda>pin.
     (case pin of
        None \<Rightarrow>
          let (r', s) = new_pin_key s (snd r); (q, s) = new_pin s r' ip in
          Inr (s\<lparr>comm_pin_tree := g_tree_insert pinrefcmp (comm_pin_tree s) r' q\<rparr>)
      | Some q \<Rightarrow> pin_count_add s q 1))"

text \<open>From outside: the packet's own key, the key of the reply of the LIH, and the pin of the
  target address on the LIH.\<close>

definition create_ext ::
  "hb_state \<Rightarrow> pkt_struct \<Rightarrow> ptr \<Rightarrow> target \<Rightarrow> conn_struct \<Rightarrow> (status_t \<times> conn_struct \<times> hb_state) res" where
  "create_ext s pkt p t c =
     rbind (get_handler s (tg_front_handler t)) (\<lambda>h.
     rbind (nonnull (hd_ip h)) (\<lambda>ip.
     let ext_key = \<lparr>ck_protocol = pkt_proto pkt, ck_src_ip = pkt_saddr pkt, ck_src_port = pkt_source pkt,
                    ck_dst_ip = pkt_daddr pkt, ck_dst_port = pkt_dest pkt, ck_vlan_id = 0\<rparr>;
         int_key = \<lparr>ck_protocol = pkt_proto pkt, ck_src_ip = ip, ck_src_port = pkt_dest pkt,
                    ck_dst_ip = pkt_saddr pkt, ck_dst_port = pkt_source pkt,
                    ck_vlan_id = vlan_vid (hd_vlan h)\<rparr>;
         (r, s) = new_pin_key s \<lparr>pnk_target_ip = pkt_daddr pkt, pnk_handler_ip = ip,
                                 pnk_vlan_id = vlan_vid (hd_vlan h)\<rparr> in
     rbind (hold_comm_pin (s\<lparr>ext_tree1 := conn_insert (ext_tree1 s) ext_key p,
                             ext_tree2 := conn_insert (ext_tree2 s) int_key p\<rparr>)
              r (cn_first_pkt_dst_ip c)) (\<lambda>s.
     Inr (OK, c\<lparr>cn_state := INIT, cn_destination := LIH, cn_ext_key := Some ext_key,
                cn_int_key := Some int_key, cn_pin_key := Some r\<rparr>, s))))"

text \<open>
  The source address of a connection to the outside: of the pin under the key,
  which then counts one more, or of the default route, and the key is freed.
\<close>

definition pin_or_default ::
  "hb_state \<Rightarrow> (pin_key_ref, ptr) gtree \<Rightarrow> pin_key \<Rightarrow> target \<Rightarrow> conn_struct \<Rightarrow> (u32 \<times> conn_struct \<times> hb_state) res" where
  "pin_or_default s tree k t c =
     (let (r, s) = new_pin_key s k in
      rbind (pin_lookup s tree r) (\<lambda>pin.
      (case pin of
         None \<Rightarrow>
           rbind (get_iface s (tg_default_route t)) (\<lambda>i.
           rbind (nonnull (if_ip i)) (\<lambda>ip.
           rbind (free_pin_key s r) (\<lambda>s. Inr (ip, c, s))))
       | Some q \<Rightarrow>
           rbind (deref (st_pins s) q) (\<lambda>pn.
           rbind (pin_count_add s q 1) (\<lambda>s.
           Inr (pin_ip pn, c\<lparr>cn_pin_ip := Some q, cn_pin_key := Some r\<rparr>, s))))))"

text \<open>A connection to the outside: the packet's own key on the VLAN of its sender, and the key of the
  reply, which comes to the source address.\<close>

definition insert_outgoing ::
  "hb_state \<Rightarrow> pkt_struct \<Rightarrow> ptr \<Rightarrow> u16 \<Rightarrow> u32 \<Rightarrow> conn_struct \<Rightarrow> conn_struct \<times> hb_state" where
  "insert_outgoing s pkt p vid snat_to c =
     (let ext_key = \<lparr>ck_protocol = pkt_proto pkt, ck_src_ip = pkt_daddr pkt, ck_src_port = pkt_dest pkt,
                     ck_dst_ip = snat_to, ck_dst_port = pkt_source pkt, ck_vlan_id = 0\<rparr>;
          int_key = \<lparr>ck_protocol = pkt_proto pkt, ck_src_ip = pkt_saddr pkt, ck_src_port = pkt_source pkt,
                     ck_dst_ip = pkt_daddr pkt, ck_dst_port = pkt_dest pkt, ck_vlan_id = vid\<rparr>
      in (c\<lparr>cn_ext_key := Some ext_key, cn_int_key := Some int_key\<rparr>,
          s\<lparr>int_tree1 := conn_insert (int_tree1 s) int_key p,
            int_tree2 := conn_insert (int_tree2 s) ext_key p\<rparr>))"

definition is_intra_ip :: "env \<Rightarrow> target \<Rightarrow> u32 \<Rightarrow> ptr option" where
  "is_intra_ip E t ip = g_tree_lookup (ev_addr_cmp E) (tg_intra_handlers t) ip"

definition to_hih :: "hb_state \<Rightarrow> pkt_struct \<Rightarrow> target \<Rightarrow> bool res" where
  "to_hih s pkt t =
     rbind (g_tree_foreach (find_hih_dst s pkt) (tg_back_handlers t)
              \<lparr>hs_found = False, hs_hihID = None, hs_back_handler = None\<rparr>) (\<lambda>hs. Inr (hs_found hs))"

definition comm_pin_key :: "hb_state \<Rightarrow> pkt_struct \<Rightarrow> target \<Rightarrow> (pin_key \<times> u16) res" where
  "comm_pin_key s pkt t =
     rbind (get_handler s (tg_front_handler t)) (\<lambda>h.
     rbind (nonnull (hd_ip h)) (\<lambda>ip.
     Inr (\<lparr>pnk_target_ip = pkt_daddr pkt, pnk_handler_ip = ip, pnk_vlan_id = vlan_vid (hd_vlan h)\<rparr>,
          vlan_vid (hd_vlan h))))"

text \<open>From the LIH: only to the outside.\<close>

definition create_lih ::
  "env \<Rightarrow> hb_state \<Rightarrow> pkt_struct \<Rightarrow> ptr \<Rightarrow> target \<Rightarrow> conn_struct \<Rightarrow> (status_t \<times> conn_struct \<times> hb_state) res" where
  "create_lih E s pkt p t c =
     (let c = c\<lparr>cn_state := CONTROL\<rparr> in
      if is_intra_ip E t (cn_first_pkt_dst_ip c) \<noteq> None then Inr (NOK, c\<lparr>cn_destination := INTRA\<rparr>, s)
      else
        rbind (to_hih s pkt t) (\<lambda>found.
        if found then Inr (NOK, c\<lparr>cn_destination := HIH\<rparr>, s)
        else
          rbind (comm_pin_key s pkt t) (\<lambda>(k, vid).
          rbind (pin_or_default s (comm_pin_tree s) k t (c\<lparr>cn_destination := EXT\<rparr>)) (\<lambda>(snat_to, c, s).
          let (c, s) = insert_outgoing s pkt p vid snat_to c in Inr (OK, c, s)))))"

text \<open>From a HIH: where the connection goes, and whether it is created at all.\<close>

datatype hih_dest = HihTo role_t | HihUndefined | HihDrop role_t

definition hih_destination ::
  "hb_state \<Rightarrow> pkt_struct \<Rightarrow> target \<Rightarrow> handler \<Rightarrow> conn_struct \<Rightarrow> hih_dest res" where
  "hih_destination s pkt t bh c =
     (if cn_intra_handler c \<noteq> None then Inr (HihTo INTRA)
      else
        rbind (case hd_netmask bh of
                 None \<Rightarrow> Inr False
               | Some m \<Rightarrow> rbind (nonnull (hd_ip bh)) (\<lambda>ip. Inr (cn_first_pkt_dst_ip c AND m = ip AND m))) (\<lambda>lan.
        if lan then Inr HihUndefined
        else
          rbind (get_handler s (tg_front_handler t)) (\<lambda>h.
          rbind (nonnull (hd_ip h)) (\<lambda>ip.
          if pkt_daddr pkt = ip then Inr (HihDrop LIH)
          else rbind (to_hih s pkt t) (\<lambda>found. Inr (if found then HihDrop HIH else HihTo EXT))))))"

definition create_hih_ext ::
  "hb_state \<Rightarrow> pkt_struct \<Rightarrow> ptr \<Rightarrow> target \<Rightarrow> handler \<Rightarrow> conn_struct \<Rightarrow> (status_t \<times> conn_struct \<times> hb_state) res" where
  "create_hih_ext s pkt p t bh c =
     rbind (if exclusive_hih s = 1
            then rbind (nonnull (hd_ip bh)) (\<lambda>ip.
                 pin_or_default s (target_pin_tree s)
                   \<lparr>pnk_target_ip = 0, pnk_handler_ip = ip, pnk_vlan_id = vlan_vid (hd_vlan bh)\<rparr> t c)
            else rbind (comm_pin_key s pkt t) (\<lambda>(k, _). pin_or_default s (comm_pin_tree s) k t c))
       (\<lambda>(snat_to, c, s).
        let (c, s) = insert_outgoing s pkt p (vlan_vid (hd_vlan bh)) snat_to c in Inr (OK, c, s))"

text \<open>
  An exclusive INTRA handler serves one target address: the pin is made, shared
  with the connection (the pin, the tree and the connection hold the same key
  block), counted, or the connection is refused.
\<close>

definition intra_pin ::
  "hb_state \<Rightarrow> pkt_struct \<Rightarrow> handler \<Rightarrow> conn_struct \<Rightarrow> (bool \<times> conn_struct \<times> hb_state) res" where
  "intra_pin s pkt ih c =
     (if hd_exclusive ih = 0 then Inr (True, c, s)
      else
        rbind (nonnull (hd_ip ih)) (\<lambda>ip.
        let (r, s) = new_pin_key s \<lparr>pnk_target_ip = pkt_saddr pkt, pnk_handler_ip = ip,
                                    pnk_vlan_id = vlan_vid (hd_vlan ih)\<rparr> in
        rbind (pin_lookup s (intra_pin_tree s) r) (\<lambda>pin.
        (case pin of
           None \<Rightarrow>
             let (q, s) = new_pin s r (cn_first_pkt_dst_ip c) in
             Inr (True, c\<lparr>cn_pin_ip := Some q, cn_pin_key := Some r\<rparr>,
                  s\<lparr>intra_pin_tree := g_tree_insert pinrefcmp (intra_pin_tree s) r q\<rparr>)
         | Some q \<Rightarrow>
             rbind (deref (st_pins s) q) (\<lambda>pn.
             if pin_ip pn \<noteq> cn_first_pkt_dst_ip c
             then rbind (free_pin_key s r) (\<lambda>s. Inr (False, c, s))
             else rbind (pin_count_add s q 1) (\<lambda>s.
                  Inr (True, c\<lparr>cn_pin_key := Some r, cn_pin_ip := Some q\<rparr>, s)))))))"

definition create_hih_intra ::
  "hb_state \<Rightarrow> pkt_struct \<Rightarrow> ptr \<Rightarrow> handler \<Rightarrow> conn_struct \<Rightarrow> (status_t \<times> conn_struct \<times> hb_state) res" where
  "create_hih_intra s pkt p bh c =
     rbind (get_handler s (cn_intra_handler c)) (\<lambda>ih.
     rbind (intra_pin s pkt ih c) (\<lambda>(ok, c, s).
     if \<not> ok then Inr (NOK, c, s)
     else
       rbind (nonnull (hd_ip ih)) (\<lambda>ip.
       let intra_key = \<lparr>ck_protocol = pkt_proto pkt, ck_src_ip = ip, ck_src_port = pkt_dest pkt,
                        ck_dst_ip = pkt_saddr pkt, ck_dst_port = pkt_source pkt,
                        ck_vlan_id = vlan_vid (hd_vlan ih)\<rparr>;
           int_key = \<lparr>ck_protocol = pkt_proto pkt, ck_src_ip = pkt_saddr pkt, ck_src_port = pkt_source pkt,
                      ck_dst_ip = pkt_daddr pkt, ck_dst_port = pkt_dest pkt,
                      ck_vlan_id = vlan_vid (hd_vlan bh)\<rparr> in
       Inr (OK, c\<lparr>cn_intra_key := Some intra_key, cn_int_key := Some int_key\<rparr>,
            s\<lparr>intra_tree1 := conn_insert (intra_tree1 s) int_key p,
              intra_tree2 := conn_insert (intra_tree2 s) intra_key p\<rparr>))))"

definition create_hih ::
  "env \<Rightarrow> hb_state \<Rightarrow> pkt_struct \<Rightarrow> ptr \<Rightarrow> target \<Rightarrow> hih_search \<Rightarrow> conn_struct
     \<Rightarrow> (status_t \<times> conn_struct \<times> hb_state) res" where
  "create_hih E s pkt p t hs c =
     (case (hs_hihID hs, hs_back_handler hs) of
        (Some hihID, Some bhp) \<Rightarrow>
          rbind (get_handler s (Some bhp)) (\<lambda>bh.
          let c = c\<lparr>cn_state := INIT, cn_hih := (cn_hih c)\<lparr>hih_hihID := hihID, hih_back_handler := Some bhp\<rparr>,
                    cn_intra_handler := is_intra_ip E t (cn_first_pkt_dst_ip c)\<rparr> in
          rbind (hih_destination s pkt t bh c) (\<lambda>d.
          (case d of
             HihUndefined \<Rightarrow> Inr (OK, c\<lparr>cn_destination := INTRA\<rparr>, s)
           | HihDrop r \<Rightarrow> Inr (NOK, c\<lparr>cn_destination := r\<rparr>, s)
           | HihTo r \<Rightarrow>
               if r = EXT then create_hih_ext s pkt p t bh (c\<lparr>cn_destination := EXT\<rparr>)
               else create_hih_intra s pkt p bh (c\<lparr>cn_destination := INTRA\<rparr>))))
      | _ \<Rightarrow> Inl Uninitialised)"

text \<open>From an INTRA host: only to a HIH, and only to one that is pinned.  The search by destination
  leaves \<open>back_handler\<close> as it is.\<close>

definition create_intra ::
  "env \<Rightarrow> hb_state \<Rightarrow> pkt_struct \<Rightarrow> ptr \<Rightarrow> target \<Rightarrow> hih_search \<Rightarrow> intra_search \<Rightarrow> conn_struct
     \<Rightarrow> (status_t \<times> conn_struct \<times> hb_state) res" where
  "create_intra E s pkt p t hs is c =
     (let c = c\<lparr>cn_state := PROXY\<rparr> in
      if is_intra_ip E t (cn_first_pkt_dst_ip c) \<noteq> None then Inr (NOK, c\<lparr>cn_destination := INTRA\<rparr>, s)
      else
        rbind (get_handler s (tg_front_handler t)) (\<lambda>h.
        rbind (nonnull (hd_ip h)) (\<lambda>fip.
        if pkt_daddr pkt = fip then Inr (NOK, c\<lparr>cn_destination := LIH\<rparr>, s)
        else
          rbind (g_tree_foreach (find_hih_dst s pkt) (tg_back_handlers t) (hs\<lparr>hs_found := False\<rparr>)) (\<lambda>hs.
          if \<not> hs_found hs then Inr (NOK, c\<lparr>cn_destination := EXT\<rparr>, s)
          else
            (case (hs_back_handler hs, is_intra_handler is) of
               (Some bhp, Some ihp) \<Rightarrow>
                 rbind (get_handler s (Some ihp)) (\<lambda>ih.
                 rbind (get_handler s (Some bhp)) (\<lambda>bh.
                 rbind (nonnull (hd_ip ih)) (\<lambda>iip.
                 rbind (nonnull (hd_ip bh)) (\<lambda>bip.
                 let c = c\<lparr>cn_hih := (cn_hih c)\<lparr>hih_back_handler := Some bhp\<rparr>\<rparr>;
                     (r, s) = new_pin_key s \<lparr>pnk_target_ip = iip, pnk_handler_ip = bip,
                                             pnk_vlan_id = vlan_vid (hd_vlan ih)\<rparr> in
                 rbind (pin_lookup s (intra_pin_tree s) r) (\<lambda>pin.
                 (case pin of
                    None \<Rightarrow> Inr (NOK, c, s)
                  | Some q \<Rightarrow>
                      rbind (deref (st_pins s) q) (\<lambda>pn.
                      rbind (pin_count_add s q 1) (\<lambda>s.
                      let int_key = \<lparr>ck_protocol = pkt_proto pkt, ck_src_ip = pkt_daddr pkt,
                                     ck_src_port = pkt_dest pkt, ck_dst_ip = pin_ip pn,
                                     ck_dst_port = pkt_source pkt, ck_vlan_id = 0\<rparr>;
                          intra_key = \<lparr>ck_protocol = pkt_proto pkt, ck_src_ip = pkt_saddr pkt,
                                       ck_src_port = pkt_source pkt, ck_dst_ip = pkt_daddr pkt,
                                       ck_dst_port = pkt_dest pkt, ck_vlan_id = vlan_vid (hd_vlan bh)\<rparr> in
                      Inr (OK, c\<lparr>cn_pin_ip := Some q, cn_pin_key := Some r, cn_destination := HIH,
                                 cn_int_key := Some int_key, cn_intra_key := Some intra_key\<rparr>,
                           s\<lparr>intra_tree1 := conn_insert (intra_tree1 s) int_key p,
                             intra_tree2 := conn_insert (intra_tree2 s) intra_key p\<rparr>)))))))))
             | _ \<Rightarrow> Inl Uninitialised)))))"

text \<open>The branch a new connection takes by the role of its first packet.\<close>

definition create_branch ::
  "env \<Rightarrow> hb_state \<Rightarrow> pkt_struct \<Rightarrow> ptr \<Rightarrow> target \<Rightarrow> hih_search \<Rightarrow> intra_search \<Rightarrow> conn_struct
     \<Rightarrow> (status_t \<times> conn_struct \<times> hb_state) res" where
  "create_branch E s pkt p t hs is c =
     (case pkt_origin pkt of
        EXT \<Rightarrow> create_ext s pkt p t c
      | LIH \<Rightarrow> create_lih E s pkt p t c
      | HIH \<Rightarrow> create_hih E s pkt p t hs c
      | INTRA \<Rightarrow> create_intra E s pkt p t hs is c
      | INT_ROLE \<Rightarrow> Inr (NOK, c, s))"

text \<open>The connection structure of the target is allocated, filled, handed to the branch of its role,
  and kept or freed.\<close>

definition create_at ::
  "env \<Rightarrow> hb_state \<Rightarrow> pkt_struct \<Rightarrow> int \<Rightarrow> ptr \<Rightarrow> hih_search \<Rightarrow> intra_search
     \<Rightarrow> (status_t \<times> pkt_struct \<times> hb_state) res" where
  "create_at E s pkt now target hs is =
     rbind (get_target s target) (\<lambda>t.
     let (p, s) = alloc s;
         s = s\<lparr>c_id := c_id s + 1\<rparr> in
     rbind (fill_conn target pkt now (ucast (c_id s))) (\<lambda>c.
     rbind (create_branch E (set_conn p c s) pkt p t hs is c) (\<lambda>(result, c, s).
     let s = set_conn p c s in
     if result = OK then Inr (OK, pkt\<lparr>pkt_conn := Some p\<rparr>, s)
     else rbind (free_conn s p) (\<lambda>s. Inr (NOK, pkt, s)))))"

definition create_conn ::
  "env \<Rightarrow> hb_state \<Rightarrow> pkt_struct \<Rightarrow> int \<Rightarrow> (status_t \<times> pkt_struct \<times> hb_state) res" where
  "create_conn E s pkt now =
     rbind (if pkt_proto pkt = IPPROTO_TCP then inside (pkt_flen pkt) (pkt_l4 pkt + 14) else Inr ()) (\<lambda>_.
     if pkt_proto pkt = IPPROTO_TCP \<and> \<not> tcp_syn (pkt_FRAME pkt) (pkt_l4 pkt) then Inr (NOK, pkt, s)
     else if pkt_origin pkt = EXT then
       rbind (get_iface s (Some (pkt_in pkt))) (\<lambda>i.
       (case if_target i of
          None \<Rightarrow> Inr (NOK, pkt, s)
        | Some target \<Rightarrow>
            create_at E s pkt now target \<lparr>hs_found = False, hs_hihID = None, hs_back_handler = None\<rparr>
              \<lparr>is_found = False, is_intra_handler = None\<rparr>))
     else
       rbind (search_target s pkt) (\<lambda>ts.
       (case (ts_found ts, ts_target ts) of
          (True, Some target) \<Rightarrow>
            create_at E s (ts_pkt ts) now target (ts_hih_search ts) (ts_intra_search ts)
        | _ \<Rightarrow> Inr (NOK, ts_pkt ts, s))))"

section \<open>Updating a connection (update_conn, init_conn)\<close>

definition update_conn :: "pkt_struct \<Rightarrow> ptr \<Rightarrow> conn_struct \<Rightarrow> int \<Rightarrow> (pkt_struct \<times> conn_struct) res" where
  "update_conn pkt p c now =
     rbind (gint_of_double now) (\<lambda>access_time.
      let st = (if cn_state c = CONTROL then PROXY else cn_state c);
          c = c\<lparr>cn_stat_time := (cn_stat_time c)(st := now),
                cn_stat_packet := (cn_stat_packet c)(st := cn_stat_packet c st + 1),
                cn_stat_byte := (cn_stat_byte c)(st := cn_stat_byte c st + pkt_size pkt),
                cn_total_packet := cn_total_packet c + 1,
                cn_total_byte := cn_total_byte c + pkt_size pkt,
                cn_access_time := access_time\<rparr>;
          c = (if pkt_origin pkt = EXT
               then c\<lparr>cn_count_data_pkt_from_intruder := cn_count_data_pkt_from_intruder c + 1\<rparr> else c)
      in Inr (pkt\<lparr>pkt_conn := Some p\<rparr>, c))"

definition init_conn :: "env \<Rightarrow> hb_state \<Rightarrow> pkt_struct \<Rightarrow> (status_t \<times> pkt_struct \<times> hb_state) res" where
  "init_conn E s pkt =
     rbind (conn_lookup s pkt) (\<lambda>(r, s).
     (case r of
        None \<Rightarrow> create_conn E s pkt (microtime E)
      | Some (p, pkt) \<Rightarrow>
          rbind (get_conn s p) (\<lambda>c.
          rbind (update_conn pkt p c (microtime E)) (\<lambda>(pkt, c). Inr (OK, pkt, set_conn p c s)))))"

section \<open>Removing a connection (remove_conn)\<close>

text \<open>\<open>g_tree_remove\<close> with a key that may be NULL: an empty tree compares nothing.\<close>

definition conn_remove :: "(conn_key, ptr) gtree \<Rightarrow> conn_key option \<Rightarrow> (conn_key, ptr) gtree res" where
  "conn_remove t k =
     (case k of
        Some k \<Rightarrow> Inr (g_tree_remove conn_key_cmp t k)
      | None \<Rightarrow> if t = [] then Inr t else Inl NullDeref)"

text \<open>
  Giving up a pin: the pin found under the first key counts one less; at zero the
  entry under the second key leaves the tree and the pin is freed.
\<close>

definition drop_pin ::
  "(hb_state \<Rightarrow> (pin_key_ref, ptr) gtree) \<Rightarrow> ((pin_key_ref, ptr) gtree \<Rightarrow> hb_state \<Rightarrow> hb_state) \<Rightarrow>
   hb_state \<Rightarrow> pin_key_ref option \<Rightarrow> pin_key_ref option \<Rightarrow> hb_state res" where
  "drop_pin tree put s r r' =
     (case r of
        None \<Rightarrow> Inr s
      | Some r \<Rightarrow>
          rbind (pin_lookup s (tree s) r) (\<lambda>pin.
          (case pin of
             None \<Rightarrow> Inr s
           | Some q \<Rightarrow>
               rbind (pin_count_add s q (-1)) (\<lambda>s.
               rbind (deref (st_pins s) q) (\<lambda>pn.
               if pin_count pn = 0
               then rbind (nonnull r') (\<lambda>r'.
                    rbind (pin_remove s (tree s) r') (\<lambda>t. free_pin (put t s) q))
               else Inr s)))))"

definition drop_comm_pin :: "hb_state \<Rightarrow> pin_key_ref option \<Rightarrow> hb_state res" where
  "drop_comm_pin s r = drop_pin comm_pin_tree (\<lambda>t s. s\<lparr>comm_pin_tree := t\<rparr>) s r r"

definition drop_intra_pin :: "hb_state \<Rightarrow> pin_key_ref option \<Rightarrow> hb_state res" where
  "drop_intra_pin s r = drop_pin intra_pin_tree (\<lambda>t s. s\<lparr>intra_pin_tree := t\<rparr>) s r r"

text \<open>The target pin is looked up under its own key and removed under the connection's pin key.\<close>

definition drop_target_pin :: "hb_state \<Rightarrow> conn_struct \<Rightarrow> hb_state res" where
  "drop_target_pin s c =
     drop_pin target_pin_tree (\<lambda>t s. s\<lparr>target_pin_tree := t\<rparr>) s (hih_target_pin_key (cn_hih c)) (cn_pin_key c)"

definition remove_from_trees :: "hb_state \<Rightarrow> conn_struct \<Rightarrow> hb_state res" where
  "remove_from_trees s c =
     (if cn_initiator c = EXT then
        rbind (conn_remove (ext_tree1 s) (cn_ext_key c)) (\<lambda>t1.
        rbind (conn_remove (ext_tree2 s) (cn_int_key c)) (\<lambda>t2.
        rbind (case hih_redirected_int_key (cn_hih c) of
                 None \<Rightarrow> Inr t2
               | Some k \<Rightarrow> conn_remove t2 (Some k)) (\<lambda>t2.
        drop_comm_pin (s\<lparr>ext_tree1 := t1, ext_tree2 := t2\<rparr>) (cn_pin_key c))))
      else if (cn_initiator c = LIH \<or> cn_initiator c = HIH) \<and> cn_destination c = EXT then
        rbind (conn_remove (int_tree2 s) (cn_ext_key c)) (\<lambda>t2.
        rbind (conn_remove (int_tree1 s) (cn_int_key c)) (\<lambda>t1.
        drop_comm_pin (s\<lparr>int_tree1 := t1, int_tree2 := t2\<rparr>) (cn_pin_key c)))
      else if cn_initiator c = INTRA \<or> cn_initiator c = HIH \<and> cn_destination c = INTRA then
        rbind (conn_remove (intra_tree1 s) (cn_int_key c)) (\<lambda>t1.
        rbind (conn_remove (intra_tree2 s) (cn_intra_key c)) (\<lambda>t2.
        drop_intra_pin (s\<lparr>intra_tree1 := t1, intra_tree2 := t2\<rparr>) (cn_pin_key c)))
      else Inr s)"

definition remove_conn :: "hb_state \<Rightarrow> ptr \<Rightarrow> int \<Rightarrow> hb_state res" where
  "remove_conn s p delay =
     rbind (get_conn s p) (\<lambda>c.
     if delay \<noteq> 0 \<and> cn_locked c then Inr s
     else
       rbind (lock_conn s p) (\<lambda>s.
       rbind (remove_from_trees s c) (\<lambda>s.
       rbind (drop_target_pin s c) (\<lambda>s.
       free_conn (s\<lparr>st_log := st_log s @ [c]\<rparr>) p))))"

section \<open>Expiry (expire_conn, clean)\<close>

definition expire_conn ::
  "env \<Rightarrow> hb_state \<Rightarrow> int \<Rightarrow> conn_key \<Rightarrow> ptr \<Rightarrow> ptr list \<Rightarrow> (bool \<times> ptr list) res" where
  "expire_conn E s delay key p entrytoclean =
     rbind (get_conn s p) (\<lambda>c.
     rbind (c_int (now_int E - cn_access_time c)) (\<lambda>age.
     Inr (False, if delay < age \<or> cn_state c < INIT then entrytoclean @ [p] else entrytoclean)))"

text \<open>The entries of the three trees that are searched, in the order of the searches.\<close>

definition expired :: "env \<Rightarrow> hb_state \<Rightarrow> int \<Rightarrow> ptr list res" where
  "expired E s delay =
     rbind (g_tree_foreach (expire_conn E s delay) (ext_tree1 s) []) (\<lambda>xs.
     rbind (g_tree_foreach (expire_conn E s delay) (int_tree2 s) xs) (\<lambda>xs.
     g_tree_foreach (expire_conn E s delay) (intra_tree1 s) xs))"

fun remove_all :: "hb_state \<Rightarrow> ptr list \<Rightarrow> int \<Rightarrow> hb_state res" where
  "remove_all s [] delay = Inr s"
| "remove_all s (p # ps) delay = rbind (remove_conn s p delay) (\<lambda>s. remove_all s ps delay)"

definition expiration_delay :: "int \<Rightarrow> int" where
  "expiration_delay configured = (if configured \<le> 0 then 120 else configured)"

text \<open>One wake-up of the cleaning thread.\<close>

definition clean :: "env \<Rightarrow> hb_state \<Rightarrow> int \<Rightarrow> hb_state res" where
  "clean E s configured =
     (let delay = expiration_delay configured in
      rbind (expired E s delay) (\<lambda>ps. remove_all s ps delay))"

section \<open>Redirection (setup_redirection)\<close>

text \<open>The exclusive HIH: pinned to the target address of the connection, or refused.\<close>

definition pin_target :: "hb_state \<Rightarrow> handler \<Rightarrow> u32 \<Rightarrow> conn_struct \<Rightarrow> (bool \<times> conn_struct \<times> hb_state) res" where
  "pin_target s bh ip c =
     (if exclusive_hih s \<noteq> 1 then Inr (True, c, s)
      else
        let k = \<lparr>pnk_target_ip = 0, pnk_handler_ip = ip, pnk_vlan_id = vlan_vid (hd_vlan bh)\<rparr>;
            (r, s) = new_pin_key s k in
        rbind (pin_lookup s (target_pin_tree s) r) (\<lambda>pin.
        (case pin of
           Some q \<Rightarrow>
             rbind (deref (st_pins s) q) (\<lambda>pn.
             if pin_ip pn \<noteq> cn_first_pkt_dst_ip c
             then rbind (free_pin_key s r) (\<lambda>s. Inr (False, c, s))
             else rbind (pin_count_add s q 1) (\<lambda>s.
                  Inr (True, c\<lparr>cn_hih := (cn_hih c)\<lparr>hih_target_pin_key := Some r\<rparr>\<rparr>, s)))
         | None \<Rightarrow>
             let (q, s) = new_pin s r (cn_first_pkt_dst_ip c); (r', s) = new_pin_key s k in
             Inr (True, c\<lparr>cn_hih := (cn_hih c)\<lparr>hih_target_pin_key := Some r'\<rparr>\<rparr>,
                  s\<lparr>target_pin_tree := g_tree_insert pinrefcmp (target_pin_tree s) r q\<rparr>))))"

text \<open>The first run of buffered packets of the attacker; the buffer keeps the rewritten frames.\<close>

function redirect_loop ::
  "env \<Rightarrow> hb_state \<Rightarrow> conn_struct \<Rightarrow> pkt_struct list \<Rightarrow> nat \<Rightarrow> (pkt_struct list \<times> nat \<times> hb_state) res" where
  "redirect_loop E s conn buf i =
     (case nth_data buf i of
        None \<Rightarrow> Inr (buf, i, s)
      | Some current \<Rightarrow>
          if pkt_origin current = EXT
          then rbind (forward_ext2hih E s conn current) (\<lambda>(_, q, s).
               redirect_loop E s conn (buf[i := q]) (i + 1))
          else Inr (buf, i, s))"
  by pat_completeness auto
termination
  by (relation "measure (\<lambda>(E, s, conn, buf, i). length buf - i)")
    (auto simp: nth_data_def split: if_splits)

declare redirect_loop.simps [simp del]

definition redirected_key :: "conn_struct \<Rightarrow> handler \<Rightarrow> u32 \<Rightarrow> conn_key" where
  "redirected_key c bh ip = \<lparr>ck_protocol = cn_protocol c, ck_src_ip = ip, ck_src_port = cn_first_pkt_dst_port c,
     ck_dst_ip = cn_first_pkt_src_ip c, ck_dst_port = cn_first_pkt_src_port c,
     ck_vlan_id = vlan_vid (hd_vlan bh)\<rparr>"

definition redirect_fields :: "env \<Rightarrow> conn_struct \<Rightarrow> u64 \<Rightarrow> ptr \<Rightarrow> conn_key \<Rightarrow> conn_struct" where
  "redirect_fields E c hih_use bhp k =
     switch_state
       (c\<lparr>cn_hih := (cn_hih c)\<lparr>hih_hihID := hih_use, hih_back_handler := Some bhp,
                               hih_port := cn_first_pkt_dst_port c, hih_redirected_int_key := Some k\<rparr>,
          cn_stat_time := (cn_stat_time c)(DECISION := microtime E)\<rparr>) REPLAY"

text \<open>The LIH is reset, the first packets are replayed, and the packet of the LIH that follows them is
  the first one the HIH is expected to match.\<close>

definition start_replay :: "env \<Rightarrow> hb_state \<Rightarrow> ptr \<Rightarrow> conn_struct \<Rightarrow> hb_state res" where
  "start_replay E s p c =
     rbind (reset_lih E s c) (\<lambda>s.
     rbind (redirect_loop E s c (cn_BUFFER c) (cn_replay_id c)) (\<lambda>(buf, i, s).
     let c = c\<lparr>cn_BUFFER := buf, cn_replay_id := i\<rparr> in
     (case nth_data buf i of
        None \<Rightarrow> Inr (set_conn p c s)
      | Some current \<Rightarrow>
          rbind (define_expected_data c current) (\<lambda>c.
          Inr (set_conn p (c\<lparr>cn_replay_id := i + 1\<rparr>) s)))))"

definition setup_redirection :: "env \<Rightarrow> hb_state \<Rightarrow> ptr \<Rightarrow> u64 \<Rightarrow> (status_t \<times> hb_state) res" where
  "setup_redirection E s p hih_use =
     (if hih_use = 0 then Inr (NOK, s)
      else
        rbind (get_conn s p) (\<lambda>c.
        rbind (get_target s (cn_target c)) (\<lambda>t.
        rbind (nonnull (g_tree_lookup intcmp (tg_back_handlers t) hih_use)) (\<lambda>bhp.
        rbind (get_handler s (Some bhp)) (\<lambda>bh.
        (case hd_ip bh of
           None \<Rightarrow> Inr (NOK, s)
         | Some ip \<Rightarrow>
             rbind (pin_target s bh ip c) (\<lambda>(ok, c, s).
             if \<not> ok then Inr (NOK, s)
             else
               let k = redirected_key c bh ip in
               rbind (start_replay E (s\<lparr>ext_tree2 := conn_insert (ext_tree2 s) k p\<rparr>) p
                        (redirect_fields E c hih_use bhp k)) (\<lambda>s.
               Inr (OK, s)))))))))"

section \<open>Switching to an INTRA handler\<close>

text \<open>A NULL key counts as a fault when it is inserted (an empty tree would take it, and the next
  comparison with it would fault).\<close>

definition intra_key_of :: "conn_struct \<Rightarrow> handler \<Rightarrow> u32 \<Rightarrow> conn_key" where
  "intra_key_of c ih ip = \<lparr>ck_protocol = cn_protocol c, ck_src_ip = ip, ck_src_port = cn_first_pkt_dst_port c,
     ck_dst_ip = cn_first_pkt_src_ip c, ck_dst_port = cn_first_pkt_src_port c,
     ck_vlan_id = vlan_vid (hd_vlan ih)\<rparr>"

definition switch_conn_to_intra :: "hb_state \<Rightarrow> ptr \<Rightarrow> ptr option \<Rightarrow> (status_t \<times> hb_state) res" where
  "switch_conn_to_intra s p intra_handler =
     rbind (get_conn s p) (\<lambda>c.
     rbind (get_handler s intra_handler) (\<lambda>ih.
     rbind (nonnull (hd_ip ih)) (\<lambda>ip.
     let intra_key = intra_key_of c ih ip;
         c = c\<lparr>cn_intra_handler := intra_handler, cn_intra_key := Some intra_key\<rparr> in
     rbind (conn_remove (int_tree1 s) (cn_int_key c)) (\<lambda>t1.
     rbind (conn_remove (int_tree2 s) (cn_ext_key c)) (\<lambda>t2.
     rbind (nonnull (cn_int_key c)) (\<lambda>int_key.
     Inr (OK, set_conn p c (s\<lparr>int_tree1 := t1, int_tree2 := t2,
                intra_tree1 := conn_insert (intra_tree1 s) int_key p,
                intra_tree2 := conn_insert (intra_tree2 s) intra_key p\<rparr>))))))))"

definition add_conn_to_intra :: "hb_state \<Rightarrow> ptr option \<Rightarrow> ptr option \<Rightarrow> (status_t \<times> hb_state) res" where
  "add_conn_to_intra s conn intra_handler =
     (case conn of
        None \<Rightarrow> Inr (NOK, s)
      | Some p \<Rightarrow>
          rbind (get_conn s p) (\<lambda>c.
          if cn_intra_handler c \<noteq> None \<or> cn_int_key c \<noteq> None then Inr (NOK, s)
          else
            rbind (get_handler s intra_handler) (\<lambda>ih.
            rbind (nonnull (hd_ip ih)) (\<lambda>ip.
            let intra_key = intra_key_of c ih ip;
                int_key = \<lparr>ck_protocol = cn_protocol c, ck_src_ip = cn_first_pkt_src_ip c,
                           ck_src_port = cn_first_pkt_src_port c, ck_dst_ip = cn_first_pkt_dst_ip c,
                           ck_dst_port = cn_first_pkt_dst_port c, ck_vlan_id = vlan_vid (cn_first_pkt_vlan c)\<rparr>;
                c = c\<lparr>cn_intra_handler := intra_handler, cn_intra_key := Some intra_key, cn_int_key := Some int_key\<rparr> in
            Inr (OK, set_conn p c (s\<lparr>intra_tree1 := conn_insert (intra_tree1 s) int_key p,
                                     intra_tree2 := conn_insert (intra_tree2 s) intra_key p\<rparr>))))))"

end
