(* ===== verification/Management.thy ===== *)
theory Management
  imports Connections
begin

text \<open>
  The targets and handlers at run time (\<open>management.c\<close>) and their release
  (\<open>structs.c\<close>).  The tree of targets and the trees of back handlers were created
  with a function that frees a value when its entry is removed; the trees of
  INTRA handlers were not.
\<close>

section \<open>Releasing handlers and targets (structs.c)\<close>

definition free_handler :: "hb_state \<Rightarrow> ptr option \<Rightarrow> hb_state res" where
  "free_handler s p =
     (case p of
        None \<Rightarrow> Inr s
      | Some p \<Rightarrow>
          rbind (guard DoubleFree (st_handlers s p \<noteq> None)) (\<lambda>_.
          Inr (s\<lparr>st_handlers := (st_handlers s)(p := None)\<rparr>)))"

fun free_handlers :: "hb_state \<Rightarrow> ptr list \<Rightarrow> hb_state res" where
  "free_handlers s [] = Inr s"
| "free_handlers s (p # ps) = rbind (free_handler s (Some p)) (\<lambda>s. free_handlers s ps)"

definition free_target :: "hb_state \<Rightarrow> ptr \<Rightarrow> hb_state res" where
  "free_target s p =
     rbind (get_target s p) (\<lambda>t.
     rbind (free_handler s (tg_front_handler t)) (\<lambda>s.
     rbind (free_handlers s (map snd (tg_back_handlers t))) (\<lambda>s.
     rbind (free_handlers s (tg_intra_handlers_list t)) (\<lambda>s.
     Inr (s\<lparr>st_targets := (st_targets s)(p := None)\<rparr>)))))"

section \<open>Targets (management.c)\<close>

definition put_target :: "ptr \<Rightarrow> target \<Rightarrow> hb_state \<Rightarrow> hb_state" where
  "put_target p t s = s\<lparr>st_targets := (st_targets s)(p \<mapsto> t)\<rparr>"

definition put_handler :: "ptr \<Rightarrow> handler \<Rightarrow> hb_state \<Rightarrow> hb_state" where
  "put_handler p h s = s\<lparr>st_handlers := (st_handlers s)(p \<mapsto> h)\<rparr>"

text \<open>The number is taken even when the target is then refused.\<close>

definition add_target :: "hb_state \<Rightarrow> ptr option \<Rightarrow> (status_t \<times> hb_state) res" where
  "add_target s target =
     (case target of
        None \<Rightarrow> Inr (NOK, s)
      | Some p \<Rightarrow>
          rbind (get_target s p) (\<lambda>t.
          let n = target_counter s + 1;
              s = put_target p (t\<lparr>tg_targetID := n\<rparr>) (s\<lparr>target_counter := n\<rparr>) in
          Inr (if g_tree_lookup intcmp (targets s) n = None
               then (OK, s\<lparr>targets := g_tree_insert intcmp (targets s) n p\<rparr>)
               else (NOK, s))))"

text \<open>Removing the entry frees the target; then its interface is read and it is freed again.\<close>

definition remove_target :: "hb_state \<Rightarrow> u64 \<Rightarrow> (status_t \<times> hb_state) res" where
  "remove_target s targetID =
     (case g_tree_lookup intcmp (targets s) targetID of
        None \<Rightarrow> Inr (NOK, s)
      | Some p \<Rightarrow>
          rbind (free_target (s\<lparr>targets := g_tree_remove intcmp (targets s) targetID\<rparr>) p) (\<lambda>s.
          rbind (get_target s p) (\<lambda>t.
          rbind (case tg_default_route t of
                   None \<Rightarrow> Inr s
                 | Some i \<Rightarrow>
                     rbind (get_iface s (Some i)) (\<lambda>ifc.
                     Inr (s\<lparr>st_ifaces := (st_ifaces s)(i \<mapsto> ifc\<lparr>if_target := None\<rparr>)\<rparr>))) (\<lambda>s.
          rbind (free_target s p) (\<lambda>s. Inr (OK, s))))))"

section \<open>Back handlers\<close>

definition add_back_handler :: "hb_state \<Rightarrow> ptr option \<Rightarrow> ptr option \<Rightarrow> (status_t \<times> hb_state) res" where
  "add_back_handler s target handler =
     (case (target, handler) of
        (Some p, Some q) \<Rightarrow>
          rbind (get_target s p) (\<lambda>t.
          rbind (get_handler s (Some q)) (\<lambda>h.
          let n = tg_back_handler_count t + 1 in
          Inr (OK, put_handler q (h\<lparr>hd_ID := n\<rparr>)
                     (put_target p (t\<lparr>tg_back_handler_count := n,
                                      tg_back_handlers := g_tree_insert intcmp (tg_back_handlers t) n q\<rparr>) s))))
      | _ \<Rightarrow> Inr (NOK, s))"

definition remove_back_handler :: "hb_state \<Rightarrow> ptr \<Rightarrow> u64 \<Rightarrow> (status_t \<times> hb_state) res" where
  "remove_back_handler s p backendID =
     rbind (get_target s p) (\<lambda>t.
     (case g_tree_lookup intcmp (tg_back_handlers t) backendID of
        None \<Rightarrow> Inr (NOK, s)
      | Some q \<Rightarrow>
          let s = put_target p (t\<lparr>tg_back_handlers := g_tree_remove intcmp (tg_back_handlers t) backendID\<rparr>) s in
          rbind (free_handler s (Some q)) (\<lambda>s.
          rbind (free_handler s (Some q)) (\<lambda>s. Inr (OK, s)))))"

section \<open>INTRA handlers\<close>

definition add_intra_handler ::
  "env \<Rightarrow> hb_state \<Rightarrow> ptr option \<Rightarrow> u32 \<Rightarrow> ptr option \<Rightarrow> (status_t \<times> hb_state) res" where
  "add_intra_handler E s target target_ip handler =
     (case (target, handler) of
        (Some p, Some q) \<Rightarrow>
          rbind (get_handler s (Some q)) (\<lambda>h.
          if hd_iface h = None \<or> hd_ip h = None \<or> hd_mac h = None then Inr (NOK, s)
          else
            rbind (get_target s p) (\<lambda>t.
            Inr (if g_tree_lookup (ev_addr_cmp E) (tg_intra_handlers t) target_ip \<noteq> None then (NOK, s)
                 else (OK, put_handler q (h\<lparr>hd_intra_target_ips := hd_intra_target_ips h @ [target_ip]\<rparr>)
                             (put_target p
                                (t\<lparr>tg_intra_handlers_list := tg_intra_handlers_list t @ [q],
                                   tg_intra_handlers := g_tree_insert (ev_addr_cmp E) (tg_intra_handlers t) target_ip q\<rparr>)
                                s)))))
      | _ \<Rightarrow> Inr (NOK, s))"

text \<open>
  The key for the removal is the handler itself, taken for an address: the first
  eight bytes of a handler are its number, those of an address its type (2 for
  IPv4), its 32 significant bits and the address.
\<close>

definition handler_as_addr :: "handler \<Rightarrow> u32 option" where
  "handler_as_addr h =
     (if take_bit 32 (hd_ID h) = 0x200002 then Some (ucast (drop_bit 32 (hd_ID h))) else None)"

fun find_ID :: "hb_state \<Rightarrow> ptr list \<Rightarrow> u64 \<Rightarrow> (ptr \<times> handler) option res" where
  "find_ID s [] intraID = Inr None"
| "find_ID s (q # qs) intraID =
     rbind (get_handler s (Some q)) (\<lambda>h. if hd_ID h = intraID then Inr (Some (q, h)) else find_ID s qs intraID)"

text \<open>One removal for each address of the handler; the list of handlers keeps its entry, and the
  result is NOK in every case.\<close>

definition remove_intra_handler :: "env \<Rightarrow> hb_state \<Rightarrow> ptr \<Rightarrow> u64 \<Rightarrow> (status_t \<times> hb_state) res" where
  "remove_intra_handler E s p intraID =
     rbind (get_target s p) (\<lambda>t.
     rbind (find_ID s (tg_intra_handlers_list t) intraID) (\<lambda>r.
     (case r of
        None \<Rightarrow> Inr (NOK, s)
      | Some (q, h) \<Rightarrow>
          let tree = (case handler_as_addr h of
                        None \<Rightarrow> tg_intra_handlers t
                      | Some a \<Rightarrow> fold (\<lambda>_ tr. g_tree_remove (ev_addr_cmp E) tr a) (hd_intra_target_ips h)
                                    (tg_intra_handlers t)) in
          rbind (free_handler (put_target p (t\<lparr>tg_intra_handlers := tree\<rparr>) s) (Some q)) (\<lambda>s.
          Inr (NOK, s)))))"

section \<open>What the operations do\<close>

text \<open>C27: A back handler that is added gets the next number of its target, is found under it, and leaves the
  other back handlers where they were, as long as the numbers stay below two to the 32nd: the comparison
  of the tree reads only that much of a number.\<close>

theorem add_back_handler_ok:
  assumes "st_targets s p = Some t" and "st_handlers s q = Some h"
    and "int_tree.ordered (tg_back_handlers t)"
  shows "\<exists>s' t'. add_back_handler s (Some p) (Some q) = Inr (OK, s') \<and> st_targets s' p = Some t' \<and>
    tg_back_handler_count t' = tg_back_handler_count t + 1 \<and>
    st_handlers s' q = Some (h\<lparr>hd_ID := tg_back_handler_count t'\<rparr>) \<and> int_tree.ordered (tg_back_handlers t') \<and>
    (\<forall>k. g_tree_lookup intcmp (tg_back_handlers t') k =
      (if (ucast k :: u32) = ucast (tg_back_handler_count t') then Some q
       else g_tree_lookup intcmp (tg_back_handlers t) k))"
  using assms
  by (simp add: add_back_handler_def get_target_def get_handler_def deref_def deref_opt_def put_target_def put_handler_def
      Let_def int_tree.gt.lookup_insert int_tree.ordered_insert intcmp_0)

theorem add_back_handler_ok_witness:
  "\<exists>s' t'. add_back_handler ex_state (Some 50) (Some 21) = Inr (OK, s') \<and> st_targets s' 50 = Some t' \<and>
     g_tree_lookup intcmp (tg_back_handlers t') 2 = Some 21 \<and> g_tree_lookup intcmp (tg_back_handlers t') 1 = Some 22"
proof -
  have o: "int_tree.ordered (tg_back_handlers ex_target)" by (simp add: ex_target_def int_tree.ordered_Cons)
  have "g_tree_lookup intcmp (tg_back_handlers ex_target) 1 = Some 22" "tg_back_handler_count ex_target = 1"
    by (simp_all add: ex_target_def intcmp_def)
  with add_back_handler_ok [OF ex_state_at(5,3) o] show ?thesis by fastforce
qed

lemma free_handler_gone: "free_handler s (Some q) = Inr s' \<Longrightarrow> st_handlers s' q = None"
  by (auto simp: free_handler_def elim!: rbindE)

lemma free_target_gone: "free_target s p = Inr s' \<Longrightarrow> st_targets s' p = None"
  by (auto simp: free_target_def elim!: rbindE)

text \<open>C40: A target or a back handler that exists cannot be removed: the tree frees it as its entry goes, and
  the operation then reads or frees it again.\<close>

theorem remove_faults:
  "(g_tree_lookup intcmp (targets s) n = Some p \<longrightarrow> (\<exists>f. remove_target s n = Inl f)) \<and>
   (st_targets s p' = Some t \<and> g_tree_lookup intcmp (tg_back_handlers t) m = Some q \<longrightarrow>
     remove_back_handler s p' m = Inl DoubleFree)"
  by (auto simp: remove_target_def remove_back_handler_def get_target_def deref_def Let_def free_handler_def put_target_def
      rbind_def guard_def dest!: free_target_gone split: sum.split)

theorem remove_faults_witness:
  "(\<exists>f. remove_target ex_state 1 = Inl f) \<and> remove_back_handler ex_state 50 1 = Inl DoubleFree"
proof -
  have "g_tree_lookup intcmp (targets ex_state) 1 = Some 50" by (simp add: ex_state_def intcmp_def)
  moreover have "g_tree_lookup intcmp (tg_back_handlers ex_target) 1 = Some 22" by (simp add: ex_target_def intcmp_def)
  ultimately show ?thesis using remove_faults [of ex_state 1 50 50 ex_target 1 22] by simp
qed

text \<open>Removing an INTRA handler frees it and leaves it in the tree of its target, unless its number
  happens to spell an address; the next packet towards that address uses the freed handler.\<close>

theorem remove_intra_dangling:
  assumes "remove_intra_handler E s p n = Inr (r, s')" and "st_targets s p = Some t"
    and "find_ID s (tg_intra_handlers_list t) n = Inr (Some (q, h))" and "handler_as_addr h = None"
    and "g_tree_lookup (ev_addr_cmp E) (tg_intra_handlers t) ip = Some q"
  shows "r = NOK \<and> get_handler s' (Some q) = Inl UseAfterFree \<and>
    (\<exists>t'. st_targets s' p = Some t' \<and> is_intra_ip E t' ip = Some q)"
  using assms
  by (auto simp: remove_intra_handler_def get_target_def get_handler_def deref_def deref_opt_def is_intra_ip_def
      put_target_def free_handler_def guard_def split: if_split_asm elim!: rbindE)

theorem remove_intra_dangling_witness:
  "\<exists>s' t'. remove_intra_handler ex_env
      (put_target 50 (ex_target\<lparr>tg_intra_handlers := [(7, 22)], tg_intra_handlers_list := [22]\<rparr>) ex_state) 50 (hd_ID ex_back)
      = Inr (NOK, s') \<and> get_handler s' (Some 22) = Inl UseAfterFree \<and> st_targets s' 50 = Some t' \<and> is_intra_ip ex_env t' 7 = Some 22"
proof -
  let ?t = "ex_target\<lparr>tg_intra_handlers := [(7, 22)], tg_intra_handlers_list := [22]\<rparr>"
  let ?s = "put_target 50 ?t ex_state"
  have s: "st_targets ?s 50 = Some ?t" "st_handlers ?s 22 = Some ex_back" by (simp_all add: put_target_def)
  then have f: "find_ID ?s (tg_intra_handlers_list ?t) (hd_ID ex_back) = Inr (Some (22, ex_back))"
    by (simp add: get_handler_def)
  have a: "handler_as_addr ex_back = None" by (simp add: handler_as_addr_def ex_back_def)
  obtain s' where r: "remove_intra_handler ex_env ?s 50 (hd_ID ex_back) = Inr (NOK, s')"
    using s f a by (simp add: remove_intra_handler_def get_target_def free_handler_def guard_def put_target_def)
  have "g_tree_lookup (ev_addr_cmp ex_env) (tg_intra_handlers ?t) 7 = Some 22" by (simp add: ex_env_def)
  from remove_intra_dangling [OF r s(1) f a this] r show ?thesis by blast
qed

end
