(* ===== verification/Modules.thy ===== *)
theory Modules
  imports Management
begin

text \<open>
  The decision modules: the functions a rule calls for a packet.  The modules of
  \<open>mod_yesno.c\<close>, \<open>mod_counter.c\<close>, \<open>mod_random.c\<close>, \<open>mod_backpick_random.c\<close>,
  \<open>mod_control.c\<close>, \<open>mod_source.c\<close>, \<open>mod_source_time.c\<close>, \<open>mod_hash.c\<close> and
  \<open>mod_dns_control.c\<close>, \<open>mod_vmi.c\<close> in the build with XML-RPC, the lookup of a
  module by its name and the queue of backups of \<open>modules.c\<close>.  A module sees its node, the packet and, behind
  it, the connection; it answers \<open>ACCEPT\<close>, \<open>REJECT\<close> or \<open>DEFER\<close> and may name a backend.
\<close>

section \<open>Numbers and their text\<close>

text \<open>Decimal digits as \<open>"%d"\<close> and \<open>"%u"\<close> print them.\<close>

definition digit :: "nat \<Rightarrow> char" where
  "digit d = char_of (48 + d)"

fun dec_nat :: "nat \<Rightarrow> string" where
  "dec_nat n = (if n < 10 then [digit n] else dec_nat (n div 10) @ [digit (n mod 10)])"

declare dec_nat.simps [simp del]

definition dec_int :: "int \<Rightarrow> string" where
  "dec_int i = (if i < 0 then CHR ''-'' # dec_nat (nat (- i)) else dec_nat (nat i))"

definition is_digit :: "char \<Rightarrow> bool" where
  "is_digit c \<longleftrightarrow> 48 \<le> (of_char c :: nat) \<and> (of_char c :: nat) \<le> 57"

definition is_space :: "char \<Rightarrow> bool" where
  "is_space c \<longleftrightarrow> of_char c = (32::nat) \<or> 9 \<le> (of_char c :: nat) \<and> (of_char c :: nat) \<le> 13"

definition digits_val :: "string \<Rightarrow> nat" where
  "digits_val ds = foldl (\<lambda>n c. 10 * n + (of_char c - 48)) 0 ds"

text \<open>\<open>atoi\<close>: blanks, a sign, digits; the value is cut to 64 bits and then to an \<open>int\<close>.\<close>

fun signed_val :: "string \<Rightarrow> int" where
  "signed_val [] = 0"
| "signed_val (c # u) =
     (if c = CHR ''-'' then - int (digits_val (takeWhile is_digit u))
      else if c = CHR ''+'' then int (digits_val (takeWhile is_digit u))
      else int (digits_val (takeWhile is_digit (c # u))))"

definition atoi :: "string \<Rightarrow> int" where
  "atoi s = to_int32 (max (- (2 ^ 63)) (min (2 ^ 63 - 1) (signed_val (dropWhile is_space s))))"

subsection \<open>Printing and reading are inverse\<close>

lemma of_char_digit [simp]: "d < 10 \<Longrightarrow> of_char (digit d) = (48 + d :: nat)"
  by (simp add: digit_def)

lemma is_digit_digit [simp]: "d < 10 \<Longrightarrow> is_digit (digit d)"
  by (simp add: is_digit_def)

lemma dec_nat_digits: "\<forall>c \<in> set (dec_nat n). is_digit c"
  by (induction n rule: dec_nat.induct) (subst dec_nat.simps, auto)

lemma dec_nat_Cons: "\<exists>c u. dec_nat n = c # u \<and> is_digit c"
  using dec_nat_digits [of n] by (cases "dec_nat n") (auto, subst (asm) dec_nat.simps, simp split: if_split_asm)

lemma digits_val_dec_nat [simp]: "digits_val (dec_nat n) = n"
proof (induction n rule: dec_nat.induct)
  case (1 n)
  then show ?case by (subst dec_nat.simps) (auto simp: digits_val_def)
qed

lemma takeWhile_dec_nat [simp]: "takeWhile is_digit (dec_nat n) = dec_nat n"
  using dec_nat_digits takeWhile_eq_all_conv by blast

lemma digit_not_special: "is_digit c \<Longrightarrow> \<not> is_space c \<and> c \<noteq> CHR ''-'' \<and> c \<noteq> CHR ''+''"
  by (auto simp: is_digit_def is_space_def)

lemma signed_val_dec_nat [simp]: "signed_val (dec_nat n) = int n"
proof -
  obtain c u where c: "dec_nat n = c # u" "is_digit c" using dec_nat_Cons by blast
  then show ?thesis
    using digit_not_special [OF c(2)] dec_nat_digits [of n] digits_val_dec_nat [of n]
    by (simp add: takeWhile_eq_all_conv [THEN iffD2])
qed

lemma dropWhile_dec_nat [simp]: "dropWhile is_space (dec_nat n) = dec_nat n"
  using dec_nat_Cons [of n] digit_not_special by auto

lemma atoi_digits: "atoi (dec_nat n) = to_int32 (min (2 ^ 63 - 1) (int n))"
  by (simp add: atoi_def)

text \<open>What the modules write into a key file they read back.\<close>

lemma atoi_dec_int [simp]:
  assumes "int_ok i"
  shows "atoi (dec_int i) = i"
proof (cases "i < 0")
  case True
  then have "dropWhile is_space (dec_int i) = CHR ''-'' # dec_nat (nat (- i))"
    by (simp add: dec_int_def is_space_def)
  moreover have "max (- (2 ^ 63)) (min (2 ^ 63 - 1) i) = i" using assms by (simp add: int_ok_def)
  ultimately show ?thesis using True assms by (simp add: atoi_def)
next
  case False
  with assms show ?thesis by (simp add: dec_int_def atoi_digits int_ok_def min_def)
qed

section \<open>Parameters of a module\<close>

text \<open>
  The bytes of a number that was stored as an \<open>int\<close>, lowest first, and the C
  string that begins there.  A reader that takes a string for a number gets its
  first four bytes.
\<close>

definition int_chars :: "int \<Rightarrow> string" where
  "int_chars i = map (\<lambda>k. char_of (nat (i mod 2 ^ 32) div 256 ^ k)) [0, 1, 2, 3]"

definition cfg_string :: "cfg_val \<Rightarrow> string res" where
  "cfg_string v =
     (case v of
        CfgString s \<Rightarrow> Inr s
      | CfgInt i \<Rightarrow>
          rbind (guard OutOfBounds (CHR 0x00 \<in> set (int_chars i))) (\<lambda>_.
          Inr (takeWhile (\<lambda>c. c \<noteq> CHR 0x00) (int_chars i)))
      | CfgKeyFile _ \<Rightarrow> Inl TypeConfusion)"

definition cfg_int :: "cfg_val \<Rightarrow> int res" where
  "cfg_int v =
     (case v of
        CfgInt i \<Rightarrow> Inr i
      | CfgString s \<Rightarrow>
          rbind (guard OutOfBounds (3 \<le> length s)) (\<lambda>_.
          Inr (to_int32 (foldr (\<lambda>c n. of_char c + 256 * n) (take 4 (s @ [CHR 0x00])) 0)))
      | CfgKeyFile _ \<Rightarrow> Inl TypeConfusion)"

definition cfg_keyfile :: "cfg_val \<Rightarrow> ptr res" where
  "cfg_keyfile v = (case v of CfgKeyFile p \<Rightarrow> Inr p | _ \<Rightarrow> Inl TypeConfusion)"

text \<open>A parameter read with \<open>atoi\<close>, or its default.\<close>

definition cfg_atoi :: "config \<Rightarrow> string \<Rightarrow> int \<Rightarrow> int res" where
  "cfg_atoi c k d = (case c k of None \<Rightarrow> Inr d | Some v \<Rightarrow> rbind (cfg_string v) (\<lambda>t. Inr (atoi t)))"

section \<open>Arguments and results\<close>

record mod_args =
  ma_node :: node
  ma_pkt :: pkt_struct
  ma_backend_test :: u64
  ma_backend_use :: u64

type_synonym mod_ret = "(mod_result_t \<times> mod_args \<times> hb_state) res"

abbreviation ma_config :: "mod_args \<Rightarrow> config" where
  "ma_config a \<equiv> nd_config (ma_node a)"

definition ma_conn :: "hb_state \<Rightarrow> mod_args \<Rightarrow> (ptr \<times> conn_struct) res" where
  "ma_conn s a = rbind (nonnull (pkt_conn (ma_pkt a))) (\<lambda>p. rbind (get_conn s p) (\<lambda>c. Inr (p, c)))"

section \<open>Finding a module (get_module)\<close>

text \<open>The table in the order of the numbers of the modules; entry 0 has no function.\<close>

definition module_definitions :: "(string \<times> honeybrid_modules_t option) list" where
  "module_definitions =
     [(''invalid'', None), (''source'', Some MOD_SOURCE), (''source_time'', Some MOD_SOURCE_TIME),
      (''random'', Some MOD_RANDOM), (''yesno'', Some MOD_YESNO), (''counter'', Some MOD_COUNTER),
      (''vmi'', Some MOD_VMI), (''control'', Some MOD_CONTROL), (''backpick_random'', Some MOD_BACKPICK_RANDOM),
      (''dns_control'', Some MOD_DNS_CONTROL), (''hash'', Some MOD_HASH)]"

fun find_module :: "(string \<times> honeybrid_modules_t option) list \<Rightarrow> string \<Rightarrow> honeybrid_modules_t option res" where
  "find_module [] modname = Inl ExitCall"
| "find_module ((n, f) # ds) modname =
     (if take (length n) modname = n then Inr f else find_module ds modname)"

definition get_module :: "string \<Rightarrow> honeybrid_modules_t option res" where
  "get_module modname = find_module module_definitions modname"

section \<open>Backups (save_backup, write_backup)\<close>

definition save_backup :: "hb_state \<Rightarrow> ptr \<Rightarrow> string \<Rightarrow> int \<times> hb_state" where
  "save_backup s data filename =
     (if module_to_save s filename = None then 1 else 0,
      s\<lparr>module_to_save := (module_to_save s)(filename \<mapsto> data)\<rparr>)"

text \<open>One pass of the saving thread: \<open>can_open\<close> tells which files can be written; those entries leave the
  queue and the contents of their key files are what is written.\<close>

definition save_backup_handler ::
  "(string \<Rightarrow> bool) \<Rightarrow> hb_state \<Rightarrow> (string \<rightharpoonup> keyfile) \<times> hb_state" where
  "save_backup_handler can_open s =
     ((\<lambda>f. if can_open f then Option.bind (module_to_save s f) (st_keyfiles s) else None),
      s\<lparr>module_to_save := (\<lambda>f. if can_open f then None else module_to_save s f)\<rparr>)"

section \<open>The simple modules\<close>

definition mod_yesno :: "hb_state \<Rightarrow> mod_args \<Rightarrow> mod_ret" where
  "mod_yesno s args =
     (case ma_config args ''value'' of
        None \<Rightarrow> Inr (DEFER, args, s)
      | Some v \<Rightarrow> rbind (cfg_int v) (\<lambda>param. Inr (if param = 0 then ACCEPT else REJECT, args, s)))"

definition mod_counter :: "hb_state \<Rightarrow> mod_args \<Rightarrow> mod_ret" where
  "mod_counter s args =
     (case ma_config args ''counter'' of
        None \<Rightarrow> Inr (DEFER, args, s)
      | Some v \<Rightarrow>
          rbind (cfg_string v) (\<lambda>param.
          rbind (ma_conn s args) (\<lambda>(p, c).
          let pktval = word_of_int (atoi param) :: u32 in
          Inr (if pktval \<le> cn_count_data_pkt_from_intruder c then ACCEPT else REJECT, args, s))))"

text \<open>
  \<open>rand\<close> draws below two to the 31st.  The product of the parameter and the
  quotient is exact in a \<open>double\<close> as far as the comparison with 1 goes: below
  2 it is a multiple of two to the minus 31st.
\<close>

definition mod_random :: "env \<Rightarrow> hb_state \<Rightarrow> mod_args \<Rightarrow> mod_ret" where
  "mod_random E s args =
     (case ma_config args ''value'' of
        None \<Rightarrow> Inr (DEFER, args, s)
      | Some v \<Rightarrow>
          rbind (cfg_int v) (\<lambda>i.
          let val = word_of_int i :: u32 in
          if val < 1 then Inr (REJECT, args, s)
          else
            let proba = unat val * ev_rand E (st_rand s) div 2 ^ 31 in
            Inr (if proba = 1 then ACCEPT else REJECT, args, s\<lparr>st_rand := st_rand s + 1\<rparr>)))"

definition mod_backpick_random :: "env \<Rightarrow> hb_state \<Rightarrow> mod_args \<Rightarrow> mod_ret" where
  "mod_backpick_random E s args =
     rbind (ma_conn s args) (\<lambda>(p, c).
     rbind (get_target s (cn_target c)) (\<lambda>t.
     let n_backends = length (tg_back_handlers t) in
     if n_backends = 0 then Inr (REJECT, args, s)
     else
       let pick = ev_rand E (st_rand s) mod n_backends + 1 in
       Inr (ACCEPT, args\<lparr>ma_backend_use := word_of_nat pick\<rparr>, s\<lparr>st_rand := st_rand s + 1\<rparr>)))"

section \<open>The modules that remember sources\<close>

definition kf_get :: "hb_state \<Rightarrow> ptr \<Rightarrow> string \<Rightarrow> string \<Rightarrow> string list option res" where
  "kf_get s kf grp key = rbind (deref (st_keyfiles s) kf) (\<lambda>m. Inr (m (grp, key)))"

definition kf_set :: "hb_state \<Rightarrow> ptr \<Rightarrow> string \<Rightarrow> string \<Rightarrow> string list \<Rightarrow> hb_state res" where
  "kf_set s kf grp key info =
     rbind (deref (st_keyfiles s) kf) (\<lambda>m.
     Inr (s\<lparr>st_keyfiles := (st_keyfiles s)(kf \<mapsto> m((grp, key) \<mapsto> info))\<rparr>))"

text \<open>An element of a list that ends with NULL.\<close>

definition info_at :: "string list \<Rightarrow> nat \<Rightarrow> string res" where
  "info_at info i =
     (if i < length info then Inr (info ! i) else if i = length info then Inl NullDeref else Inl OutOfBounds)"

text \<open>Both parameters the modules need before they do anything: the key file and the path of the backup.\<close>

definition with_backup :: "hb_state \<Rightarrow> mod_args \<Rightarrow> (ptr \<Rightarrow> string \<Rightarrow> mod_ret) \<Rightarrow> mod_ret" where
  "with_backup s args f =
     (case (ma_config args ''backup'', ma_config args ''backup_file'') of
        (Some b, Some bf) \<Rightarrow> rbind (cfg_keyfile b) (\<lambda>kf. rbind (cfg_string bf) (\<lambda>path. f kf path))
      | _ \<Rightarrow> Inr (DEFER, args, s))"

text \<open>The entry of a source: how often it was seen, when first, and for how long.\<close>

definition new_info :: "int \<Rightarrow> string list" where
  "new_info now = [''1'', dec_int now, ''0'']"

definition renew_info :: "string list \<Rightarrow> int \<Rightarrow> string list" where
  "renew_info info now = info[0 := ''1'', 1 := dec_int now, 2 := ''0'']"

definition touch_info :: "string list \<Rightarrow> int \<Rightarrow> string list res" where
  "touch_info info now =
     rbind (info_at info 0) (\<lambda>n.
     rbind (info_at info 1) (\<lambda>first.
     rbind (c_int (atoi n + 1)) (\<lambda>n.
     rbind (c_int (now - atoi first)) (\<lambda>d.
     Inr (info[0 := dec_int n, 2 := dec_int d])))))"

text \<open>The address as \<open>inet_ntop\<close> and as \<open>"%u"\<close> print it.\<close>

definition inet_ntop :: "u32 \<Rightarrow> string" where
  "inet_ntop a =
     (let b = (\<lambda>k. dec_nat (unat (take_bit 8 (drop_bit (8 * k) a)))) in
      b 0 @ ''.'' @ b 1 @ ''.'' @ b 2 @ ''.'' @ b 3)"

definition mod_control :: "env \<Rightarrow> hb_state \<Rightarrow> mod_args \<Rightarrow> mod_ret" where
  "mod_control E s args =
     with_backup s args (\<lambda>backup backup_file.
     rbind (cfg_atoi (ma_config args) ''expiration'' 600) (\<lambda>expiration.
     rbind (cfg_atoi (ma_config args) ''max_packet'' 1000) (\<lambda>max_packet.
     let now = now_int E; src = inet_ntop (pkt_saddr (ma_pkt args)) in
     rbind (kf_get s backup ''source'' src) (\<lambda>r.
     rbind (case r of
              None \<Rightarrow> Inr (new_info now)
            | Some info \<Rightarrow>
                rbind (info_at info 2) (\<lambda>d.
                if expiration < atoi d then Inr (renew_info info now) else touch_info info now)) (\<lambda>info.
     rbind (info_at info 0) (\<lambda>n.
     let result = (if max_packet < atoi n then REJECT else ACCEPT) in
     rbind (kf_set s backup ''source'' src (take 3 info)) (\<lambda>s.
     Inr (result, args, snd (save_backup s backup backup_file)))))))))"

definition mod_source :: "env \<Rightarrow> hb_state \<Rightarrow> mod_args \<Rightarrow> mod_ret" where
  "mod_source E s args =
     with_backup s args (\<lambda>backup backup_file.
     let now = now_int E; key_src = dec_nat (unat (pkt_saddr (ma_pkt args))); expiration = 24 * 3600 in
     rbind (kf_get s backup ''source'' key_src) (\<lambda>r.
     rbind (case r of
              None \<Rightarrow> Inr (ACCEPT, new_info now)
            | Some info \<Rightarrow>
                rbind (info_at info 2) (\<lambda>d.
                if expiration < atoi d then Inr (ACCEPT, renew_info info now)
                else rbind (touch_info info now) (\<lambda>info. Inr (REJECT, info)))) (\<lambda>(result, info).
     rbind (kf_set s backup ''source'' key_src (take 3 info)) (\<lambda>s.
     Inr (result, args, snd (save_backup s backup backup_file))))))"

text \<open>Within the time frame after the source was first seen; the sums are \<open>int\<close>s, the second is only
  formed when the first comparison holds.\<close>

definition in_frame :: "int \<Rightarrow> int \<Rightarrow> int \<Rightarrow> int \<Rightarrow> bool res" where
  "in_frame first allow_after deny_after now =
     rbind (c_int (first + deny_after)) (\<lambda>x.
     if x < now then Inr False
     else rbind (c_int (first + allow_after)) (\<lambda>y. Inr (y \<le> now)))"

definition mod_source_time :: "env \<Rightarrow> hb_state \<Rightarrow> mod_args \<Rightarrow> mod_ret" where
  "mod_source_time E s args =
     with_backup s args (\<lambda>backup backup_file.
     rbind (cfg_atoi (ma_config args) ''expiration'' (24 * 3600)) (\<lambda>expiration.
     rbind (cfg_atoi (ma_config args) ''deny_after'' 1200) (\<lambda>deny_after.
     rbind (cfg_atoi (ma_config args) ''allow_after'' 0) (\<lambda>allow_after.
     if deny_after \<le> allow_after then Inr (DEFER, args, s)
     else
       let now = now_int E; key_src = dec_nat (unat (pkt_saddr (ma_pkt args)));
           fresh = (if allow_after = 0 then ACCEPT else REJECT) in
       rbind (kf_get s backup ''source'' key_src) (\<lambda>r.
       rbind (case r of
                None \<Rightarrow> Inr (fresh, new_info now)
              | Some info \<Rightarrow>
                  rbind (info_at info 2) (\<lambda>d.
                  if expiration < atoi d then Inr (fresh, renew_info info now)
                  else
                    rbind (info_at info 1) (\<lambda>first.
                    rbind (in_frame (atoi first) allow_after deny_after now) (\<lambda>ok.
                    rbind (touch_info info now) (\<lambda>info. Inr (if ok then ACCEPT else REJECT, info)))))) (\<lambda>(result, info).
       rbind (kf_set s backup ''source'' key_src (take 3 info)) (\<lambda>s.
       Inr (result, args, snd (save_backup s backup backup_file)))))))))"

section \<open>The module that remembers payloads (mod_hash)\<close>

text \<open>
  The copy of the payload is one byte short: its last byte is whatever the block
  held.  After it comes the NUL.  A payload in which addresses were replaced is a
  new block, exactly as long as its text.
\<close>

definition hash_payload :: "env \<Rightarrow> pkt_struct \<Rightarrow> byte list res" where
  "hash_payload E pkt =
     (let n = unat (pkt_data pkt) in
      rbind (inside (pkt_flen pkt) (pkt_payload pkt + (n - 1))) (\<lambda>_.
      Inr (memget (pkt_FRAME pkt) (pkt_payload pkt) (n - 1) @ [ev_uninit E, 0])))"

definition c_str :: "byte list \<Rightarrow> byte list" where
  "c_str bs = takeWhile (\<lambda>b. b \<noteq> 0) bs"

definition hash_masked :: "env \<Rightarrow> byte list \<Rightarrow> byte list" where
  "hash_masked E buf = (case ev_mask_ips E (c_str buf) of None \<Rightarrow> buf | Some t \<Rightarrow> t @ [0])"

text \<open>Two bytes less than the payload are digested; the length is an unsigned 32-bit number.\<close>

definition hash_digest :: "env \<Rightarrow> byte list \<Rightarrow> u32 \<Rightarrow> byte list res" where
  "hash_digest E buf data =
     (let n = unat (data - 2) in
      rbind (guard OutOfBounds (n \<le> length buf)) (\<lambda>_. Inr (ev_digest E (take n buf))))"

definition hex_digit :: "nat \<Rightarrow> char" where
  "hex_digit d = (if d < 10 then char_of (48 + d) else char_of (87 + d))"

definition hex :: "byte list \<Rightarrow> string" where
  "hex bs = concat (map (\<lambda>b. [hex_digit (unat b div 16), hex_digit (unat b mod 16)]) bs)"

definition hash_ascii :: "byte list \<Rightarrow> string" where
  "hash_ascii buf =
     map (\<lambda>b. if 32 \<le> b \<and> b \<le> 126 then char_of (unat b) else CHR ''.'') (take 64 (c_str buf))"

text \<open>The last element is cut by one character to leave room for its NUL; without room for that
  its block is NULL, where the library stops reading the list.\<close>

definition new_hash_info :: "int \<Rightarrow> u32 \<Rightarrow> u32 \<Rightarrow> string \<Rightarrow> string list" where
  "new_hash_info now packets data ascii =
     [''1'', dec_int now, ''0'', dec_int (sint packets), dec_int (sint data)] @
     (if ascii = [] then [] else [butlast ascii])"

definition hash_info :: "string list \<Rightarrow> int \<Rightarrow> u32 \<Rightarrow> (mod_result_t \<times> string list) res" where
  "hash_info info now packets =
     rbind (info_at info 2) (\<lambda>d.
     rbind (if 24 * 3600 < atoi d then Inr (ACCEPT, info[0 := ''1'', 1 := dec_int now, 2 := ''0''])
            else
              rbind (info_at info 0) (\<lambda>n.
              rbind (c_int (atoi n + 1)) (\<lambda>n.
              rbind (c_int (now - atoi d)) (\<lambda>d.
              Inr (REJECT, info[0 := dec_int n, 2 := dec_int d]))))) (\<lambda>(result, info).
     rbind (info_at info 3) (\<lambda>_. Inr (result, info[3 := dec_int (sint packets)]))))"

definition mod_hash :: "env \<Rightarrow> hb_state \<Rightarrow> mod_args \<Rightarrow> mod_ret" where
  "mod_hash E s args =
     (if pkt_data (ma_pkt args) = 0 then Inr (DEFER, args, s)
      else
        with_backup s args (\<lambda>backup backup_file.
        rbind (ma_conn s args) (\<lambda>(_, c).
        let pkt = ma_pkt args; now = now_int E; port = dec_nat (unat (pkt_dest pkt));
            packets = cn_count_data_pkt_from_intruder c in
        rbind (hash_payload E pkt) (\<lambda>buf.
        let buf = hash_masked E buf in
        rbind (hash_digest E buf (pkt_data pkt)) (\<lambda>md.
        let key = hex md in
        rbind (kf_get s backup port key) (\<lambda>r.
        rbind (case r of
                 None \<Rightarrow> Inr (ACCEPT, new_hash_info now packets (pkt_data pkt) (hash_ascii buf))
               | Some info \<Rightarrow> hash_info info now packets) (\<lambda>(result, info).
        rbind (kf_set s backup port key (take 6 info)) (\<lambda>s.
        Inr (result, args, snd (save_backup s backup backup_file))))))))))"

section \<open>The module that redirects DNS (mod_dns_control)\<close>

text \<open>
  The DNS header: the flags in its third byte (the top bit tells a response, the
  four below the bit that follows are the opcode) and the number of questions.
  \<open>ntohs\<close> moves the opcode to the high byte before it is compared.
\<close>

definition dns_query :: "pkt_struct \<Rightarrow> bool" where
  "dns_query pkt \<longleftrightarrow>
     (let f = pkt_FRAME pkt; dns = pkt_payload pkt; opcode = ucast (bits 3 4 (f (dns + 2))) :: u16 in
      \<not> bit (f (dns + 2)) 7 \<and> 0 < get16 f (dns + 4) \<and> ntohs opcode < 6)"

definition is_dns :: "pkt_struct \<Rightarrow> bool" where
  "is_dns pkt \<longleftrightarrow>
     \<not> ((pkt_proto pkt = IPPROTO_TCP \<or> pkt_proto pkt = IPPROTO_UDP) \<and> ntohs (pkt_dest pkt) \<noteq> 53) \<and> 12 \<le> pkt_data pkt"

text \<open>A handler for the server that is configured, on the heap.\<close>

definition new_intra_handler :: "env \<Rightarrow> hb_state \<Rightarrow> string \<Rightarrow> string \<Rightarrow> string \<Rightarrow> int \<Rightarrow> ptr \<times> hb_state" where
  "new_intra_handler E s iface ip mac vlan =
     (let (q, s) = alloc s;
          h = \<lparr>hd_ID = 0, hd_mac = Some (ev_pton_mac E mac), hd_ip = Some (ev_pton_ip E ip), hd_netmask = None,
               hd_vlan = htons (word_of_int vlan AND 0x0FFF), hd_iface = links s iface, hd_rule = None,
               hd_exclusive = 0, hd_intra_target_ips = []\<rparr>
      in (q, put_handler q h s))"

definition mod_dns_control :: "env \<Rightarrow> hb_state \<Rightarrow> mod_args \<Rightarrow> mod_ret" where
  "mod_dns_control E s args =
     (let pkt = ma_pkt args; cfg = ma_config args in
      if \<not> is_dns pkt then Inr (ACCEPT, args, s)
      else
        rbind (inside (pkt_flen pkt) (pkt_payload pkt + 12)) (\<lambda>_.
        if \<not> dns_query pkt then Inr (ACCEPT, args, s)
        else
          (case (cfg ''interface'', cfg ''ip'', cfg ''mac'', cfg ''vlan_id'') of
             (Some iface, Some ip, Some mac, Some vlan) \<Rightarrow>
               rbind (ma_conn s args) (\<lambda>(p, c).
               let s = set_conn p ((switch_state c PROXY)\<lparr>cn_destination := INTRA\<rparr>) s in
               rbind (get_target s (cn_target c)) (\<lambda>t.
               rbind (case is_intra_ip E t (pkt_daddr pkt) of
                        Some q \<Rightarrow> Inr (q, s)
                      | None \<Rightarrow>
                          rbind (cfg_string iface) (\<lambda>iface.
                          rbind (cfg_string ip) (\<lambda>ip.
                          rbind (cfg_string mac) (\<lambda>mac.
                          rbind (cfg_int vlan) (\<lambda>vlan.
                          let (q, s) = new_intra_handler E s iface ip mac vlan in
                          rbind (add_intra_handler E s (Some (cn_target c)) (pkt_daddr pkt) (Some q)) (\<lambda>(_, s).
                          Inr (q, s))))))) (\<lambda>(q, s).
               rbind (switch_conn_to_intra s p (Some q)) (\<lambda>(_, s).
               Inr (ACCEPT, args, s)))))
           | _ \<Rightarrow> Inr (ACCEPT, args, s))))"

section \<open>Virtual machines as backends (mod_vmi.c)\<close>

text \<open>
  The module is initialised when an address of the server is configured.  The text of its URL is a pointer that
  nothing sets: filling it in is refused by the string library, and the call that connects to the server reads through it.
\<close>

definition init_mod_vmi :: "config \<Rightarrow> bool res" where
  "init_mod_vmi config =
     (case config ''vmi_server_ip'' of
        None \<Rightarrow> Inr False
      | Some _ \<Rightarrow>
          (case config ''vmi_server_port'' of
             None \<Rightarrow> Inl ExitCall
           | Some _ \<Rightarrow>
               let vmi_server = None :: string option in
               rbind (nonnull vmi_server) (\<lambda>_. Inr True)))"

text \<open>The tables of banned addresses and of virtual machines have no entry; \<open>get_new_clone\<close> returns no value, and
  the backend is read from what it returns.\<close>

definition mod_vmi_pick :: "bool \<Rightarrow> hb_state \<Rightarrow> mod_args \<Rightarrow> mod_ret" where
  "mod_vmi_pick initialized s args =
     (if \<not> initialized then Inr (ACCEPT, args, s)
      else
        rbind (ma_conn s args) (\<lambda>(_, c).
        rbind (get_target s (cn_target c)) (\<lambda>t.
        if Some (pkt_in (ma_pkt args)) \<noteq> tg_default_route t then Inr (REJECT, args, s)
        else Inl Uninitialised)))"

definition mod_vmi_control :: "bool \<Rightarrow> hb_state \<Rightarrow> mod_args \<Rightarrow> mod_ret" where
  "mod_vmi_control initialized s args =
     (if pkt_origin (ma_pkt args) \<noteq> HIH then Inr (ACCEPT, args, s)
      else if \<not> initialized then Inr (ACCEPT, args, s)
      else
        let vm = None :: unit option in
        (case vm of None \<Rightarrow> Inr (ACCEPT, args, s) | Some _ \<Rightarrow> Inl Uninitialised))"

definition mod_vmi_intra :: "hb_state \<Rightarrow> mod_args \<Rightarrow> mod_ret" where
  "mod_vmi_intra s args = Inr (DEFER, args, s)"

definition mod_vmi :: "bool \<Rightarrow> hb_state \<Rightarrow> mod_args \<Rightarrow> mod_ret" where
  "mod_vmi initialized s args =
     (case ma_config args ''mode'' of
        None \<Rightarrow> Inr (DEFER, args, s)
      | Some mode \<Rightarrow>
          rbind (cfg_string mode) (\<lambda>mode.
          if mode = ''pick'' then mod_vmi_pick initialized s args
          else if mode = ''control'' then mod_vmi_control initialized s args
          else if mode = ''intra'' then mod_vmi_intra s args
          else Inr (DEFER, args, s)))"

text \<open>An initialisation that returns has not initialised the module.\<close>

lemma init_mod_vmi_False: "init_mod_vmi config = Inr b \<Longrightarrow> b = False"
  by (simp add: init_mod_vmi_def split: option.split_asm)

section \<open>Calling a module (run_module)\<close>

text \<open>A rule is walked after the initialisation has returned, so \<open>mod_vmi\<close> runs uninitialised.\<close>

fun call_module :: "env \<Rightarrow> honeybrid_modules_t \<Rightarrow> hb_state \<Rightarrow> mod_args \<Rightarrow> mod_ret" where
  "call_module E MOD_SOURCE s args = mod_source E s args"
| "call_module E MOD_SOURCE_TIME s args = mod_source_time E s args"
| "call_module E MOD_RANDOM s args = mod_random E s args"
| "call_module E MOD_YESNO s args = mod_yesno s args"
| "call_module E MOD_COUNTER s args = mod_counter s args"
| "call_module E MOD_VMI s args = mod_vmi False s args"
| "call_module E MOD_CONTROL s args = mod_control E s args"
| "call_module E MOD_BACKPICK_RANDOM s args = mod_backpick_random E s args"
| "call_module E MOD_DNS_CONTROL s args = mod_dns_control E s args"
| "call_module E MOD_HASH s args = mod_hash E s args"

definition run_module :: "env \<Rightarrow> hb_state \<Rightarrow> mod_args \<Rightarrow> mod_ret" where
  "run_module E s args =
     (case nd_module (ma_node args) of None \<Rightarrow> Inl ExitCall | Some m \<Rightarrow> call_module E m s args)"

end
