(* ===== verification/Decision_Engine.thy ===== *)
theory Decision_Engine
  imports Modules
begin

text \<open>
  The decision engine (\<open>decision_engine.c\<close>): rules are read into trees of
  modules, a packet is walked through a tree, and the outcome moves its
  connection through its states.  The regular expressions that split a rule are
  the library's: \<open>or_split\<close> and \<open>and_split\<close> are arguments, the pieces of a text
  between the matches (one piece when there is none).
\<close>

section \<open>Building a tree (DE_build_subtree, DE_create_tree)\<close>

text \<open>The module named in a rule: its configuration, and the function that configuration names.\<close>

definition make_node ::
  "(string \<rightharpoonup> config) \<Rightarrow> string \<Rightarrow> node option \<Rightarrow> node res" where
  "make_node modules modname true_branch =
     (case modules modname of
        None \<Rightarrow> Inl ExitCall
      | Some cfg \<Rightarrow>
          (case cfg ''function'' of
             None \<Rightarrow> Inl ExitCall
           | Some v \<Rightarrow>
               rbind (cfg_string v) (\<lambda>f.
               rbind (get_module f) (\<lambda>fp.
               if fp = None then Inl ExitCall else Inr (Node fp cfg modname f true_branch None)))))"

text \<open>The left of the first AND becomes the node, the piece after it the subtree; what follows a second
  AND is not looked at.\<close>

partial_function (option) build_subtree ::
  "(string \<Rightarrow> string list) \<Rightarrow> (string \<rightharpoonup> config) \<Rightarrow> string \<Rightarrow> node res option" where
  "build_subtree and_split modules expr =
     (case and_split expr of
        modname # right # _ \<Rightarrow>
          Option.bind (build_subtree and_split modules right) (\<lambda>t.
          Some (rbind t (\<lambda>t. make_node modules modname (Some t))))
      | _ \<Rightarrow> Some (make_node modules expr None))"

definition DE_build_subtree ::
  "(string \<Rightarrow> string list) \<Rightarrow> (string \<rightharpoonup> config) \<Rightarrow> string \<Rightarrow> node res" where
  "DE_build_subtree and_split modules expr = returns (build_subtree and_split modules expr)"

fun build_groups ::
  "(string \<Rightarrow> string list) \<Rightarrow> (string \<rightharpoonup> config) \<Rightarrow> string list \<Rightarrow> node list res" where
  "build_groups and_split modules [] = Inr []"
| "build_groups and_split modules (g # gs) =
     rbind (DE_build_subtree and_split modules g) (\<lambda>n.
     rbind (build_groups and_split modules gs) (\<lambda>ns. Inr (n # ns)))"

text \<open>The loop hangs the head of every group as the false branch on the nodes of the group before it, and leaves
  \<open>node\<close> at the head of the last group.  That is returned: the nodes of the groups before it point to it and not the
  other way round, so nothing of them is reachable from the tree.\<close>

definition DE_create_tree ::
  "(string \<Rightarrow> string list) \<Rightarrow> (string \<Rightarrow> string list) \<Rightarrow> (string \<rightharpoonup> config) \<Rightarrow> string option \<Rightarrow> node option res" where
  "DE_create_tree or_split and_split modules equation =
     (case equation of
        None \<Rightarrow> Inr None
      | Some eqn \<Rightarrow>
          rbind (build_groups and_split modules (or_split eqn)) (\<lambda>heads.
          if heads = [] then Inl NullDeref else Inr (Some (last heads))))"

text \<open>Destroying a tree walks both branches of every node and frees each as it is met; the nodes are
  listed in the order they are freed.\<close>

fun DE_destroy_tree :: "node option \<Rightarrow> string list" where
  "DE_destroy_tree None = []"
| "DE_destroy_tree (Some (Node m c n f t fb)) = DE_destroy_tree fb @ DE_destroy_tree t @ [n]"

section \<open>Walking a tree (decide)\<close>

record decision_holder =
  dh_pkt :: pkt_struct
  dh_node :: "node option"
  dh_result :: decision_t
  dh_backend_test :: u64
  dh_backend_use :: u64

text \<open>The backend a module names when it accepts is kept; the walk ends at a missing branch or a module
  that defers.\<close>

fun decide_loop ::
  "env \<Rightarrow> hb_state \<Rightarrow> mod_args \<Rightarrow> u64 \<Rightarrow> node \<Rightarrow> (decision_t \<times> u64 \<times> hb_state) res" where
  "decide_loop E s args use (Node m c n f t fb) =
     rbind (run_module E s (args\<lparr>ma_node := Node m c n f t fb\<rparr>)) (\<lambda>(result, args, s).
     (case result of
        ACCEPT \<Rightarrow>
          let use = (if ma_backend_use args \<noteq> 0 then ma_backend_use args else use) in
          (case t of
             None \<Rightarrow> Inr (DE_ACCEPT, use, s)
           | Some t \<Rightarrow> decide_loop E s args use t)
      | DEFER \<Rightarrow> Inr (DE_DEFER, use, s)
      | REJECT \<Rightarrow>
          (case fb of
             None \<Rightarrow> Inr (DE_REJECT, use, s)
           | Some fb \<Rightarrow> decide_loop E s args use fb)))"

definition decide :: "env \<Rightarrow> hb_state \<Rightarrow> decision_holder \<Rightarrow> (decision_holder \<times> hb_state) res" where
  "decide E s d =
     rbind (nonnull (dh_node d)) (\<lambda>node.
     rbind (decide_loop E s \<lparr>ma_node = node, ma_pkt = dh_pkt d, ma_backend_test = dh_backend_test d, ma_backend_use = 0\<rparr>
              (dh_backend_use d) node) (\<lambda>(result, use, s).
     Inr (d\<lparr>dh_result := result, dh_backend_use := use\<rparr>, s)))"

section \<open>Decisions (get_decision, get_decision_backend)\<close>

definition get_decision :: "env \<Rightarrow> hb_state \<Rightarrow> decision_holder \<Rightarrow> (decision_holder \<times> hb_state) res" where
  "get_decision E s d =
     (if dh_node d = None then Inr (d, s)
      else
        rbind (decide E s d) (\<lambda>(d, s).
        rbind (nonnull (pkt_conn (dh_pkt d))) (\<lambda>p.
        rbind (get_conn s p) (\<lambda>c.
        Inr (d, set_conn p (c\<lparr>cn_decision_packet_id := cn_total_packet c\<rparr>) s)))))"

text \<open>The key of a backend is read as a 32-bit number.\<close>

definition get_decision_backend ::
  "env \<Rightarrow> u64 \<Rightarrow> ptr \<Rightarrow> decision_holder \<times> hb_state \<Rightarrow> (bool \<times> decision_holder \<times> hb_state) res" where
  "get_decision_backend E key back_handler ds =
     (let (d, s) = ds; k = take_bit 32 key in
      rbind (get_handler s (Some back_handler)) (\<lambda>bh.
      rbind (get_decision E s (d\<lparr>dh_backend_test := k, dh_node := hd_rule bh\<rparr>)) (\<lambda>(d, s).
      Inr (if dh_result d = DE_ACCEPT then (True, d\<lparr>dh_backend_use := k\<rparr>, s) else (False, d, s)))))"

section \<open>The decision for a packet (DE_process_packet)\<close>

definition de_init :: "env \<Rightarrow> hb_state \<Rightarrow> conn_struct \<Rightarrow> decision_holder \<Rightarrow> (decision_holder \<times> hb_state) res" where
  "de_init E s c d =
     rbind (conn_front_handler s c) (\<lambda>h.
     rbind (get_decision E s (d\<lparr>dh_node := hd_rule h\<rparr>)) (\<lambda>(d, s).
     Inr (if dh_result d = DE_DEFER then d\<lparr>dh_result := DE_REJECT\<rparr> else d, s)))"

definition de_decision :: "env \<Rightarrow> hb_state \<Rightarrow> conn_struct \<Rightarrow> decision_holder \<Rightarrow> (decision_holder \<times> hb_state) res" where
  "de_decision E s c d =
     rbind (get_target s (cn_target c)) (\<lambda>t.
     if tg_back_picker t \<noteq> None then
       rbind (get_decision E s (d\<lparr>dh_node := tg_back_picker t\<rparr>)) (\<lambda>(d, s).
       if dh_result d = DE_ACCEPT \<and> dh_backend_use d \<noteq> 0 then
         rbind (get_target s (cn_target c)) (\<lambda>t.
         rbind (get_handler s (g_tree_lookup intcmp (tg_back_handlers t) (dh_backend_use d))) (\<lambda>bh.
         if hd_rule bh \<noteq> None then get_decision E s (d\<lparr>dh_node := hd_rule bh\<rparr>) else Inr (d, s)))
       else Inr (d, s))
     else g_tree_foreach (get_decision_backend E) (tg_back_handlers t) (d, s))"

definition de_control :: "env \<Rightarrow> hb_state \<Rightarrow> conn_struct \<Rightarrow> decision_holder \<Rightarrow> (decision_holder \<times> hb_state) res" where
  "de_control E s c d =
     (if cn_destination c = EXT then
        rbind (get_target s (cn_target c)) (\<lambda>t. get_decision E s (d\<lparr>dh_node := tg_control_rule t\<rparr>))
      else if cn_destination c = INTRA then
        rbind (case cn_intra_handler c of
                 None \<Rightarrow> rbind (get_target s (cn_target c)) (\<lambda>t. Inr (tg_intra_rule t))
               | Some ih \<Rightarrow> rbind (get_handler s (Some ih)) (\<lambda>h. Inr (hd_rule h))) (\<lambda>rule.
        rbind (get_decision E s (d\<lparr>dh_node := rule\<rparr>)) (\<lambda>(d, s).
        Inr (if dh_result d = DE_DEFER \<or> dh_result d = DE_NO_RULE then d\<lparr>dh_result := DE_DROP\<rparr> else d, s)))
      else Inr (d, s))"

text \<open>What follows from the outcome: the next state of the connection, and whether the packet goes on.\<close>

definition de_no_rule :: "hb_state \<Rightarrow> conn_struct \<Rightarrow> conn_status_t res" where
  "de_no_rule s c =
     (if cn_state c = CONTROL then Inr PROXY
      else if cn_state c = INIT then
        rbind (get_target s (cn_target c)) (\<lambda>t. Inr (if tg_back_handler_count t = 0 then PROXY else DECISION))
      else Inr (cn_state c))"

definition de_accept :: "env \<Rightarrow> hb_state \<Rightarrow> ptr \<Rightarrow> conn_struct \<Rightarrow> u64 \<Rightarrow> (status_t \<times> hb_state) res" where
  "de_accept E s p c use =
     (if cn_state c = INIT then
        rbind (get_target s (cn_target c)) (\<lambda>t.
        Inr (OK, set_conn p (switch_state c (if tg_back_handler_count t = 0 \<and> tg_back_picker t = None
                                             then PROXY else DECISION)) s))
      else if cn_state c = DECISION then
        rbind (setup_redirection E s p use) (\<lambda>(_, s). Inr (NOK, s))
      else if cn_state c = CONTROL then Inr (OK, s)
      else Inr (NOK, s))"

definition de_outcome :: "env \<Rightarrow> hb_state \<Rightarrow> ptr \<Rightarrow> decision_holder \<Rightarrow> (status_t \<times> hb_state) res" where
  "de_outcome E s p d =
     rbind (get_conn s p) (\<lambda>c.
     (case dh_result d of
        DE_NO_RULE \<Rightarrow> rbind (de_no_rule s c) (\<lambda>st. Inr (OK, set_conn p (switch_state c st) s))
      | DE_DEFER \<Rightarrow> Inr (OK, s)
      | DE_ACCEPT \<Rightarrow> de_accept E s p c (dh_backend_use d)
      | DE_REJECT \<Rightarrow> Inr (NOK, set_conn p (switch_state c (if cn_state c = DECISION then PROXY else DROP)) s)
      | DE_DROP \<Rightarrow> Inr (NOK, set_conn p (switch_state c DROP) s)))"

definition DE_process_packet :: "env \<Rightarrow> hb_state \<Rightarrow> pkt_struct \<Rightarrow> (status_t \<times> hb_state) res" where
  "DE_process_packet E s pkt =
     rbind (nonnull (pkt_conn pkt)) (\<lambda>p.
     rbind (get_conn s p) (\<lambda>c.
     let d = \<lparr>dh_pkt = pkt, dh_node = None, dh_result = DE_NO_RULE, dh_backend_test = 0, dh_backend_use = 0\<rparr> in
     rbind (case cn_state c of
              INIT \<Rightarrow> de_init E s c d
            | DECISION \<Rightarrow> de_decision E s c d
            | CONTROL \<Rightarrow> de_control E s c d
            | _ \<Rightarrow> Inr (d, s)) (\<lambda>(d, s).
     de_outcome E s p d)))"

section \<open>What a rule means\<close>

text \<open>A module only looks at the configuration of its node.\<close>

definition renode :: "node \<Rightarrow> mod_result_t \<times> mod_args \<times> hb_state \<Rightarrow> mod_ret" where
  "renode n = (\<lambda>(r, a, s). Inr (r, a\<lparr>ma_node := n\<rparr>, s))"

lemma renode_apply [simp]: "renode n (r, a, s) = Inr (r, a\<lparr>ma_node := n\<rparr>, s)"
  by (simp add: renode_def)

lemma rbind_push:
  "rbind (if b then x else y) f = (if b then rbind x f else rbind y f)"
  "rbind (case opt of None \<Rightarrow> x | Some z \<Rightarrow> g z) f = (case opt of None \<Rightarrow> rbind x f | Some z \<Rightarrow> rbind (g z) f)"
  "rbind (case pr of (u, v) \<Rightarrow> h u v) f = (case pr of (u, v) \<Rightarrow> rbind (h u v) f)"
  by (simp_all split: option.split prod.split)

lemma ma_commute: "a\<lparr>ma_backend_use := x, ma_node := n\<rparr> = a\<lparr>ma_node := n, ma_backend_use := x\<rparr>"
  by simp

lemma renode_simple:
  assumes "nd_config n = nd_config n'"
  shows "mod_yesno s (a\<lparr>ma_node := n\<rparr>) = rbind (mod_yesno s (a\<lparr>ma_node := n'\<rparr>)) (renode n)"
    "mod_counter s (a\<lparr>ma_node := n\<rparr>) = rbind (mod_counter s (a\<lparr>ma_node := n'\<rparr>)) (renode n)"
    "mod_random E s (a\<lparr>ma_node := n\<rparr>) = rbind (mod_random E s (a\<lparr>ma_node := n'\<rparr>)) (renode n)"
    "mod_backpick_random E s (a\<lparr>ma_node := n\<rparr>) = rbind (mod_backpick_random E s (a\<lparr>ma_node := n'\<rparr>)) (renode n)"
    "mod_source E s (a\<lparr>ma_node := n\<rparr>) = rbind (mod_source E s (a\<lparr>ma_node := n'\<rparr>)) (renode n)"
    "mod_control E s (a\<lparr>ma_node := n\<rparr>) = rbind (mod_control E s (a\<lparr>ma_node := n'\<rparr>)) (renode n)"
    "mod_source_time E s (a\<lparr>ma_node := n\<rparr>) = rbind (mod_source_time E s (a\<lparr>ma_node := n'\<rparr>)) (renode n)"
    "mod_hash E s (a\<lparr>ma_node := n\<rparr>) = rbind (mod_hash E s (a\<lparr>ma_node := n'\<rparr>)) (renode n)"
    "mod_dns_control E s (a\<lparr>ma_node := n\<rparr>) = rbind (mod_dns_control E s (a\<lparr>ma_node := n'\<rparr>)) (renode n)"
    "mod_vmi b s (a\<lparr>ma_node := n\<rparr>) = rbind (mod_vmi b s (a\<lparr>ma_node := n'\<rparr>)) (renode n)"
  subgoal by (simp add: mod_yesno_def assms rbind_assoc rbind_push cong: option.case_cong if_cong)
  subgoal by (simp add: mod_counter_def assms rbind_assoc ma_conn_def Let_def rbind_push cong: option.case_cong if_cong)
  subgoal by (simp add: mod_random_def assms rbind_assoc Let_def rbind_push cong: option.case_cong if_cong)
  subgoal by (simp add: mod_backpick_random_def ma_commute assms rbind_assoc ma_conn_def Let_def rbind_push cong: option.case_cong if_cong)
  subgoal by (simp add: mod_source_def with_backup_def assms rbind_assoc Let_def rbind_push cong: option.case_cong if_cong)
  subgoal by (simp add: mod_control_def with_backup_def assms rbind_assoc Let_def rbind_push cong: option.case_cong if_cong)
  subgoal by (simp add: mod_source_time_def with_backup_def assms rbind_assoc Let_def rbind_push cong: option.case_cong if_cong)
  subgoal by (simp add: mod_hash_def with_backup_def assms rbind_assoc ma_conn_def Let_def rbind_push cong: option.case_cong if_cong)
  subgoal by (simp add: mod_dns_control_def assms rbind_assoc ma_conn_def Let_def rbind_push cong: option.case_cong if_cong)
  subgoal by (simp add: mod_vmi_def mod_vmi_pick_def mod_vmi_control_def mod_vmi_intra_def assms rbind_assoc ma_conn_def Let_def rbind_push
        cong: option.case_cong if_cong)
  done

lemma renode_run:
  assumes "nd_config n = nd_config n'" and "nd_module n = nd_module n'"
  shows "run_module E s (a\<lparr>ma_node := n\<rparr>) = rbind (run_module E s (a\<lparr>ma_node := n'\<rparr>)) (renode n)"
proof (cases "nd_module n")
  case (Some m)
  then show ?thesis using assms renode_simple [OF assms(1)] by (cases m) (simp_all add: run_module_def)
qed (use assms in \<open>simp add: run_module_def\<close>)

text \<open>
  The meaning of modules joined by AND: they are asked in order, until one does
  not accept; when all accept, so does the group.  The backend that is named
  last is kept.
\<close>

type_synonym rule_module = "honeybrid_modules_t option \<times> config"

definition module_node :: "rule_module \<Rightarrow> node" where
  "module_node m = Node (fst m) (snd m) [] [] None None"

fun eval_group ::
  "env \<Rightarrow> hb_state \<Rightarrow> mod_args \<Rightarrow> u64 \<Rightarrow> rule_module list \<Rightarrow> (mod_result_t \<times> mod_args \<times> u64 \<times> hb_state) res" where
  "eval_group E s args use [] = Inr (ACCEPT, args, use, s)"
| "eval_group E s args use (m # ms) =
     rbind (run_module E s (args\<lparr>ma_node := module_node m\<rparr>)) (\<lambda>(r, args, s).
     if r = ACCEPT
     then eval_group E s args (if ma_backend_use args \<noteq> 0 then ma_backend_use args else use) ms
     else Inr (r, args, use, s))"

text \<open>The modules of a tree along its true branches, and where its nodes fail over to.\<close>

fun chain :: "node \<Rightarrow> rule_module list" where
  "chain (Node m c n f t fb) = (m, c) # (case t of None \<Rightarrow> [] | Some t \<Rightarrow> chain t)"

fun fails_to :: "node option \<Rightarrow> node \<Rightarrow> bool" where
  "fails_to h (Node m c n f t fb) \<longleftrightarrow> fb = h \<and> (case t of None \<Rightarrow> True | Some t \<Rightarrow> fails_to h t)"

lemma decide_loop_node [simp]: "decide_loop E s (args\<lparr>ma_node := x\<rparr>) use n = decide_loop E s args use n"
  by (cases n) simp

lemma chain_nonempty [simp]: "chain n \<noteq> []"
  by (cases n) simp

lemma eval_group_node [simp]:
  "ms \<noteq> [] \<Longrightarrow> eval_group E s (args\<lparr>ma_node := x\<rparr>) use ms = eval_group E s args use ms"
  by (cases ms) simp_all

lemma decide_loop_group:
  assumes "fails_to h n"
  shows "decide_loop E s args use n =
    rbind (eval_group E s args use (chain n)) (\<lambda>(r, args, use, s).
    (case r of
       ACCEPT \<Rightarrow> Inr (DE_ACCEPT, use, s)
     | DEFER \<Rightarrow> Inr (DE_DEFER, use, s)
     | REJECT \<Rightarrow> (case h of None \<Rightarrow> Inr (DE_REJECT, use, s) | Some h \<Rightarrow> decide_loop E s args use h)))"
  using assms
proof (induction n arbitrary: s args use)
  case (Node m c nm f t fb)
  let ?n = "Node m c nm f t fb"
  have r: "run_module E s (args\<lparr>ma_node := ?n\<rparr>) = rbind (run_module E s (args\<lparr>ma_node := module_node (m, c)\<rparr>)) (renode ?n)"
    by (rule renode_run) (simp_all add: module_node_def)
  show ?case
  proof (cases "run_module E s (args\<lparr>ma_node := module_node (m, c)\<rparr>)")
    case (Inr x)
    obtain res a s' where x: "x = (res, a, s')" by (cases x)
    show ?thesis
    proof (cases res)
      case ACCEPT
      then show ?thesis using Node.IH(1) Node.prems r Inr x by (cases t) (simp_all add: Let_def)
    qed (use Node.prems r Inr x in \<open>simp_all split: option.split\<close>)
  qed (use r in simp)
qed

text \<open>The groups that are built have no false branches, and as many modules as the split has pieces, two at
  most.\<close>

lemma make_node_plain:
  "make_node modules name t = Inr n \<Longrightarrow> (case t of None \<Rightarrow> True | Some t \<Rightarrow> fails_to None t) \<Longrightarrow> fails_to None n"
  by (auto simp: make_node_def elim!: rbindE split: option.split_asm if_split_asm)

lemma build_subtree_plain:
  assumes "build_subtree and_split modules expr = Some (Inr n)"
  shows "fails_to None n"
proof -
  have "\<forall>n. r = Inr n \<longrightarrow> fails_to None n" if "build_subtree and_split modules expr = Some r" for r
  proof (rule build_subtree.raw_induct [where P = "\<lambda>_ _ _ r. \<forall>n. r = Inr n \<longrightarrow> fails_to None n", OF _ that])
    fix rec and_split modules expr r
    assume 1: "\<And>and_split modules expr r. rec and_split modules expr = Some r \<Longrightarrow> \<forall>n. r = Inr n \<longrightarrow> fails_to None n"
      and 2: "(case and_split expr of modname # right # _ \<Rightarrow>
          Option.bind (rec and_split modules right) (\<lambda>t. Some (rbind t (\<lambda>t. make_node modules modname (Some t))))
        | _ \<Rightarrow> Some (make_node modules expr None)) = Some r"
    show "\<forall>n. r = Inr n \<longrightarrow> fails_to None n"
    proof (intro allI impI)
      fix n assume "r = Inr n"
      with 2 consider (leaf) "make_node modules expr None = Inr n"
        | (branch) t modname right where "rec and_split modules right = Some (Inr t)" "make_node modules modname (Some t) = Inr n"
        by (auto split: list.split_asm simp: Option.bind_eq_Some_conv elim!: rbindE)
      then show "fails_to None n"
      proof cases
        case leaf
        then show ?thesis by (rule make_node_plain) simp
      next
        case branch
        with 1 show ?thesis by (intro make_node_plain [OF branch(2)]) simp
      qed
    qed
  qed
  with assms show ?thesis by blast
qed

text \<open>The modules a group names, as far as they are read, and the module a name stands for.\<close>

definition group_names :: "(string \<Rightarrow> string list) \<Rightarrow> string \<Rightarrow> string list" where
  "group_names and_split g = (if length (and_split g) < 2 then [g] else take 2 (and_split g))"

definition stands_for :: "(string \<rightharpoonup> config) \<Rightarrow> string \<Rightarrow> rule_module \<Rightarrow> bool" where
  "stands_for modules name m \<longleftrightarrow> (\<exists>v f. modules name = Some (snd m) \<and> snd m ''function'' = Some v \<and>
     cfg_string v = Inr f \<and> get_module f = Inr (fst m) \<and> fst m \<noteq> None)"

lemma make_node_chain:
  assumes "make_node modules name t = Inr n"
  obtains m where "stands_for modules name m" "chain n = m # (case t of None \<Rightarrow> [] | Some t \<Rightarrow> chain t)"
proof -
  from assms obtain cfg v f fp where m: "modules name = Some cfg" "cfg ''function'' = Some v" "cfg_string v = Inr f" "get_module f = Inr fp" "fp \<noteq> None"
    and n: "n = Node fp cfg name f t None"
    by (auto simp: make_node_def elim!: rbindE split: option.split_asm if_split_asm)
  have "stands_for modules name (fp, cfg)" unfolding stands_for_def using m by auto
  then show ?thesis by (rule that) (simp add: n)
qed

lemma build_subtree_chain:
  assumes "DE_build_subtree and_split modules g = Inr n" and "\<forall>y \<in> set (and_split g). length (and_split y) \<le> 1"
  shows "list_all2 (stands_for modules) (group_names and_split g) (chain n)"
proof (cases "length (and_split g) < 2")
  case True
  then have m: "make_node modules g None = Inr n"
    using assms(1) by (auto simp: DE_build_subtree_def build_subtree.simps split: list.split_asm)
  show ?thesis by (rule make_node_chain [OF m]) (use True in \<open>simp add: group_names_def\<close>)
next
  case False
  then obtain m1 m2 ms where g: "and_split g = m1 # m2 # ms" by (cases "and_split g"; cases "tl (and_split g)") auto
  have "length (and_split m2) \<le> 1" using assms(2) g by simp
  then have b: "build_subtree and_split modules m2 = Some (make_node modules m2 None)"
    by (subst build_subtree.simps) (auto split: list.split)
  from assms(1) obtain t where t: "make_node modules m2 None = Inr t" "make_node modules m1 (Some t) = Inr n"
    unfolding DE_build_subtree_def by (subst (asm) build_subtree.simps) (auto simp: g b elim!: rbindE)
  from make_node_chain [OF t(1)] obtain b where b: "stands_for modules m2 b" "chain t = [b]" by auto
  from make_node_chain [OF t(2)] obtain a where a: "stands_for modules m1 a" "chain n = a # chain t" by auto
  show ?thesis using a b g by (simp add: group_names_def)
qed

lemma build_groups_last:
  "build_groups and_split modules gs = Inr heads \<Longrightarrow> length heads = length gs \<and>
     (heads \<noteq> [] \<longrightarrow> DE_build_subtree and_split modules (last gs) = Inr (last heads))"
  by (induction gs arbitrary: heads) (auto elim!: rbindE)

text \<open>C6: The tree that \<open>DE_create_tree\<close> makes of a rule decides like the modules it was made of: walking it has the
  outcome, and the effects, of running one after another the modules that the last group of the rule names (its first
  two), until one does not accept.  The regular expression that splits a group at its ANDs may be any function whose
  pieces are not split again.\<close>

theorem decide_refines:
  assumes "DE_create_tree or_split and_split modules (Some eqn) = Inr (Some n)"
    and "\<forall>g. \<forall>y \<in> set (and_split g). length (and_split y) \<le> 1"
    and "dh_node d = Some n"
  shows "\<exists>ms. list_all2 (stands_for modules) (group_names and_split (last (or_split eqn))) ms \<and>
    decide E s d =
      rbind (eval_group E s \<lparr>ma_node = n, ma_pkt = dh_pkt d, ma_backend_test = dh_backend_test d, ma_backend_use = 0\<rparr>
               (dh_backend_use d) ms)
        (\<lambda>(r, _, use, s). Inr (d\<lparr>dh_result := (case r of ACCEPT \<Rightarrow> DE_ACCEPT | DEFER \<Rightarrow> DE_DEFER | REJECT \<Rightarrow> DE_REJECT),
           dh_backend_use := use\<rparr>, s))"
proof -
  have b: "DE_build_subtree and_split modules (last (or_split eqn)) = Inr n"
    using assms(1) build_groups_last unfolding DE_create_tree_def by (fastforce elim!: rbindE split: if_split_asm)
  have "fails_to None n" using build_subtree_plain b unfolding DE_build_subtree_def by (auto simp: rbind_simps)
  then have "decide E s d =
      rbind (eval_group E s \<lparr>ma_node = n, ma_pkt = dh_pkt d, ma_backend_test = dh_backend_test d, ma_backend_use = 0\<rparr>
               (dh_backend_use d) (chain n))
        (\<lambda>(r, _, use, s). Inr (d\<lparr>dh_result := (case r of ACCEPT \<Rightarrow> DE_ACCEPT | DEFER \<Rightarrow> DE_DEFER | REJECT \<Rightarrow> DE_REJECT),
           dh_backend_use := use\<rparr>, s))"
    using assms(3) by (simp add: decide_def decide_loop_group rbind_assoc)
      (rule arg_cong [where f = "rbind _"], auto simp: fun_eq_iff split: mod_result_t.split)
  with build_subtree_chain [OF b] assms(2) show ?thesis by blast
qed

text \<open>Two modules, one that accepts everything and one that rejects everything.\<close>

definition ex_modules :: "string \<rightharpoonup> config" where
  "ex_modules = [''y'' \<mapsto> [''function'' \<mapsto> CfgString ''yesno'', ''value'' \<mapsto> CfgInt 0],
                 ''n'' \<mapsto> [''function'' \<mapsto> CfgString ''yesno'', ''value'' \<mapsto> CfgInt 1]]"

definition ex_leaf :: "string \<Rightarrow> node" where
  "ex_leaf name = Node (Some MOD_YESNO) (the (ex_modules name)) name ''yesno'' None None"

definition ex_holder :: "node \<Rightarrow> decision_holder" where
  "ex_holder n = \<lparr>dh_pkt = ex_pkt, dh_node = Some n, dh_result = DE_NO_RULE, dh_backend_test = 0, dh_backend_use = 0\<rparr>"

lemma ex_build: "name = ''y'' \<or> name = ''n'' \<Longrightarrow> and_split name = [name] \<Longrightarrow> DE_build_subtree and_split ex_modules name = Inr (ex_leaf name)"
  by (auto simp: DE_build_subtree_def build_subtree.simps make_node_def ex_modules_def ex_leaf_def cfg_string_def get_module_def
      module_definitions_def)

theorem decide_refines_witness:
  "\<exists>n. DE_create_tree (\<lambda>_. [''n'', ''y AND n'']) (\<lambda>x. if x = ''y AND n'' then [''y'', ''n''] else [x]) ex_modules
       (Some ''n OR y AND n'') = Inr (Some n) \<and>
     decide ex_env ex_state (ex_holder n) = Inr (ex_holder n\<lparr>dh_result := DE_REJECT\<rparr>, ex_state)"
proof -
  let ?a = "\<lambda>x. if x = ''y AND n'' then [''y'', ''n''] else [x]"
  have "\<exists>n. DE_build_subtree ?a ex_modules ''y AND n'' = Inr n"
    by (simp add: DE_build_subtree_def build_subtree.simps make_node_def ex_modules_def cfg_string_def get_module_def
        module_definitions_def)
  then obtain n where n: "DE_create_tree (\<lambda>_. [''n'', ''y AND n'']) ?a ex_modules (Some ''n OR y AND n'') = Inr (Some n)"
    by (auto simp: DE_create_tree_def ex_build)
  have names: "group_names ?a ''y AND n'' = [''y'', ''n'']" by (simp add: group_names_def)
  have split: "\<forall>g. \<forall>y \<in> set (?a g). length (?a y) \<le> 1" by simp
  from decide_refines [OF n split, of "ex_holder n" ex_env ex_state] obtain ms where
    ms: "list_all2 (stands_for ex_modules) [''y'', ''n''] ms" and
    d: "decide ex_env ex_state (ex_holder n) =
      rbind (eval_group ex_env ex_state \<lparr>ma_node = n, ma_pkt = ex_pkt, ma_backend_test = 0, ma_backend_use = 0\<rparr> 0 ms)
        (\<lambda>(r, _, use, s). Inr (ex_holder n\<lparr>dh_result := (case r of ACCEPT \<Rightarrow> DE_ACCEPT | DEFER \<Rightarrow> DE_DEFER | REJECT \<Rightarrow> DE_REJECT),
           dh_backend_use := use\<rparr>, s))"
    using names by (auto simp: ex_holder_def)
  from ms have "ms = [(Some MOD_YESNO, the (ex_modules ''y'')), (Some MOD_YESNO, the (ex_modules ''n''))]"
    by (auto simp: list_all2_Cons1 stands_for_def ex_modules_def cfg_string_def get_module_def module_definitions_def prod_eq_iff)
  then have "decide ex_env ex_state (ex_holder n) = Inr (ex_holder n\<lparr>dh_result := DE_REJECT\<rparr>, ex_state)"
    unfolding d by (simp add: module_node_def run_module_def mod_yesno_def ex_modules_def cfg_int_def ex_holder_def)
  with n show ?thesis by blast
qed

text \<open>C33: Of a rule only the first two modules of its last group are kept: the head of the last group is
  returned as the tree, and of the pieces between the ANDs only the first two are read.\<close>

theorem rule_truncated:
  assumes "DE_create_tree or_split and_split modules (Some eqn) = Inr (Some n)" and "or_split eqn = gs @ [g]"
    and "and_split g = m1 # m2 # rest" and "and_split m2 = [m2]"
  shows "\<exists>f1 f2 c1 c2. modules m1 = Some c1 \<and> modules m2 = Some c2 \<and> chain n = [(f1, c1), (f2, c2)] \<and> fails_to None n"
proof -
  have b: "DE_build_subtree and_split modules g = Inr n"
    using assms(1,2) build_groups_last unfolding DE_create_tree_def by (fastforce elim!: rbindE split: if_split_asm)
  then obtain t where t: "make_node modules m2 None = Inr t" "make_node modules m1 (Some t) = Inr n"
    using assms(3,4) unfolding DE_build_subtree_def by (auto simp: build_subtree.simps elim!: rbindE)
  have "fails_to None n"
    using build_subtree_plain b unfolding DE_build_subtree_def by (auto simp: rbind_simps)
  with t show ?thesis
    unfolding make_node_def by (auto elim!: rbindE split: option.split_asm if_split_asm)
qed

theorem rule_truncated_witness:
  "\<exists>n f1 f2 c1 c2. DE_create_tree (\<lambda>_. [''n'', ''y AND n AND y'']) (\<lambda>x. if x = ''y AND n AND y'' then [''y'', ''n'', ''y''] else [x])
      ex_modules (Some ''n OR y AND n AND y'') = Inr (Some n) \<and> chain n = [(f1, c1), (f2, c2)]"
proof -
  let ?a = "\<lambda>x. if x = ''y AND n AND y'' then [''y'', ''n'', ''y''] else [x]"
  have "\<exists>n. DE_build_subtree ?a ex_modules ''y AND n AND y'' = Inr n"
    by (simp add: DE_build_subtree_def build_subtree.simps make_node_def ex_modules_def cfg_string_def get_module_def
        module_definitions_def)
  then obtain n where "DE_create_tree (\<lambda>_. [''n'', ''y AND n AND y'']) ?a ex_modules (Some ''n OR y AND n AND y'') = Inr (Some n)"
    by (auto simp: DE_create_tree_def ex_build)
  from rule_truncated [OF this, of "[''n'']" "''y AND n AND y''" "''y''" "''n''" "[''y'']"] this show ?thesis by fastforce
qed

text \<open>A target whose backends are picked by \<open>mod_vmi\<close> loses every connection that gets to the point of being
  redirected: the module accepts without naming a backend, nothing is redirected, the packet goes no further, and
  the connection stays where it is, for the next packet to be lost the same way.\<close>

theorem vmi_picker_stuck:
  assumes "pkt_conn pkt = Some p" and "st_conns s p = Some c" and "cn_state c = DECISION"
    and "st_targets s (cn_target c) = Some t" and "tg_back_picker t = Some (Node (Some MOD_VMI) cfg name f None fb)"
    and "cfg ''mode'' = Some (CfgString ''pick'')"
  shows "DE_process_packet E s pkt = Inr (NOK, set_conn p (c\<lparr>cn_decision_packet_id := cn_total_packet c\<rparr>) s)"
  using assms
  by (simp add: DE_process_packet_def de_decision_def get_decision_def decide_def run_module_def mod_vmi_def mod_vmi_pick_def
      cfg_string_def de_outcome_def de_accept_def setup_redirection_def get_defs set_conn_def Let_def)

theorem vmi_picker_stuck_witness:
  "let c = (zero_conn 50)\<lparr>cn_state := DECISION\<rparr>;
       t = ex_target\<lparr>tg_back_picker := Some (Node (Some MOD_VMI) [''mode'' \<mapsto> CfgString ''pick''] ''p'' ''vmi'' None None)\<rparr>;
       s = ex_state\<lparr>st_conns := [100 \<mapsto> c], st_targets := [50 \<mapsto> t]\<rparr> in
   DE_process_packet ex_env s (ex_pkt\<lparr>pkt_conn := Some 100\<rparr>) = Inr (NOK, set_conn 100 c s)"
  using vmi_picker_stuck [of "ex_pkt\<lparr>pkt_conn := Some 100\<rparr>" 100
      "ex_state\<lparr>st_conns := [100 \<mapsto> (zero_conn 50)\<lparr>cn_state := DECISION\<rparr>], st_targets := [50 \<mapsto> ex_target\<lparr>tg_back_picker :=
         Some (Node (Some MOD_VMI) [''mode'' \<mapsto> CfgString ''pick''] ''p'' ''vmi'' None None)\<rparr>]\<rparr>"
      "(zero_conn 50)\<lparr>cn_state := DECISION\<rparr>"]
  by (simp add: zero_conn_def Let_def)

end
