(* ===== verification/Conn_Invariant.thy ===== *)
theory Conn_Invariant
  imports Connections
begin

text \<open>
  The invariant of the connection trees: an entry of a tree belongs to a live
  connection, and is one of those \<open>remove_conn\<close> takes out of that tree.  It is
  kept by creating, updating, redirecting and removing connections, so no tree
  holds a freed connection.
\<close>

section \<open>What owns an entry of a connection tree\<close>

definition key_is :: "conn_key option \<Rightarrow> conn_key \<Rightarrow> bool" where
  "key_is o' k \<longleftrightarrow> (\<exists>k'. o' = Some k' \<and> conn_key_cmp k k' = 0)"

lemma key_is_Some [simp]: "key_is (Some k') k \<longleftrightarrow> conn_key_cmp k k' = 0"
  by (simp add: key_is_def)

lemma key_is_None [simp]: "\<not> key_is None k"
  by (simp add: key_is_def)

lemma key_is_same: "conn_key_cmp k k' = 0 \<Longrightarrow> key_is o' k' \<longleftrightarrow> key_is o' k"
  unfolding key_is_def using conn_tree.cmp_eq_trans conn_tree.cmp_eq_sym by blast

definition outgoing :: "conn_struct \<Rightarrow> bool" where
  "outgoing c \<longleftrightarrow> (cn_initiator c = LIH \<or> cn_initiator c = HIH) \<and> cn_destination c = EXT"

definition intra_conn :: "conn_struct \<Rightarrow> bool" where
  "intra_conn c \<longleftrightarrow> cn_initiator c = INTRA \<or> cn_initiator c = HIH \<and> cn_destination c = INTRA"

text \<open>The keys under which \<open>remove_conn\<close> takes a connection out of each of the six trees.\<close>

definition own_ext1 :: "conn_struct \<Rightarrow> conn_key \<Rightarrow> bool" where
  "own_ext1 c k \<longleftrightarrow> cn_initiator c = EXT \<and> key_is (cn_ext_key c) k"

definition own_ext2 :: "conn_struct \<Rightarrow> conn_key \<Rightarrow> bool" where
  "own_ext2 c k \<longleftrightarrow> cn_initiator c = EXT \<and>
     (key_is (cn_int_key c) k \<or> key_is (hih_redirected_int_key (cn_hih c)) k)"

definition own_int1 :: "conn_struct \<Rightarrow> conn_key \<Rightarrow> bool" where
  "own_int1 c k \<longleftrightarrow> outgoing c \<and> key_is (cn_int_key c) k"

definition own_int2 :: "conn_struct \<Rightarrow> conn_key \<Rightarrow> bool" where
  "own_int2 c k \<longleftrightarrow> outgoing c \<and> key_is (cn_ext_key c) k"

definition own_intra1 :: "conn_struct \<Rightarrow> conn_key \<Rightarrow> bool" where
  "own_intra1 c k \<longleftrightarrow> intra_conn c \<and> key_is (cn_int_key c) k"

definition own_intra2 :: "conn_struct \<Rightarrow> conn_key \<Rightarrow> bool" where
  "own_intra2 c k \<longleftrightarrow> intra_conn c \<and> key_is (cn_intra_key c) k"

lemmas own_defs = own_ext1_def own_ext2_def own_int1_def own_int2_def own_intra1_def own_intra2_def

lemma own_same:
  assumes "conn_key_cmp k k' = 0"
  shows "own_ext1 c k' = own_ext1 c k" "own_ext2 c k' = own_ext2 c k" "own_int1 c k' = own_int1 c k"
    "own_int2 c k' = own_int2 c k" "own_intra1 c k' = own_intra1 c k" "own_intra2 c k' = own_intra2 c k"
  using key_is_same [OF assms] by (simp_all add: own_defs)

text \<open>Every entry of a tree is of a live connection that owns it.\<close>

definition owned :: "(conn_struct \<Rightarrow> conn_key \<Rightarrow> bool) \<Rightarrow> (ptr \<rightharpoonup> conn_struct) \<Rightarrow> (conn_key, ptr) gtree \<Rightarrow> bool" where
  "owned R h t \<longleftrightarrow> conn_tree.ordered t \<and> (\<forall>k p. conn_find t k = Some p \<longrightarrow> (\<exists>c. h p = Some c \<and> R c k))"

lemma ownedD: "owned R h t \<Longrightarrow> conn_find t k = Some p \<Longrightarrow> \<exists>c. h p = Some c \<and> R c k"
  by (simp add: owned_def)

lemma owned_Nil [simp]: "owned R h []"
  by (simp add: owned_def conn_find_def)

lemma owned_insert:
  assumes "owned R h t" and "h p = Some c" and "R c k"
    and "\<And>k'. conn_key_cmp k k' = 0 \<Longrightarrow> R c k' = R c k"
  shows "owned R h (conn_insert t k p)"
  unfolding owned_def
proof (intro conjI allI impI)
  have o: "conn_tree.ordered t" using assms(1) by (simp add: owned_def)
  then show "conn_tree.ordered (conn_insert t k p)" by (rule conn_tree.gt.inv_insert)
  fix k' q
  assume "conn_find (conn_insert t k p) k' = Some q"
  then consider "conn_key_cmp k' k = 0" "q = p" | "conn_find t k' = Some q"
    unfolding conn_find_def conn_tree.gt.lookup_insert [OF o] by (cases "conn_key_cmp k' k = 0") simp_all
  then show "\<exists>c. h q = Some c \<and> R c k'"
  proof cases
    case 1
    then have "conn_key_cmp k k' = 0" using conn_tree.cmp_eq_sym by blast
    with 1 assms show ?thesis by auto
  next
    case 2
    then show ?thesis by (rule ownedD [OF assms(1)])
  qed
qed

lemma owned_remove:
  assumes "owned R h t"
  shows "owned R h (g_tree_remove conn_key_cmp t k)"
  unfolding owned_def
proof (intro conjI allI impI)
  have o: "conn_tree.ordered t" using assms by (simp add: owned_def)
  then show "conn_tree.ordered (g_tree_remove conn_key_cmp t k)" by (rule conn_tree.gt.inv_remove)
  fix k' q
  assume "conn_find (g_tree_remove conn_key_cmp t k) k' = Some q"
  then have "conn_find t k' = Some q"
    unfolding conn_find_def conn_tree.gt.lookup_remove [OF o] by (cases "conn_key_cmp k' k = 0") simp_all
  then show "\<exists>c. h q = Some c \<and> R c k'" by (rule ownedD [OF assms])
qed

text \<open>A connection may change in what it does not own by, and a new one takes a fresh address.\<close>

lemma owned_heap:
  assumes "owned R h t" and "\<And>p c k. h p = Some c \<Longrightarrow> R c k \<Longrightarrow> \<exists>c'. h' p = Some c' \<and> R c' k"
  shows "owned R h' t"
  using assms by (fastforce simp: owned_def)

lemma owned_upd:
  assumes "owned R h t" and "h p = None \<or> (\<exists>c0. h p = Some c0 \<and> (\<forall>k. R c0 k \<longrightarrow> R c k))"
  shows "owned R (h(p \<mapsto> c)) t"
  by (rule owned_heap [OF assms(1)]) (use assms(2) in auto)

text \<open>After a connection left the tree under each of its keys, it may be freed.\<close>

lemma owned_free:
  assumes "owned R h t" and "\<And>k. conn_find t k = Some p \<Longrightarrow> False"
  shows "owned R (h(p := None)) t"
  unfolding owned_def
proof (intro conjI allI impI)
  show "conn_tree.ordered t" using assms(1) by (simp add: owned_def)
  fix k q
  assume "conn_find t k = Some q"
  with assms show "\<exists>c. (h(p := None)) q = Some c \<and> R c k" by (auto simp: owned_def)
qed

definition conns_ok :: "hb_state \<Rightarrow> bool" where
  "conns_ok s \<longleftrightarrow>
     owned own_ext1 (st_conns s) (ext_tree1 s) \<and> owned own_ext2 (st_conns s) (ext_tree2 s) \<and>
     owned own_int1 (st_conns s) (int_tree1 s) \<and> owned own_int2 (st_conns s) (int_tree2 s) \<and>
     owned own_intra1 (st_conns s) (intra_tree1 s) \<and> owned own_intra2 (st_conns s) (intra_tree2 s)"

text \<open>The allocator gives addresses that are not in use.\<close>

definition fresh_ok :: "hb_state \<Rightarrow> bool" where
  "fresh_ok s \<longleftrightarrow> (\<forall>p \<ge> st_next s. st_conns s p = None \<and> st_pins s p = None \<and> p \<notin> st_pin_keys s)"

text \<open>What two states agree on as far as the connection trees go.\<close>

definition same_conns :: "hb_state \<Rightarrow> hb_state \<Rightarrow> bool" where
  "same_conns s s' \<longleftrightarrow> st_conns s' = st_conns s \<and> ext_tree1 s' = ext_tree1 s \<and> ext_tree2 s' = ext_tree2 s \<and>
     int_tree1 s' = int_tree1 s \<and> int_tree2 s' = int_tree2 s \<and>
     intra_tree1 s' = intra_tree1 s \<and> intra_tree2 s' = intra_tree2 s"

lemma same_conns_refl [simp]: "same_conns s s"
  by (simp add: same_conns_def)

lemma same_conns_trans: "same_conns a b \<Longrightarrow> same_conns b c \<Longrightarrow> same_conns a c"
  by (simp add: same_conns_def)

lemma conns_ok_same: "same_conns s s' \<Longrightarrow> conns_ok s' = conns_ok s"
  by (simp add: same_conns_def conns_ok_def)

section \<open>Operations that leave the connections alone\<close>

definition quiet :: "hb_state \<Rightarrow> hb_state \<Rightarrow> bool" where
  "quiet s s' \<longleftrightarrow> same_conns s s' \<and> (fresh_ok s \<longrightarrow> fresh_ok s')"

lemma quiet_refl [simp]: "quiet s s"
  by (simp add: quiet_def)

lemma quiet_trans [trans]: "quiet a b \<Longrightarrow> quiet b c \<Longrightarrow> quiet a c"
  by (auto simp: quiet_def intro: same_conns_trans)

lemma new_pin_key_quiet: "new_pin_key s k = (r, s') \<Longrightarrow> quiet s s'"
  by (auto simp: new_pin_key_def alloc_def quiet_def same_conns_def fresh_ok_def)

lemma free_pin_key_quiet: "free_pin_key s r = Inr s' \<Longrightarrow> quiet s s'"
  by (auto simp: free_pin_key_def rbind_simps quiet_def same_conns_def fresh_ok_def)

lemma free_pin_key_opt_quiet: "free_pin_key_opt s r = Inr s' \<Longrightarrow> quiet s s'"
  by (cases r) (simp_all add: free_pin_key_opt_def free_pin_key_quiet)

lemma free_pin_quiet: "free_pin s p = Inr s' \<Longrightarrow> quiet s s'"
  by (auto simp: free_pin_def free_pin_key_def rbind_simps quiet_def same_conns_def fresh_ok_def)

lemma pin_count_add_quiet: "pin_count_add s p d = Inr s' \<Longrightarrow> quiet s s'"
  by (fastforce simp: pin_count_add_def rbind_simps quiet_def same_conns_def fresh_ok_def)

lemma new_pin_quiet: "new_pin s r ip = (p, s') \<Longrightarrow> quiet s s'"
  by (auto simp: new_pin_def alloc_def quiet_def same_conns_def fresh_ok_def)

lemma pin_trees_quiet [simp]:
  "quiet s (s\<lparr>comm_pin_tree := t\<rparr>)" "quiet s (s\<lparr>intra_pin_tree := t\<rparr>)" "quiet s (s\<lparr>target_pin_tree := t\<rparr>)"
  "quiet s (s\<lparr>st_log := l\<rparr>)" "quiet s (s\<lparr>st_sent := x\<rparr>)" "quiet s (s\<lparr>c_id := i\<rparr>)" "quiet s (s\<lparr>st_rand := n\<rparr>)"
  by (simp_all add: quiet_def same_conns_def fresh_ok_def)

lemma drop_pin_quiet:
  assumes "drop_pin tree put s r r' = Inr s'" and "\<And>t s. quiet s (put t s)"
  shows "quiet s s'"
proof -
  consider "s' = s"
    | q s1 where "pin_count_add s q (-1) = Inr s1" "s' = s1"
    | q s1 t where "pin_count_add s q (-1) = Inr s1" "free_pin (put t s1) q = Inr s'"
    using assms(1) by (auto simp: drop_pin_def rbind_simps split: option.splits if_splits)
  then show ?thesis
    by cases (auto dest!: pin_count_add_quiet free_pin_quiet, metis assms(2) quiet_trans)
qed

lemma drop_quiet:
  "drop_comm_pin s r = Inr s' \<Longrightarrow> quiet s s'" "drop_intra_pin s r = Inr s' \<Longrightarrow> quiet s s'"
  "drop_target_pin s c = Inr s' \<Longrightarrow> quiet s s'"
  unfolding drop_comm_pin_def drop_intra_pin_def drop_target_pin_def by (erule drop_pin_quiet, simp)+

lemmas pin_quiet = new_pin_key_quiet free_pin_key_quiet free_pin_key_opt_quiet free_pin_quiet
  pin_count_add_quiet new_pin_quiet drop_quiet

section \<open>Entering the trees\<close>

text \<open>A connection that has no keys yet owns nothing, and may become any connection.\<close>

definition blank :: "conn_struct \<Rightarrow> bool" where
  "blank c \<longleftrightarrow> cn_ext_key c = None \<and> cn_int_key c = None \<and> cn_intra_key c = None \<and>
     hih_redirected_int_key (cn_hih c) = None"

lemma blank_owns_nothing:
  "blank c \<Longrightarrow> \<not> own_ext1 c k \<and> \<not> own_ext2 c k \<and> \<not> own_int1 c k \<and> \<not> own_int2 c k \<and>
    \<not> own_intra1 c k \<and> \<not> own_intra2 c k"
  by (simp add: blank_def own_defs)

lemma blank_fill: "fill_conn t pkt now i = Inr c \<Longrightarrow> blank c \<and> cn_initiator c = pkt_origin pkt"
  by (auto simp: blank_def fill_conn_def zero_conn_def zero_hih_def Let_def elim!: rbindE)

lemma conns_ok_set_blank:
  assumes "conns_ok s" and "st_conns s p = None \<or> (\<exists>c0. st_conns s p = Some c0 \<and> blank c0)"
  shows "conns_ok (set_conn p c s)"
  using assms by (auto simp: conns_ok_def set_conn_def blank_owns_nothing intro!: owned_upd)

lemma own_stable: "conn_key_cmp k k' = 0 \<Longrightarrow> R = own_ext1 \<or> R = own_ext2 \<or> R = own_int1 \<or> R = own_int2 \<or>
    R = own_intra1 \<or> R = own_intra2 \<Longrightarrow> R c k' = R c k"
  using own_same by blast

lemma conns_ok_enter_ext:
  assumes "conns_ok s" and "st_conns s p = Some c" and "cn_initiator c = EXT"
    and "cn_ext_key c = Some k1" and "cn_int_key c = Some k2 \<or> hih_redirected_int_key (cn_hih c) = Some k2"
  shows "conns_ok (s\<lparr>ext_tree2 := conn_insert (ext_tree2 s) k2 p\<rparr>)"
    "conns_ok (s\<lparr>ext_tree1 := conn_insert (ext_tree1 s) k1 p\<rparr>)"
  using assms own_stable conn_tree.cmp_refl
  by (auto simp: conns_ok_def own_ext1_def own_ext2_def intro!: owned_insert)

lemma conns_ok_enter_int:
  assumes "conns_ok s" and "st_conns s p = Some c" and "outgoing c"
    and "cn_int_key c = Some k1" and "cn_ext_key c = Some k2"
  shows "conns_ok (s\<lparr>int_tree1 := conn_insert (int_tree1 s) k1 p, int_tree2 := conn_insert (int_tree2 s) k2 p\<rparr>)"
  using assms own_stable conn_tree.cmp_refl
  by (auto simp: conns_ok_def own_int1_def own_int2_def intro!: owned_insert)

lemma conns_ok_enter_intra:
  assumes "conns_ok s" and "st_conns s p = Some c" and "intra_conn c"
    and "cn_int_key c = Some k1" and "cn_intra_key c = Some k2"
  shows "conns_ok (s\<lparr>intra_tree1 := conn_insert (intra_tree1 s) k1 p, intra_tree2 := conn_insert (intra_tree2 s) k2 p\<rparr>)"
  using assms own_stable conn_tree.cmp_refl
  by (auto simp: conns_ok_def own_intra1_def own_intra2_def intro!: owned_insert)

lemma conns_ok_quiet: "quiet s s' \<Longrightarrow> conns_ok s' = conns_ok s"
  by (simp add: quiet_def conns_ok_same)

lemma set_conn_quiet: "quiet s s' \<Longrightarrow> same_conns (set_conn p c s) (set_conn p c s')"
  by (simp add: quiet_def same_conns_def set_conn_def)

text \<open>What a branch of \<open>create_conn\<close> does to the connections: it enters the new one into the trees of
  its kind, or into none.\<close>

definition entered :: "hb_state \<Rightarrow> ptr \<Rightarrow> conn_struct \<Rightarrow> hb_state \<Rightarrow> bool" where
  "entered s p c s' \<longleftrightarrow>
     (same_conns s s'
      \<or> (\<exists>k1 k2. cn_initiator c = EXT \<and> cn_ext_key c = Some k1 \<and> cn_int_key c = Some k2 \<and>
           same_conns (s\<lparr>ext_tree1 := conn_insert (ext_tree1 s) k1 p, ext_tree2 := conn_insert (ext_tree2 s) k2 p\<rparr>) s')
      \<or> (\<exists>k1 k2. outgoing c \<and> cn_int_key c = Some k1 \<and> cn_ext_key c = Some k2 \<and>
           same_conns (s\<lparr>int_tree1 := conn_insert (int_tree1 s) k1 p, int_tree2 := conn_insert (int_tree2 s) k2 p\<rparr>) s')
      \<or> (\<exists>k1 k2. intra_conn c \<and> cn_int_key c = Some k1 \<and> cn_intra_key c = Some k2 \<and>
           same_conns (s\<lparr>intra_tree1 := conn_insert (intra_tree1 s) k1 p, intra_tree2 := conn_insert (intra_tree2 s) k2 p\<rparr>) s'))
     \<and> (fresh_ok s \<longrightarrow> fresh_ok s')"

lemma entered_quiet: "quiet s s' \<Longrightarrow> entered s p c s'"
  by (simp add: entered_def quiet_def)

lemma quiet_entered: "quiet s s1 \<Longrightarrow> entered s1 p c s' \<Longrightarrow> entered s p c s'"
  by (auto simp: entered_def quiet_def same_conns_def)

lemma entered_trans: "entered s p c s1 \<Longrightarrow> quiet s1 s' \<Longrightarrow> entered s p c s'"
  by (auto simp: entered_def quiet_def same_conns_def)

lemma entered_ok:
  assumes "entered s p c s'" and "conns_ok s" and "st_conns s p = Some c0" and "blank c0"
  shows "conns_ok (set_conn p c s')"
proof -
  let ?s = "set_conn p c s"
  have ok: "conns_ok ?s" using assms conns_ok_set_blank by blast
  have p: "st_conns ?s p = Some c" by (simp add: set_conn_def)
  have e: "conns_ok (set_conn p c s')" if "conns_ok s1" "same_conns s1 (set_conn p c s')" for s1
    using that conns_ok_same by blast
  consider "same_conns s s'"
    | k1 k2 where "cn_initiator c = EXT" "cn_ext_key c = Some k1" "cn_int_key c = Some k2"
        "same_conns (s\<lparr>ext_tree1 := conn_insert (ext_tree1 s) k1 p, ext_tree2 := conn_insert (ext_tree2 s) k2 p\<rparr>) s'"
    | k1 k2 where "outgoing c" "cn_int_key c = Some k1" "cn_ext_key c = Some k2"
        "same_conns (s\<lparr>int_tree1 := conn_insert (int_tree1 s) k1 p, int_tree2 := conn_insert (int_tree2 s) k2 p\<rparr>) s'"
    | k1 k2 where "intra_conn c" "cn_int_key c = Some k1" "cn_intra_key c = Some k2"
        "same_conns (s\<lparr>intra_tree1 := conn_insert (intra_tree1 s) k1 p, intra_tree2 := conn_insert (intra_tree2 s) k2 p\<rparr>) s'"
    using assms(1) by (auto simp: entered_def)
  then show ?thesis
  proof cases
    case 1
    then show ?thesis using e [OF ok] by (simp add: same_conns_def set_conn_def)
  next
    case (2 k1 k2)
    have "conns_ok (?s\<lparr>ext_tree1 := conn_insert (ext_tree1 ?s) k1 p\<rparr>)"
      by (rule conns_ok_enter_ext(2) [OF ok p 2(1,2) disjI1 [OF 2(3)]])
    then have "conns_ok (?s\<lparr>ext_tree1 := conn_insert (ext_tree1 ?s) k1 p, ext_tree2 := conn_insert (ext_tree2 ?s) k2 p\<rparr>)"
      using conns_ok_enter_ext(1) [of "?s\<lparr>ext_tree1 := conn_insert (ext_tree1 ?s) k1 p\<rparr>" p c k1 k2] p 2 by simp
    then show ?thesis using 2(4) by (elim e) (simp add: same_conns_def set_conn_def)
  next
    case (3 k1 k2)
    show ?thesis using conns_ok_enter_int [OF ok p 3(1-3)] 3(4) by (elim e) (simp add: same_conns_def set_conn_def)
  next
    case (4 k1 k2)
    show ?thesis using conns_ok_enter_intra [OF ok p 4(1-3)] 4(4) by (elim e) (simp add: same_conns_def set_conn_def)
  qed
qed

section \<open>The branches of create_conn\<close>

lemma pin_or_default_quiet:
  assumes "pin_or_default s tree k t c = Inr (ip, c', s')"
  shows "quiet s s'" "cn_initiator c' = cn_initiator c" "cn_destination c' = cn_destination c"
proof -
  obtain r s1 where n: "new_pin_key s k = (r, s1)" by (cases "new_pin_key s k")
  from assms consider "free_pin_key s1 r = Inr s'" "c' = c"
    | q where "pin_count_add s1 q 1 = Inr s'" "c' = c\<lparr>cn_pin_ip := Some q, cn_pin_key := Some r\<rparr>"
    by (auto simp: pin_or_default_def n rbind_simps split: option.splits)
  then have "quiet s s' \<and> cn_initiator c' = cn_initiator c \<and> cn_destination c' = cn_destination c"
    by cases (use new_pin_key_quiet [OF n] in \<open>auto dest!: pin_quiet intro: quiet_trans\<close>)
  then show "quiet s s'" "cn_initiator c' = cn_initiator c" "cn_destination c' = cn_destination c" by simp_all
qed

lemma insert_outgoing_entered:
  assumes "insert_outgoing s pkt p vid ip c = (c', s')" and "outgoing c"
  shows "entered s p c' s'"
  using assms by (auto simp: insert_outgoing_def Let_def entered_def same_conns_def outgoing_def fresh_ok_def)

lemma hold_comm_pin_quiet:
  assumes "hold_comm_pin s r ip = Inr s'"
  shows "quiet s s'"
proof -
  obtain r' s1 where n: "new_pin_key s (snd r) = (r', s1)" by (cases "new_pin_key s (snd r)")
  obtain q s2 where m: "new_pin s1 r' ip = (q, s2)" by (cases "new_pin s1 r' ip")
  from assms consider "s' = s2\<lparr>comm_pin_tree := g_tree_insert pinrefcmp (comm_pin_tree s2) r' q\<rparr>"
    | q' where "pin_count_add s q' 1 = Inr s'"
    by (auto simp: hold_comm_pin_def n m rbind_simps split: option.splits)
  then show ?thesis
  proof cases
    case 1
    then show ?thesis using new_pin_key_quiet [OF n] new_pin_quiet [OF m] by (metis pin_trees_quiet(1) quiet_trans)
  next
    case 2
    then show ?thesis by (rule pin_count_add_quiet)
  qed
qed

lemma create_ext_entered:
  assumes "create_ext s pkt p t c = Inr (r, c', s')" and "cn_initiator c = EXT"
  shows "entered s p c' s'"
proof -
  from assms(1) obtain h ip where h: "get_handler s (tg_front_handler t) = Inr h" and ip: "hd_ip h = Some ip"
    by (auto simp: create_ext_def rbind_simps)
  let ?k = "\<lparr>pnk_target_ip = pkt_daddr pkt, pnk_handler_ip = ip, pnk_vlan_id = vlan_vid (hd_vlan h)\<rparr>"
  obtain rr s1 where n: "new_pin_key s ?k = (rr, s1)" by (cases "new_pin_key s ?k")
  define s2 where "s2 = s1\<lparr>ext_tree1 := conn_insert (ext_tree1 s1) (the (cn_ext_key c')) p,
    ext_tree2 := conn_insert (ext_tree2 s1) (the (cn_int_key c')) p\<rparr>"
  have c': "cn_initiator c' = EXT \<and> cn_ext_key c' \<noteq> None \<and> cn_int_key c' \<noteq> None \<and> quiet s2 s'"
    using assms(1) assms(2) unfolding s2_def
    by (auto simp: create_ext_def h ip n rbind_simps Let_def dest!: hold_comm_pin_quiet)
  have "entered s1 p c' s2" using c' unfolding s2_def entered_def fresh_ok_def by auto
  with c' show ?thesis using new_pin_key_quiet [OF n] by (meson entered_trans quiet_entered)
qed

lemma create_lih_entered:
  assumes "create_lih E s pkt p t c = Inr (r, c', s')" and "cn_initiator c = LIH"
  shows "entered s p c' s'"
proof -
  from assms consider "s' = s"
    | k ip c1 s1 vid where "pin_or_default s (comm_pin_tree s) k t (c\<lparr>cn_state := CONTROL, cn_destination := EXT\<rparr>) = Inr (ip, c1, s1)"
        "insert_outgoing s1 pkt p vid ip c1 = (c', s')"
    by (auto simp: create_lih_def Let_def rbind_simps split: if_splits prod.splits)
  then show ?thesis
  proof cases
    case 1
    then show ?thesis by (simp add: entered_quiet)
  next
    case (2 k ip c1 s1 vid)
    note q = pin_or_default_quiet [OF 2(1)]
    have "outgoing c1" using q assms(2) by (simp add: outgoing_def)
    then show ?thesis using insert_outgoing_entered [OF 2(2)] quiet_entered q(1) by blast
  qed
qed

lemma create_hih_ext_entered:
  assumes "create_hih_ext s pkt p t bh c = Inr (r, c', s')" and "outgoing c"
  shows "entered s p c' s'"
proof -
  from assms obtain tree k ip c1 s1 vid where 1: "pin_or_default s tree k t c = Inr (ip, c1, s1)"
    "insert_outgoing s1 pkt p vid ip c1 = (c', s')"
    by (auto simp: create_hih_ext_def Let_def rbind_simps split: if_splits prod.splits)
  note q = pin_or_default_quiet [OF 1(1)]
  have "outgoing c1" using q assms(2) by (simp add: outgoing_def)
  then show ?thesis using insert_outgoing_entered [OF 1(2)] quiet_entered q(1) by blast
qed

lemma intra_pin_quiet:
  assumes "intra_pin s pkt ih c = Inr (ok, c', s')"
  shows "quiet s s' \<and> cn_initiator c' = cn_initiator c \<and> cn_destination c' = cn_destination c"
proof (cases "hd_exclusive ih = 0")
  case True
  then show ?thesis using assms by (simp add: intra_pin_def)
next
  case False
  with assms obtain ip where ip: "hd_ip ih = Some ip" by (auto simp: intra_pin_def rbind_simps)
  let ?k = "\<lparr>pnk_target_ip = pkt_saddr pkt, pnk_handler_ip = ip, pnk_vlan_id = vlan_vid (hd_vlan ih)\<rparr>"
  obtain r s1 where n: "new_pin_key s ?k = (r, s1)" by (cases "new_pin_key s ?k")
  obtain q s2 where m: "new_pin s1 r (cn_first_pkt_dst_ip c) = (q, s2)" by (cases "new_pin s1 r (cn_first_pkt_dst_ip c)")
  note u = assms [unfolded intra_pin_def, simplified False ip if_False nonnull_simps rbind_Inr Let_def n m prod.case]
  from u consider "s' = s2\<lparr>intra_pin_tree := g_tree_insert pinrefcmp (intra_pin_tree s2) r q\<rparr>"
      "c' = c\<lparr>cn_pin_ip := Some q, cn_pin_key := Some r\<rparr>"
    | "free_pin_key s1 r = Inr s'" "c' = c"
    | q' where "pin_count_add s1 q' 1 = Inr s'" "c' = c\<lparr>cn_pin_key := Some r, cn_pin_ip := Some q'\<rparr>"
    by (auto simp: rbind_simps split: if_splits option.splits)
  then show ?thesis
    by cases (use new_pin_key_quiet [OF n] new_pin_quiet [OF m] in
        \<open>auto dest!: pin_quiet intro: quiet_trans [OF quiet_trans]  quiet_trans\<close>)
qed

lemma create_hih_intra_entered:
  assumes "create_hih_intra s pkt p bh c = Inr (r, c', s')" and "intra_conn c"
  shows "entered s p c' s'"
proof -
  from assms(1) obtain ih ok c1 s1 where 1: "intra_pin s pkt ih c = Inr (ok, c1, s1)"
    and rest: "(if \<not> ok then Inr (NOK, c1, s1) else
       rbind (nonnull (hd_ip ih)) (\<lambda>ip.
       let intra_key = \<lparr>ck_protocol = pkt_proto pkt, ck_src_ip = ip, ck_src_port = pkt_dest pkt,
                        ck_dst_ip = pkt_saddr pkt, ck_dst_port = pkt_source pkt,
                        ck_vlan_id = vlan_vid (hd_vlan ih)\<rparr>;
           int_key = \<lparr>ck_protocol = pkt_proto pkt, ck_src_ip = pkt_saddr pkt, ck_src_port = pkt_source pkt,
                      ck_dst_ip = pkt_daddr pkt, ck_dst_port = pkt_dest pkt,
                      ck_vlan_id = vlan_vid (hd_vlan bh)\<rparr> in
       Inr (OK, c1\<lparr>cn_intra_key := Some intra_key, cn_int_key := Some int_key\<rparr>,
            s1\<lparr>intra_tree1 := conn_insert (intra_tree1 s1) int_key p,
              intra_tree2 := conn_insert (intra_tree2 s1) intra_key p\<rparr>))) = Inr (r, c', s')"
    by (auto simp: create_hih_intra_def rbind_simps simp del: One_nat_def)
  note q = intra_pin_quiet [OF 1]
  have i: "intra_conn c1" using q assms(2) by (simp add: intra_conn_def)
  have "entered s1 p c' s'"
  proof (cases ok)
    case True
    with rest i show ?thesis by (auto simp: entered_def intra_conn_def fresh_ok_def Let_def rbind_simps)
  next
    case False
    with rest show ?thesis by (simp add: entered_quiet)
  qed
  with q show ?thesis using quiet_entered by blast
qed

lemma create_hih_entered:
  assumes "create_hih E s pkt p t hs c = Inr (r, c', s')" and "cn_initiator c = HIH"
  shows "entered s p c' s'"
proof -
  let ?c = "\<lambda>i b. c\<lparr>cn_state := INIT, cn_hih := (cn_hih c)\<lparr>hih_hihID := i, hih_back_handler := Some b\<rparr>,
      cn_intra_handler := is_intra_ip E t (cn_first_pkt_dst_ip c)\<rparr>"
  from assms(1) obtain i b bh d where
    d: "(case d of HihUndefined \<Rightarrow> Inr (OK, ?c i b\<lparr>cn_destination := INTRA\<rparr>, s)
           | HihDrop r \<Rightarrow> Inr (NOK, ?c i b\<lparr>cn_destination := r\<rparr>, s)
           | HihTo r \<Rightarrow> if r = EXT then create_hih_ext s pkt p t bh (?c i b\<lparr>cn_destination := EXT\<rparr>)
               else create_hih_intra s pkt p bh (?c i b\<lparr>cn_destination := INTRA\<rparr>)) = Inr (r, c', s')"
    unfolding create_hih_def Let_def by (auto elim!: rbindE split: option.split_asm)
  consider "s' = s"
    | "create_hih_ext s pkt p t bh (?c i b\<lparr>cn_destination := EXT\<rparr>) = Inr (r, c', s')"
    | "create_hih_intra s pkt p bh (?c i b\<lparr>cn_destination := INTRA\<rparr>) = Inr (r, c', s')"
    using d by (cases d) (simp_all split: if_split_asm)
  then show ?thesis
  proof cases
    case 1
    then show ?thesis by (simp add: entered_quiet)
  next
    case 2
    then show ?thesis by (rule create_hih_ext_entered) (simp add: outgoing_def assms(2))
  next
    case 3
    then show ?thesis by (rule create_hih_intra_entered) (simp add: intra_conn_def assms(2))
  qed
qed

lemma create_intra_entered:
  assumes "create_intra E s pkt p t hs is c = Inr (r, c', s')" and "cn_initiator c = INTRA"
  shows "entered s p c' s'"
proof -
  from assms(1) consider "s' = s"
    | k rr s1 where "new_pin_key s k = (rr, s1)" "s' = s1"
    | k rr s1 q s2 k1 k2 where "new_pin_key s k = (rr, s1)" "pin_count_add s1 q 1 = Inr s2"
        "cn_int_key c' = Some k1" "cn_intra_key c' = Some k2" "cn_initiator c' = INTRA"
        "s' = s2\<lparr>intra_tree1 := conn_insert (intra_tree1 s2) k1 p, intra_tree2 := conn_insert (intra_tree2 s2) k2 p\<rparr>"
    using assms(2) unfolding create_intra_def Let_def
    by (auto elim!: rbindE split: option.split_asm if_split_asm prod.split_asm)
  then show ?thesis
  proof cases
    case 1
    then show ?thesis by (simp add: entered_quiet)
  next
    case 2
    then show ?thesis by (auto intro: entered_quiet dest: pin_quiet)
  next
    case (3 k rr s1 q s2 k1 k2)
    then have "entered s2 p c' s'" by (auto simp: entered_def intra_conn_def fresh_ok_def)
    then show ?thesis using 3(1,2) by (meson pin_quiet quiet_entered)
  qed
qed

section \<open>Creating and updating\<close>

lemma status_cases: "r \<noteq> OK \<longleftrightarrow> r = NOK"
  by (cases r) simp_all

definition unlinked :: "hb_state \<Rightarrow> ptr \<Rightarrow> bool" where
  "unlinked s p \<longleftrightarrow> (\<forall>k. conn_find (ext_tree1 s) k \<noteq> Some p \<and> conn_find (ext_tree2 s) k \<noteq> Some p \<and>
     conn_find (int_tree1 s) k \<noteq> Some p \<and> conn_find (int_tree2 s) k \<noteq> Some p \<and>
     conn_find (intra_tree1 s) k \<noteq> Some p \<and> conn_find (intra_tree2 s) k \<noteq> Some p)"

lemma blank_unlinked:
  assumes "conns_ok s" and "\<And>c. st_conns s p = Some c \<Longrightarrow> blank c"
  shows "unlinked s p"
  using assms blank_owns_nothing unfolding unlinked_def conns_ok_def by (metis ownedD)

lemma unlinked_same: "same_conns s s' \<Longrightarrow> unlinked s' p = unlinked s p"
  by (simp add: same_conns_def unlinked_def)

lemma conns_ok_free:
  assumes "conns_ok s" and "unlinked s p"
  shows "conns_ok (s\<lparr>st_conns := (st_conns s)(p := None)\<rparr>)"
  using assms by (auto simp: conns_ok_def unlinked_def intro!: owned_free)

lemma free_conn_ok:
  assumes "free_conn s p = Inr s'" and "conns_ok s" and "unlinked s p"
  shows "conns_ok s'" "fresh_ok s \<Longrightarrow> fresh_ok s'" "st_conns s' = (st_conns s)(p := None)"
proof -
  from assms(1) have "\<exists>s2. quiet s s2 \<and> s2\<lparr>st_conns := (st_conns s2)(p := None)\<rparr> = s'"
    unfolding free_conn_def
  proof (elim rbindE)
    fix c s1 s2
    assume "free_pin_key_opt s (cn_pin_key c) = Inr s1" "free_pin_key_opt s1 (hih_target_pin_key (cn_hih c)) = Inr s2"
      and "Inr (s2\<lparr>st_conns := (st_conns s2)(p := None)\<rparr>) = Inr s'"
    moreover from this(1,2) have "quiet s s2" by (meson pin_quiet quiet_trans)
    ultimately show ?thesis by auto
  qed
  then obtain s2 where q: "quiet s s2" and s': "s2\<lparr>st_conns := (st_conns s2)(p := None)\<rparr> = s'" by blast
  show "conns_ok s'" unfolding s' [symmetric] using q assms(2,3) unlinked_same [of s s2 p]
    by (intro conns_ok_free) (simp_all add: conns_ok_quiet quiet_def)
  show "fresh_ok s'" if "fresh_ok s" using q that unfolding s' [symmetric] quiet_def fresh_ok_def by auto
  show "st_conns s' = (st_conns s)(p := None)" using q unfolding s' [symmetric] by (simp add: quiet_def same_conns_def)
qed

text \<open>A refused connection has entered no tree.\<close>

lemma create_NOK_quiet:
  "create_ext s pkt p t c = Inr (NOK, c', s') \<Longrightarrow> quiet s s'"
  "create_lih E s pkt p t c = Inr (NOK, c', s') \<Longrightarrow> quiet s s'"
  "create_hih_ext s pkt p t bh c = Inr (NOK, c', s') \<Longrightarrow> quiet s s'"
  "create_hih_intra s pkt p bh c = Inr (NOK, c', s') \<Longrightarrow> quiet s s'"
  "create_intra E s pkt p t hs is c = Inr (NOK, c', s') \<Longrightarrow> quiet s s'"
proof -
  show "create_ext s pkt p t c = Inr (NOK, c', s') \<Longrightarrow> quiet s s'"
    unfolding create_ext_def Let_def by (auto elim!: rbindE split: prod.split_asm)
  show "create_lih E s pkt p t c = Inr (NOK, c', s') \<Longrightarrow> quiet s s'"
    unfolding create_lih_def Let_def by (auto elim!: rbindE split: prod.split_asm if_split_asm)
  show "create_hih_ext s pkt p t bh c = Inr (NOK, c', s') \<Longrightarrow> quiet s s'"
    unfolding create_hih_ext_def Let_def by (auto elim!: rbindE split: prod.split_asm)
  show "create_hih_intra s pkt p bh c = Inr (NOK, c', s') \<Longrightarrow> quiet s s'"
    unfolding create_hih_intra_def Let_def
    by (auto elim!: rbindE split: prod.split_asm if_split_asm dest: intra_pin_quiet)
  show "create_intra E s pkt p t hs is c = Inr (NOK, c', s') \<Longrightarrow> quiet s s'"
    unfolding create_intra_def Let_def
    by (auto elim!: rbindE split: option.split_asm if_split_asm prod.split_asm) (erule new_pin_key_quiet)
qed

lemma create_hih_NOK_quiet:
  "create_hih E s pkt p t hs c = Inr (NOK, c', s') \<Longrightarrow> quiet s s'"
  unfolding create_hih_def Let_def
  by (auto elim!: rbindE split: option.split_asm hih_dest.split_asm if_split_asm dest: create_NOK_quiet)

lemma create_branch_entered:
  assumes "create_branch E s pkt p t hs is c = Inr (r, c', s')" and "cn_initiator c = pkt_origin pkt"
  shows "entered s p c' s'" "r = NOK \<Longrightarrow> quiet s s'"
  using assms create_NOK_quiet create_hih_NOK_quiet
  by (auto simp: create_branch_def entered_quiet split: role_t.split_asm
      intro: create_ext_entered create_lih_entered create_hih_entered create_intra_entered)

lemma create_at_ok:
  assumes "create_at E s pkt now target hs is = Inr (r, pkt', s')" and "conns_ok s" and "fresh_ok s"
  shows "conns_ok s'" "fresh_ok s'"
proof -
  let ?p = "st_next s"
  from assms(1) obtain t c x where f: "fill_conn target pkt now (ucast (c_id s + 1)) = Inr c"
    and x: "create_branch E (set_conn ?p c (s\<lparr>st_next := ?p + 1, c_id := c_id s + 1\<rparr>)) pkt ?p t hs is c = Inr x"
      "(case x of (result, c, s) \<Rightarrow> if result = OK then Inr (OK, pkt\<lparr>pkt_conn := Some ?p\<rparr>, set_conn ?p c s)
        else rbind (free_conn (set_conn ?p c s) ?p) (\<lambda>s. Inr (NOK, pkt, s))) = Inr (r, pkt', s')"
    unfolding create_at_def alloc_def Let_def prod.case by (elim rbindE) simp
  define s1 where "s1 = set_conn ?p c (s\<lparr>st_next := ?p + 1, c_id := c_id s + 1\<rparr>)"
  have new: "st_conns s ?p = None" using assms(3) by (simp add: fresh_ok_def)
  have q: "same_conns s (s\<lparr>st_next := ?p + 1, c_id := c_id s + 1\<rparr>)" by (simp add: same_conns_def)
  have ok1: "conns_ok s1" unfolding s1_def
    using conns_ok_same [OF q] assms(2) new blank_fill [OF f] by (intro conns_ok_set_blank) simp_all
  have f1: "fresh_ok s1" using assms(3) by (auto simp: fresh_ok_def s1_def set_conn_def)
  have p1: "st_conns s1 ?p = Some c" by (simp add: s1_def set_conn_def)
  obtain c' s2 where b: "create_branch E s1 pkt ?p t hs is c = Inr (r, c', s2)"
    and r: "(if r = OK then Inr (OK, pkt\<lparr>pkt_conn := Some ?p\<rparr>, set_conn ?p c' s2)
      else rbind (free_conn (set_conn ?p c' s2) ?p) (\<lambda>s. Inr (NOK, pkt, s))) = Inr (r, pkt', s')"
  proof -
    obtain r1 c1 s1' where "x = (r1, c1, s1')" by (cases x)
    with x that show thesis by (cases r1) (auto simp: s1_def elim!: rbindE)
  qed
  note blank = blank_fill [OF f, THEN conjunct1] and init = blank_fill [OF f, THEN conjunct2]
  note e = create_branch_entered [OF b init]
  have ok2: "conns_ok (set_conn ?p c' s2)" by (rule entered_ok [OF e(1) ok1 p1 blank])
  have f2: "fresh_ok s2" using e(1) f1 by (simp add: entered_def)
  have lt: "?p < st_next s2"
  proof (rule ccontr)
    assume "\<not> ?p < st_next s2"
    then have "st_conns s2 ?p = None" using f2 by (simp add: fresh_ok_def)
    moreover have "st_conns s2 = st_conns s1" using e(1) by (auto simp: entered_def same_conns_def)
    ultimately show False using p1 by simp
  qed
  have f3: "fresh_ok (set_conn ?p c' s2)" using f2 lt by (auto simp: fresh_ok_def set_conn_def)
  have "conns_ok s' \<and> fresh_ok s'"
  proof (cases r)
    case OK
    then show ?thesis using r ok2 f3 by simp
  next
    case NOK
    then have "same_conns s1 s2" using e(2) by (simp add: quiet_def)
    moreover have "unlinked s1 ?p" using ok1 p1 blank by (intro blank_unlinked) auto
    ultimately have "unlinked (set_conn ?p c' s2) ?p"
      by (simp add: unlinked_def set_conn_def same_conns_def)
    then show ?thesis using r NOK ok2 f3 free_conn_ok by (auto elim!: rbindE)
  qed
  then show "conns_ok s'" "fresh_ok s'" by simp_all
qed

lemma create_conn_ok:
  assumes "create_conn E s pkt now = Inr (r, pkt', s')" and "conns_ok s" and "fresh_ok s"
  shows "conns_ok s' \<and> fresh_ok s'"
proof -
  from assms(1) have "s' = s \<or> (\<exists>pkt1 t hs is. create_at E s pkt1 now t hs is = Inr (r, pkt', s'))"
    unfolding create_conn_def by (auto elim!: rbindE split: if_split_asm option.split_asm bool.split_asm)
  then show ?thesis using assms(2,3) create_at_ok by blast
qed

text \<open>A change of a live connection that keeps its keys and its ends keeps the invariant.\<close>

definition same_identity :: "conn_struct \<Rightarrow> conn_struct \<Rightarrow> bool" where
  "same_identity c c' \<longleftrightarrow> cn_initiator c' = cn_initiator c \<and> cn_destination c' = cn_destination c \<and>
     cn_ext_key c' = cn_ext_key c \<and> cn_int_key c' = cn_int_key c \<and> cn_intra_key c' = cn_intra_key c \<and>
     hih_redirected_int_key (cn_hih c') = hih_redirected_int_key (cn_hih c)"

lemma same_identity_refl [simp]: "same_identity c c"
  by (simp add: same_identity_def)

lemma same_identity_trans: "same_identity a b \<Longrightarrow> same_identity b c \<Longrightarrow> same_identity a c"
  by (simp add: same_identity_def)

lemma conns_ok_set_same:
  assumes "conns_ok s" and "fresh_ok s" and "st_conns s p = Some c" and "same_identity c c'"
  shows "conns_ok (set_conn p c' s) \<and> fresh_ok (set_conn p c' s)"
proof -
  have "own_ext1 c' = own_ext1 c" "own_ext2 c' = own_ext2 c" "own_int1 c' = own_int1 c"
    "own_int2 c' = own_int2 c" "own_intra1 c' = own_intra1 c" "own_intra2 c' = own_intra2 c"
    using assms(4) by (auto simp: same_identity_def own_defs outgoing_def intra_conn_def fun_eq_iff)
  then show ?thesis using assms(1-3)
    by (auto simp: conns_ok_def set_conn_def fresh_ok_def intro!: owned_upd)
qed

lemma lock_conn_ok:
  assumes "lock_conn s p = Inr s'" and "conns_ok s" and "fresh_ok s"
  shows "conns_ok s' \<and> fresh_ok s'"
  using assms conns_ok_set_same unfolding lock_conn_def
  by (auto elim!: rbindE simp: get_conn_def rbind_simps same_identity_def)

lemma update_conn_same: "update_conn pkt p c now = Inr (pkt', c') \<Longrightarrow> same_identity c c'"
  by (auto simp: update_conn_def Let_def same_identity_def elim!: rbindE)

lemma init_conn_ok:
  assumes "init_conn E s pkt = Inr (r, pkt', s')" and "conns_ok s" and "fresh_ok s"
  shows "conns_ok s' \<and> fresh_ok s'"
proof -
  from assms(1) obtain x s1 where l: "conn_lookup s pkt = Inr (x, s1)"
    and d: "(case x of None \<Rightarrow> create_conn E s1 pkt (microtime E)
      | Some (p, pkt) \<Rightarrow> rbind (get_conn s1 p) (\<lambda>c. rbind (update_conn pkt p c (microtime E)) (\<lambda>(pkt, c).
          Inr (OK, pkt, set_conn p c s1)))) = Inr (r, pkt', s')"
    unfolding init_conn_def by (elim rbindE) (auto split: prod.split_asm)
  have "s1 = s \<or> (\<exists>p. lock_conn s p = Inr s1)"
    using l unfolding conn_lookup_def by (auto elim!: rbindE split: option.split_asm)
  then have ok: "conns_ok s1 \<and> fresh_ok s1" using lock_conn_ok assms(2,3) by blast
  show ?thesis
  proof (cases x)
    case None
    then show ?thesis using d ok create_conn_ok by simp
  next
    case (Some y)
    then show ?thesis using d ok conns_ok_set_same update_conn_same
      by (auto elim!: rbindE simp: get_conn_def deref_eq_Inr split: prod.split_asm)
  qed
qed

section \<open>Removing and redirecting\<close>

lemma conn_remove_owned:
  assumes "conn_remove t k = Inr t'" and "owned R h t"
  shows "owned R h t'" "conn_find t' k' = Some p \<Longrightarrow> conn_find t k' = Some p \<and> \<not> key_is k k'"
proof -
  have "owned R h t' \<and> (conn_find t' k' = Some p \<longrightarrow> conn_find t k' = Some p \<and> \<not> key_is k k')"
  proof (cases k)
    case None
    then show ?thesis using assms by (simp add: conn_remove_def split: if_split_asm)
  next
    case (Some k1)
    have o: "conn_tree.ordered t" using assms(2) by (simp add: owned_def)
    have t': "t' = g_tree_remove conn_key_cmp t k1" using assms(1) Some by (simp add: conn_remove_def)
    show ?thesis unfolding t' Some conn_find_def conn_tree.gt.lookup_remove [OF o]
      using owned_remove [OF assms(2)] by (cases "conn_key_cmp k' k1 = 0") simp_all
  qed
  then show "owned R h t'" "conn_find t' k' = Some p \<Longrightarrow> conn_find t k' = Some p \<and> \<not> key_is k k'" by simp_all
qed

text \<open>The trees the expiry searches lose entries and gain none.\<close>

definition shrinks :: "hb_state \<Rightarrow> hb_state \<Rightarrow> bool" where
  "shrinks s s' \<longleftrightarrow> (\<forall>k q. (conn_find (ext_tree1 s') k = Some q \<longrightarrow> conn_find (ext_tree1 s) k = Some q) \<and>
     (conn_find (int_tree2 s') k = Some q \<longrightarrow> conn_find (int_tree2 s) k = Some q) \<and>
     (conn_find (intra_tree1 s') k = Some q \<longrightarrow> conn_find (intra_tree1 s) k = Some q))"

lemma shrinks_refl [simp]: "shrinks s s"
  by (simp add: shrinks_def)

lemma shrinks_trans: "shrinks a b \<Longrightarrow> shrinks b c \<Longrightarrow> shrinks a c"
  by (simp add: shrinks_def)

lemma shrinks_same: "same_conns s s' \<Longrightarrow> shrinks s s'"
  by (simp add: shrinks_def same_conns_def)

text \<open>The removal keeps the invariant and takes the connection out of every tree.\<close>

lemma remove_from_trees_ok:
  assumes "remove_from_trees s c = Inr s'" and ok: "conns_ok s" and p: "st_conns s p = Some c0" "same_identity c0 c"
  shows "conns_ok s' \<and> unlinked s' p \<and> st_conns s' = st_conns s \<and> (fresh_ok s \<longrightarrow> fresh_ok s') \<and> shrinks s s'"
proof -
  note o = ok [unfolded conns_ok_def]
  have own: "own_ext1 c0 k = own_ext1 c k" "own_ext2 c0 k = own_ext2 c k" "own_int1 c0 k = own_int1 c k"
    "own_int2 c0 k = own_int2 c k" "own_intra1 c0 k = own_intra1 c k" "own_intra2 c0 k = own_intra2 c k" for k
    using p(2) by (auto simp: same_identity_def own_defs outgoing_def intra_conn_def)
  have mine: "conn_find (ext_tree1 s) k = Some p \<Longrightarrow> own_ext1 c k" "conn_find (ext_tree2 s) k = Some p \<Longrightarrow> own_ext2 c k"
    "conn_find (int_tree1 s) k = Some p \<Longrightarrow> own_int1 c k" "conn_find (int_tree2 s) k = Some p \<Longrightarrow> own_int2 c k"
    "conn_find (intra_tree1 s) k = Some p \<Longrightarrow> own_intra1 c k" "conn_find (intra_tree2 s) k = Some p \<Longrightarrow> own_intra2 c k" for k
    using o p(1) by (auto simp: own [symmetric] dest: ownedD)
  have fin: "conns_ok s' \<and> unlinked s' p \<and> st_conns s' = st_conns s \<and> (fresh_ok s \<longrightarrow> fresh_ok s') \<and> shrinks s s'"
    if "conns_ok s1" "unlinked s1 p" "quiet s1 s'" "st_conns s1 = st_conns s" "fresh_ok s \<longrightarrow> fresh_ok s1" "shrinks s s1" for s1
    using that conns_ok_quiet [OF that(3)] unlinked_same [of s1 s' p] shrinks_trans [OF that(6)] shrinks_same
    by (auto simp: quiet_def same_conns_def)
  consider (ext) "cn_initiator c = EXT" | (out) "cn_initiator c \<noteq> EXT" "outgoing c"
    | (intra) "cn_initiator c \<noteq> EXT" "\<not> outgoing c" "intra_conn c"
    | (none) "cn_initiator c \<noteq> EXT" "\<not> outgoing c" "\<not> intra_conn c" by blast
  then show ?thesis
  proof cases
    case ext
    then have no: "\<not> outgoing c" "\<not> intra_conn c" by (auto simp: outgoing_def intra_conn_def)
    from assms(1) ext obtain t1 t2 t3 where t: "conn_remove (ext_tree1 s) (cn_ext_key c) = Inr t1"
      "conn_remove (ext_tree2 s) (cn_int_key c) = Inr t2"
      "(case hih_redirected_int_key (cn_hih c) of None \<Rightarrow> Inr t2 | Some k \<Rightarrow> conn_remove t2 (Some k)) = Inr t3"
      and d: "drop_comm_pin (s\<lparr>ext_tree1 := t1, ext_tree2 := t3\<rparr>) (cn_pin_key c) = Inr s'"
      unfolding remove_from_trees_def by (auto elim!: rbindE)
    note r1 = conn_remove_owned [OF t(1)] and r2 = conn_remove_owned [OF t(2)]
    have o2: "owned own_ext2 (st_conns s) (ext_tree2 s)" using o by simp
    have r3: "owned own_ext2 (st_conns s) t3 \<and> (\<forall>k. conn_find t3 k \<noteq> Some p)"
    proof (cases "hih_redirected_int_key (cn_hih c)")
      case None
      then have "t3 = t2" using t(3) by simp
      then show ?thesis using r2 [OF o2] mine(2) None by (auto simp: own_ext2_def)
    next
      case (Some k)
      then have t3: "conn_remove t2 (Some k) = Inr t3" using t(3) by simp
      note r = conn_remove_owned [OF t3 r2(1) [OF o2]]
      have False if "conn_find t3 k' = Some p" for k'
        using r(2) [OF that] r2(2) [OF o2, of k' p] mine(2) [of k'] Some by (auto simp: own_ext2_def)
      with r(1) show ?thesis by blast
    qed
    show ?thesis
    proof (rule fin)
      show "quiet (s\<lparr>ext_tree1 := t1, ext_tree2 := t3\<rparr>) s'" by (rule drop_quiet(1) [OF d])
      show "conns_ok (s\<lparr>ext_tree1 := t1, ext_tree2 := t3\<rparr>)" using o r1(1) r3 by (simp add: conns_ok_def)
      show "unlinked (s\<lparr>ext_tree1 := t1, ext_tree2 := t3\<rparr>) p"
        using mine no r3 r1(2) o unfolding unlinked_def own_defs by simp blast
      show "shrinks s (s\<lparr>ext_tree1 := t1, ext_tree2 := t3\<rparr>)" using r1(2) o by (simp add: shrinks_def) blast
    qed (simp_all add: fresh_ok_def)
  next
    case out
    then have no: "\<not> intra_conn c" by (auto simp: outgoing_def intra_conn_def)
    from assms(1) out obtain t1 t2 where t: "conn_remove (int_tree1 s) (cn_int_key c) = Inr t1"
      "conn_remove (int_tree2 s) (cn_ext_key c) = Inr t2"
      and d: "drop_comm_pin (s\<lparr>int_tree1 := t1, int_tree2 := t2\<rparr>) (cn_pin_key c) = Inr s'"
      unfolding remove_from_trees_def outgoing_def by (auto elim!: rbindE)
    note r1 = conn_remove_owned [OF t(1)] and r2 = conn_remove_owned [OF t(2)]
    show ?thesis
    proof (rule fin)
      show "quiet (s\<lparr>int_tree1 := t1, int_tree2 := t2\<rparr>) s'" by (rule drop_quiet(1) [OF d])
      show "conns_ok (s\<lparr>int_tree1 := t1, int_tree2 := t2\<rparr>)" using o r1(1) r2(1) by (simp add: conns_ok_def)
      show "unlinked (s\<lparr>int_tree1 := t1, int_tree2 := t2\<rparr>) p"
        using mine no out(1) r1(2) r2(2) o unfolding unlinked_def own_defs by simp blast
      show "shrinks s (s\<lparr>int_tree1 := t1, int_tree2 := t2\<rparr>)" using r2(2) o by (simp add: shrinks_def) blast
    qed (simp_all add: fresh_ok_def)
  next
    case intra
    from assms(1) intra obtain t1 t2 where t: "conn_remove (intra_tree1 s) (cn_int_key c) = Inr t1"
      "conn_remove (intra_tree2 s) (cn_intra_key c) = Inr t2"
      and d: "drop_intra_pin (s\<lparr>intra_tree1 := t1, intra_tree2 := t2\<rparr>) (cn_pin_key c) = Inr s'"
      unfolding remove_from_trees_def outgoing_def intra_conn_def by (auto elim!: rbindE)
    note r1 = conn_remove_owned [OF t(1)] and r2 = conn_remove_owned [OF t(2)]
    show ?thesis
    proof (rule fin)
      show "quiet (s\<lparr>intra_tree1 := t1, intra_tree2 := t2\<rparr>) s'" by (rule drop_quiet(2) [OF d])
      show "conns_ok (s\<lparr>intra_tree1 := t1, intra_tree2 := t2\<rparr>)" using o r1(1) r2(1) by (simp add: conns_ok_def)
      show "unlinked (s\<lparr>intra_tree1 := t1, intra_tree2 := t2\<rparr>) p"
        using mine intra(1,2) r1(2) r2(2) o unfolding unlinked_def own_defs by simp blast
      show "shrinks s (s\<lparr>intra_tree1 := t1, intra_tree2 := t2\<rparr>)" using r1(2) o by (simp add: shrinks_def) blast
    qed (simp_all add: fresh_ok_def)
  next
    case none
    then have "s' = s" using assms(1)
      by (auto simp: remove_from_trees_def outgoing_def intra_conn_def split: if_split_asm)
    moreover have "unlinked s p" using mine none unfolding unlinked_def own_defs by blast
    ultimately show ?thesis using ok by simp
  qed
qed

lemma remove_conn_ok:
  assumes "remove_conn s p delay = Inr s'" and "conns_ok s" and "fresh_ok s"
  shows "conns_ok s' \<and> fresh_ok s' \<and> shrinks s s' \<and>
    (\<exists>c. st_conns s p = Some c \<and>
      (if delay \<noteq> 0 \<and> cn_locked c then s' = s else st_conns s' = (st_conns s)(p := None) \<and> unlinked s' p))"
proof -
  from assms(1) obtain c where c: "st_conns s p = Some c"
    unfolding remove_conn_def by (auto elim!: rbindE simp: get_conn_def deref_eq_Inr)
  show ?thesis
  proof (cases "delay \<noteq> 0 \<and> cn_locked c")
    case True
    then show ?thesis using assms c by (simp add: remove_conn_def get_conn_def)
  next
    case False
    have "rbind (lock_conn s p) (\<lambda>s. rbind (remove_from_trees s c) (\<lambda>s. rbind (drop_target_pin s c) (\<lambda>s.
       free_conn (s\<lparr>st_log := st_log s @ [c]\<rparr>) p))) = Inr s'"
      using assms(1) c False by (simp only: remove_conn_def get_conn_def deref_Some rbind_Inr if_False)
    then obtain s1 s2 s3 where 1: "lock_conn s p = Inr s1" and 2: "remove_from_trees s1 c = Inr s2"
      and 3: "drop_target_pin s2 c = Inr s3" and 4: "free_conn (s3\<lparr>st_log := st_log s3 @ [c]\<rparr>) p = Inr s'"
      by (elim rbindE) blast
    have s1: "s1 = set_conn p (c\<lparr>cn_locked := True\<rparr>) s"
      using 1 c by (auto simp: lock_conn_def get_conn_def rbind_simps)
    have ok1: "conns_ok s1" "fresh_ok s1" using lock_conn_ok [OF 1 assms(2,3)] by simp_all
    have "st_conns s1 p = Some (c\<lparr>cn_locked := True\<rparr>)" "same_identity (c\<lparr>cn_locked := True\<rparr>) c"
      by (simp_all add: s1 set_conn_def same_identity_def)
    note r = remove_from_trees_ok [OF 2 ok1(1) this]
    have q: "quiet s2 (s3\<lparr>st_log := st_log s3 @ [c]\<rparr>)" by (rule quiet_trans [OF drop_quiet(3) [OF 3]]) simp
    let ?s3 = "s3\<lparr>st_log := st_log s3 @ [c]\<rparr>"
    have ok3: "conns_ok ?s3" "unlinked ?s3 p" "fresh_ok ?s3" "st_conns ?s3 = st_conns s1"
      using r q ok1(2) conns_ok_quiet [OF q] unlinked_same [of s2 ?s3 p]
      by (simp_all add: quiet_def, simp add: same_conns_def)
    note f = free_conn_ok [OF 4 ok3(1,2)]
    have "same_conns ?s3 (s'\<lparr>st_conns := st_conns ?s3\<rparr>)"
      using 4 unfolding free_conn_def
      by (elim rbindE) (auto simp: same_conns_def quiet_def dest!: pin_quiet)
    then have "unlinked s' p" using ok3(2) by (simp add: unlinked_def same_conns_def)
    moreover have "st_conns s' = (st_conns s)(p := None)" using f(3) ok3(4) by (auto simp: s1 set_conn_def)
    moreover have "shrinks s s1" by (simp add: s1 shrinks_def set_conn_def)
    then have "shrinks s ?s3" using r q shrinks_trans shrinks_same by (metis quiet_def)
    then have "shrinks s s'" using \<open>same_conns ?s3 (s'\<lparr>st_conns := st_conns ?s3\<rparr>)\<close>
      by (simp add: shrinks_def same_conns_def)
    ultimately show ?thesis using f(1) f(2) [OF ok3(3)] c False by auto
  qed
qed

lemma remove_all_ok:
  assumes "remove_all s ps delay = Inr s'" and "conns_ok s" and "fresh_ok s"
  shows "conns_ok s' \<and> fresh_ok s' \<and> shrinks s s' \<and> (\<forall>p c. st_conns s' p = Some c \<longrightarrow> st_conns s p = Some c) \<and>
    (\<forall>p. p \<notin> set ps \<longrightarrow> st_conns s' p = st_conns s p) \<and>
    (\<forall>p \<in> set ps. \<forall>c. st_conns s' p = Some c \<longrightarrow> delay \<noteq> 0 \<and> cn_locked c)"
  using assms
proof (induction ps arbitrary: s)
  case (Cons p ps)
  from Cons.prems(1) obtain s1 where 1: "remove_conn s p delay = Inr s1" "remove_all s1 ps delay = Inr s'"
    by (auto elim!: rbindE)
  note r = remove_conn_ok [OF 1(1) Cons.prems(2,3)]
  then have ok: "conns_ok s1" "fresh_ok s1" by simp_all
  note I = Cons.IH [OF 1(2) ok]
  from r obtain c where c: "st_conns s p = Some c"
    "if delay \<noteq> 0 \<and> cn_locked c then s1 = s else st_conns s1 = (st_conns s)(p := None)" by (auto split: if_split_asm)
  have before: "st_conns s1 p' = Some c' \<Longrightarrow> st_conns s p' = Some c'" for p' c'
    using c by (cases "delay \<noteq> 0 \<and> cn_locked c") (auto split: if_split_asm)
  have other: "p' \<noteq> p \<Longrightarrow> st_conns s1 p' = st_conns s p'" for p'
    using c by (cases "delay \<noteq> 0 \<and> cn_locked c") auto
  have gone: "st_conns s' p = Some c' \<Longrightarrow> delay \<noteq> 0 \<and> cn_locked c'" for c'
  proof -
    assume "st_conns s' p = Some c'"
    then have "st_conns s1 p = Some c'" using I by blast
    then show ?thesis using c by (cases "delay \<noteq> 0 \<and> cn_locked c") auto
  qed
  have "\<forall>p c. st_conns s' p = Some c \<longrightarrow> st_conns s p = Some c" using I before by blast
  moreover have "\<forall>p'. p' \<notin> set (p # ps) \<longrightarrow> st_conns s' p' = st_conns s p'" using I other by force
  moreover have "\<forall>p' \<in> set (p # ps). \<forall>c. st_conns s' p' = Some c \<longrightarrow> delay \<noteq> 0 \<and> cn_locked c"
    using I gone by auto
  moreover have "shrinks s s'" using r I shrinks_trans by blast
  ultimately show ?case using I by blast
qed simp

lemma clean_ok:
  assumes "clean E s configured = Inr s'" and "conns_ok s" and "fresh_ok s"
  shows "conns_ok s' \<and> fresh_ok s'"
  using assms remove_all_ok unfolding clean_def Let_def by (auto elim!: rbindE)

text \<open>The list of expired connections: every entry of the three trees that was not used for longer than the delay,
  or that never got a state, is in it, and nothing else.\<close>

definition stale :: "env \<Rightarrow> int \<Rightarrow> conn_struct \<Rightarrow> bool" where
  "stale E delay c \<longleftrightarrow> delay < now_int E - cn_access_time c \<or> cn_state c = INVALID"

lemma expire_conn_eq:
  "expire_conn E s delay k p xs = (case st_conns s p of None \<Rightarrow> Inl UseAfterFree
     | Some c \<Rightarrow> if int_ok (now_int E - cn_access_time c) then Inr (False, if stale E delay c then xs @ [p] else xs)
         else Inl IntOverflow)"
  by (simp add: expire_conn_def get_conn_def stale_def c_int_def split: option.split)

lemma expire_foreach:
  assumes "g_tree_foreach (expire_conn E s delay) t xs = Inr ys"
  shows "set ys = set xs \<union> {p. \<exists>k c. (k, p) \<in> set t \<and> st_conns s p = Some c \<and> stale E delay c}"
  using assms
proof (induction t arbitrary: xs)
  case (Cons a t)
  obtain k p where a: "a = (k, p)" by (cases a)
  from Cons.prems obtain c where c: "st_conns s p = Some c"
    "g_tree_foreach (expire_conn E s delay) t (if stale E delay c then xs @ [p] else xs) = Inr ys"
    unfolding a by (cases "st_conns s p") (simp_all add: expire_conn_eq [of E s delay k p] split: if_split_asm)
  show ?case using Cons.IH [OF c(2)] c(1) by (auto simp: a split: if_split_asm)
qed simp

lemma expired_set:
  assumes "expired E s delay = Inr ps"
  shows "set ps = {p. \<exists>k c. (k, p) \<in> set (ext_tree1 s) \<union> set (int_tree2 s) \<union> set (intra_tree1 s) \<and>
    st_conns s p = Some c \<and> stale E delay c}"
proof -
  from assms obtain xs ys where 1: "g_tree_foreach (expire_conn E s delay) (ext_tree1 s) [] = Inr xs"
    and 2: "g_tree_foreach (expire_conn E s delay) (int_tree2 s) xs = Inr ys"
    and 3: "g_tree_foreach (expire_conn E s delay) (intra_tree1 s) ys = Inr ps"
    unfolding expired_def by (elim rbindE)
  show ?thesis using expire_foreach [OF 1] expire_foreach [OF 2] expire_foreach [OF 3] by auto
qed

section \<open>Operations that only send\<close>

definition sends :: "hb_state \<Rightarrow> hb_state \<Rightarrow> bool" where
  "sends s s' \<longleftrightarrow> (\<exists>l. s' = s\<lparr>st_sent := st_sent s @ l\<rparr>)"

lemma sends_refl [simp]: "sends s s"
  unfolding sends_def by (rule exI [of _ "[]"]) simp

lemma sends_trans: "sends a b \<Longrightarrow> sends b c \<Longrightarrow> sends a c"
  unfolding sends_def
proof (elim exE)
  fix l l'
  assume "b = a\<lparr>st_sent := st_sent a @ l\<rparr>" "c = b\<lparr>st_sent := st_sent b @ l'\<rparr>"
  then show "\<exists>l. c = a\<lparr>st_sent := st_sent a @ l\<rparr>" by (intro exI [of _ "l @ l'"]) simp
qed

lemma sends_quiet: "sends s s' \<Longrightarrow> quiet s s'"
  by (auto simp: sends_def)

lemma pcap_inject_sends: "sends s (snd (pcap_inject E s i bs))"
  by (simp add: pcap_inject_def sends_def) (metis append_Nil2 sends_def sends_refl)

lemma send_pkt_sends: "send_pkt E s pkt = Inr (r, q, s') \<Longrightarrow> sends s s'"
  unfolding send_pkt_def Let_def using pcap_inject_sends
  by (auto elim!: rbindE split: option.split_asm prod.split_asm) (metis snd_conv)

lemma nat_send_sends: "nat_send E s pkt = Inr (r, q, s') \<Longrightarrow> sends s s'"
  unfolding nat_send_def by (elim rbindE) (rule send_pkt_sends)

lemma proxy_sends:
  "proxy_ext2int E s c pkt = Inr (r, q, s') \<Longrightarrow> sends s s'"
  "proxy_int2ext E s c pkt = Inr (r, q, s') \<Longrightarrow> sends s s'"
  "proxy_hih2intra E s c pkt = Inr (r, q, s') \<Longrightarrow> sends s s'"
  "proxy_intra2hih E s c pkt = Inr (r, q, s') \<Longrightarrow> sends s s'"
  unfolding proxy_ext2int_def proxy_int2ext_def proxy_hih2intra_def proxy_intra2hih_def Let_def
  by (auto elim!: rbindE split: role_t.split_asm option.split_asm if_split_asm intro: nat_send_sends)

lemma forward_sends:
  "forward_ext2hih E s c pkt = Inr (r, q, s') \<Longrightarrow> sends s s'"
  "forward_hih2ext E s c pkt = Inr (r, q, s') \<Longrightarrow> sends s s'"
  unfolding forward_ext2hih_def forward_hih2ext_def Let_def
  by (auto elim!: rbindE split: option.split_asm intro: send_pkt_sends)

lemma reply_reset_sends: "reply_reset E s pkt i = Inr s' \<Longrightarrow> sends s s'"
  unfolding reply_reset_def by (auto elim!: rbindE split: option.split_asm simp: pcap_inject_sends)

lemma reset_lih_sends: "reset_lih E s c = Inr s' \<Longrightarrow> sends s s'"
  unfolding reset_lih_def by (auto elim!: rbindE split: if_split_asm intro: reply_reset_sends)

lemma send_arp_reply_sends: "send_arp_reply E s ty i f n = Inr s' \<Longrightarrow> sends s s'"
  unfolding send_arp_reply_def Let_def by (auto elim!: rbindE split: if_split_asm simp: pcap_inject_sends)

lemma send_icmp_sends: "send_icmp_frag_needed E s pkt = Inr s' \<Longrightarrow> sends s s'"
  unfolding send_icmp_frag_needed_def Let_def by (auto elim!: rbindE simp: pcap_inject_sends)

lemma define_expected_same: "define_expected_data c pkt = Inr c' \<Longrightarrow> same_identity c c' \<and> cn_state c' = cn_state c"
  unfolding define_expected_data_def Let_def by (auto elim!: rbindE split: if_split_asm simp: same_identity_def)

lemma noted_same: "noted c c' \<Longrightarrow> same_identity c c'"
  unfolding noted_def same_identity_def by (cases c, cases c') simp

lemma replay_loop_sends:
  assumes "replay_loop E s c buf i de = Inr (c', s')"
  shows "sends s s' \<and> same_identity c c' \<and> (cn_state c' = cn_state c \<or> cn_state c' = FORWARD)"
  using assms
proof (induction E s c buf i de rule: replay_loop.induct)
  case (1 E s c buf i de)
  note step = "1.prems" [unfolded replay_loop.simps [of E s c buf i de]]
  show ?case
  proof (cases "nth_data buf i")
    case None
    then show ?thesis using step by simp
  next
    case (Some current)
    show ?thesis
    proof (cases "pkt_origin current = EXT \<or> de = 1")
      case False
      then show ?thesis using step Some
        by (auto elim!: rbindE dest: define_expected_same simp: same_identity_def)
    next
      case True
      from step Some True obtain r q s1 where
        f: "(if pkt_origin current = EXT then forward_ext2hih E s c current else Inr (NOK, current, s)) = Inr (r, q, s1)"
        and rest: "(if length buf \<le> i + 1
            then Inr (switch_state (c\<lparr>cn_BUFFER := buf[i := q], cn_replay_id := i\<rparr>) FORWARD, s1)
            else replay_loop E s1 c (buf[i := q]) (i + 1) (if de = 0 then pkt_DE (buf ! (i + 1)) else de)) = Inr (c', s')"
        by (auto elim!: rbindE simp del: One_nat_def)
      have "sends s s1" using f forward_sends(1) by (auto split: if_split_asm)
      moreover have "sends s1 s' \<and> same_identity c c' \<and> (cn_state c' = cn_state c \<or> cn_state c' = FORWARD)"
      proof (cases "length buf \<le> i + 1")
        case True
        then show ?thesis using rest by (auto simp: switch_state_def same_identity_def)
      next
        case len: False
        show ?thesis
          by (rule "1.IH" [OF Some True f refl refl len]) (use rest len in simp)
      qed
      ultimately show ?thesis using sends_trans by blast
    qed
  qed
qed

lemma replay_sends:
  assumes "replay E s c pkt = Inr (r, c', s')"
  shows "sends s s' \<and> same_identity c c' \<and> (cn_state c' = cn_state c \<or> cn_state c' = FORWARD)"
proof -
  from assms consider "c' = c" "s' = s"
    | flag where "test_expected c pkt = Inr (flag, c')" "s' = s"
    | flag c1 de where "test_expected c pkt = Inr (flag, c1)"
        "replay_loop E s c1 (cn_BUFFER c1) (cn_replay_id c1) de = Inr (c', s')"
    unfolding replay_def by (auto elim!: rbindE split: if_split_asm)
  then show ?thesis
  proof cases
    case 1
    then show ?thesis by simp
  next
    case 2
    note n = test_expected_noted [OF 2(1)]
    show ?thesis using noted_same [OF n] noted_fields(4) [OF n] 2(2) by simp
  next
    case 3
    note n = test_expected_noted [OF 3(1)]
    show ?thesis using noted_same [OF n] noted_fields(4) [OF n] replay_loop_sends [OF 3(2)] same_identity_trans by metis
  qed
qed

section \<open>Redirecting\<close>

lemma redirect_loop_sends:
  assumes "redirect_loop E s c buf i = Inr (buf', i', s')"
  shows "sends s s'"
  using assms
proof (induction E s c buf i rule: redirect_loop.induct)
  case (1 E s c buf i)
  note step = "1.prems" [unfolded redirect_loop.simps [of E s c buf i]]
  show ?case
  proof (cases "nth_data buf i")
    case None
    then show ?thesis using step by simp
  next
    case (Some current)
    show ?thesis
    proof (cases "pkt_origin current = EXT")
      case True
      with step Some obtain r q s1 where f: "forward_ext2hih E s c current = Inr (r, q, s1)"
        and l: "redirect_loop E s1 c (buf[i := q]) (i + 1) = Inr (buf', i', s')" by (auto elim!: rbindE)
      show ?thesis using "1.IH" [OF Some True f refl refl l] forward_sends(1) [OF f] sends_trans by blast
    next
      case False
      then show ?thesis using step Some by simp
    qed
  qed
qed

lemma pin_target_quiet:
  assumes "pin_target s bh ip c = Inr (ok, c', s')"
  shows "quiet s s' \<and> same_identity c c' \<and> cn_state c' = cn_state c"
proof (cases "exclusive_hih s = 1")
  case False
  then show ?thesis using assms by (simp add: pin_target_def)
next
  case True
  let ?k = "\<lparr>pnk_target_ip = 0, pnk_handler_ip = ip, pnk_vlan_id = vlan_vid (hd_vlan bh)\<rparr>"
  obtain r s1 where n: "new_pin_key s ?k = (r, s1)" by (cases "new_pin_key s ?k")
  obtain q s2 where m: "new_pin s1 r (cn_first_pkt_dst_ip c) = (q, s2)" by (cases "new_pin s1 r (cn_first_pkt_dst_ip c)")
  obtain r' s3 where k: "new_pin_key s2 ?k = (r', s3)" by (cases "new_pin_key s2 ?k")
  have q3: "quiet s s1" "quiet s s3" using n m k by (meson pin_quiet quiet_trans)+
  have d: "same_identity c (c\<lparr>cn_hih := cn_hih c\<lparr>hih_target_pin_key := x\<rparr>\<rparr>)" for x
    by (simp add: same_identity_def)
  note u = assms [unfolded pin_target_def, simplified True n m k Let_def prod.case simp_thms if_False]
  then obtain x where x: "pin_lookup s1 (target_pin_tree s1) r = Inr x" by (rule rbindE)
  show ?thesis
  proof (cases x)
    case None
    with u x have "c' = c\<lparr>cn_hih := cn_hih c\<lparr>hih_target_pin_key := Some r'\<rparr>\<rparr>"
      "s' = s3\<lparr>target_pin_tree := g_tree_insert pinrefcmp (target_pin_tree s3) r q\<rparr>" by simp_all
    then show ?thesis using d q3(2) by (simp, metis pin_trees_quiet(3) quiet_trans)
  next
    case (Some q')
    with u x have "rbind (deref (st_pins s1) q') (\<lambda>pn. if pin_ip pn \<noteq> cn_first_pkt_dst_ip c
             then rbind (free_pin_key s1 r) (\<lambda>s. Inr (False, c, s))
             else rbind (pin_count_add s1 q' 1) (\<lambda>s.
                  Inr (True, c\<lparr>cn_hih := (cn_hih c)\<lparr>hih_target_pin_key := Some r\<rparr>\<rparr>, s))) = Inr (ok, c', s')"
      by simp
    then obtain pn where "deref (st_pins s1) q' = Inr pn" and pn: "(if pin_ip pn \<noteq> cn_first_pkt_dst_ip c
             then rbind (free_pin_key s1 r) (\<lambda>s. Inr (False, c, s))
             else rbind (pin_count_add s1 q' 1) (\<lambda>s.
                  Inr (True, c\<lparr>cn_hih := (cn_hih c)\<lparr>hih_target_pin_key := Some r\<rparr>\<rparr>, s))) = Inr (ok, c', s')"
      by (rule rbindE)
    show ?thesis
    proof (cases "pin_ip pn = cn_first_pkt_dst_ip c")
      case True
      with pn have "pin_count_add s1 q' 1 = Inr s'" "c' = c\<lparr>cn_hih := (cn_hih c)\<lparr>hih_target_pin_key := Some r\<rparr>\<rparr>"
        by (auto elim!: rbindE)
      then show ?thesis using d q3(1) by (simp, meson pin_quiet quiet_trans)
    next
      case False
      with pn have "free_pin_key s1 r = Inr s'" "c' = c" by (auto elim!: rbindE)
      then show ?thesis using q3(1) by (simp, meson pin_quiet quiet_trans)
    qed
  qed
qed

lemma start_replay_ok:
  assumes "start_replay E s p c = Inr s'"
  shows "\<exists>s1 c'. sends s s1 \<and> s' = set_conn p c' s1 \<and> same_identity c c' \<and> cn_state c' = cn_state c"
proof -
  from assms obtain s1 buf i s2 where 1: "reset_lih E s c = Inr s1"
    and 2: "redirect_loop E s1 c (cn_BUFFER c) (cn_replay_id c) = Inr (buf, i, s2)"
    and 3: "(case nth_data buf i of None \<Rightarrow> Inr (set_conn p (c\<lparr>cn_BUFFER := buf, cn_replay_id := i\<rparr>) s2)
        | Some current \<Rightarrow> rbind (define_expected_data (c\<lparr>cn_BUFFER := buf, cn_replay_id := i\<rparr>) current) (\<lambda>c.
            Inr (set_conn p (c\<lparr>cn_replay_id := i + 1\<rparr>) s2))) = Inr s'"
    unfolding start_replay_def Let_def by (elim rbindE) auto
  have s: "sends s s2" using reset_lih_sends [OF 1] redirect_loop_sends [OF 2] sends_trans by blast
  have "\<exists>c'. s' = set_conn p c' s2 \<and> same_identity c c' \<and> cn_state c' = cn_state c"
  proof (cases "nth_data buf i")
    case None
    then show ?thesis using 3
      by (intro exI [of _ "c\<lparr>cn_BUFFER := buf, cn_replay_id := i\<rparr>"]) (simp add: same_identity_def)
  next
    case (Some current)
    then obtain c1 where "define_expected_data (c\<lparr>cn_BUFFER := buf, cn_replay_id := i\<rparr>) current = Inr c1"
      "s' = set_conn p (c1\<lparr>cn_replay_id := i + 1\<rparr>) s2" using 3 by (auto elim!: rbindE)
    with define_expected_same [OF this(1)] show ?thesis
      by (intro exI [of _ "c1\<lparr>cn_replay_id := i + 1\<rparr>"]) (simp add: same_identity_def)
  qed
  with s show ?thesis by blast
qed

lemma setup_redirection_ok:
  assumes "setup_redirection E s p hih_use = Inr (r, s')" and ok: "conns_ok s" "fresh_ok s"
    and c: "st_conns s p = Some c" "cn_initiator c = EXT" "hih_redirected_int_key (cn_hih c) = None"
  shows "conns_ok s' \<and> fresh_ok s' \<and>
    (\<exists>c'. st_conns s' = (st_conns s)(p \<mapsto> c') \<and> (c' = c \<or> cn_state c' = REPLAY \<and> cn_initiator c' = EXT))"
proof -
  have "quiet s s' \<or> (\<exists>bh ip c1 s1 bhp k. pin_target s bh ip c = Inr (True, c1, s1) \<and>
      start_replay E (s1\<lparr>ext_tree2 := conn_insert (ext_tree2 s1) k p\<rparr>) p (redirect_fields E c1 hih_use bhp k) = Inr s')"
  proof (cases "hih_use = 0")
    case True
    then show ?thesis using assms(1) by (simp add: setup_redirection_def)
  next
    case False
    then obtain t bhp bh where "(case hd_ip bh of None \<Rightarrow> Inr (NOK, s)
         | Some ip \<Rightarrow> rbind (pin_target s bh ip c) (\<lambda>(ok, c, s). if \<not> ok then Inr (NOK, s)
             else let k = redirected_key c bh ip in
               rbind (start_replay E (s\<lparr>ext_tree2 := conn_insert (ext_tree2 s) k p\<rparr>) p
                        (redirect_fields E c hih_use bhp k)) (\<lambda>s. Inr (OK, s)))) = Inr (r, s')"
      using assms(1) c(1) unfolding setup_redirection_def by (auto elim!: rbindE simp: get_conn_def)
    note h = this
    show ?thesis
    proof (cases "hd_ip bh")
      case None
      then show ?thesis using h by simp
    next
      case (Some ip)
      with h obtain ok c1 s1 where pt: "pin_target s bh ip c = Inr (ok, c1, s1)" and
        r: "(if \<not> ok then Inr (NOK, s1) else let k = redirected_key c1 bh ip in
               rbind (start_replay E (s1\<lparr>ext_tree2 := conn_insert (ext_tree2 s1) k p\<rparr>) p
                        (redirect_fields E c1 hih_use bhp k)) (\<lambda>s. Inr (OK, s))) = Inr (r, s')"
        by (auto elim!: rbindE)
      show ?thesis
      proof (cases ok)
        case True
        then have sr: "start_replay E (s1\<lparr>ext_tree2 := conn_insert (ext_tree2 s1) (redirected_key c1 bh ip) p\<rparr>) p
           (redirect_fields E c1 hih_use bhp (redirected_key c1 bh ip)) = Inr s'"
          using r by (auto elim!: rbindE simp: Let_def)
        show ?thesis by (intro disjI2 exI conjI, rule pt [unfolded eqTrueI [OF True]], rule sr)
      next
        case False
        then show ?thesis using r pin_target_quiet [OF pt] by simp
      qed
    qed
  qed
  then show ?thesis
  proof
    assume q: "quiet s s'"
    then have "st_conns s' = (st_conns s)(p \<mapsto> c)" using c(1) by (auto simp: quiet_def same_conns_def)
    then show ?thesis using q ok conns_ok_quiet [OF q] by (auto simp: quiet_def)
  next
    assume "\<exists>bh ip c1 s1 bhp k. pin_target s bh ip c = Inr (True, c1, s1) \<and>
      start_replay E (s1\<lparr>ext_tree2 := conn_insert (ext_tree2 s1) k p\<rparr>) p (redirect_fields E c1 hih_use bhp k) = Inr s'"
    then obtain bh ip c1 s1 bhp k where pt: "pin_target s bh ip c = Inr (True, c1, s1)"
      and sr: "start_replay E (s1\<lparr>ext_tree2 := conn_insert (ext_tree2 s1) k p\<rparr>) p (redirect_fields E c1 hih_use bhp k) = Inr s'"
      by blast
    define c2 where "c2 = redirect_fields E c1 hih_use bhp k"
    note q = pin_target_quiet [OF pt]
    have p1: "st_conns s1 p = Some c" using q c(1) by (simp add: quiet_def same_conns_def)
    from start_replay_ok [OF sr] obtain s2 c' where s2: "sends (s1\<lparr>ext_tree2 := conn_insert (ext_tree2 s1) k p\<rparr>) s2"
      "s' = set_conn p c' s2" "same_identity c2 c'" "cn_state c' = cn_state c2" unfolding c2_def by blast
    have id: "cn_initiator c' = EXT" "cn_ext_key c' = cn_ext_key c" "cn_int_key c' = cn_int_key c"
      "hih_redirected_int_key (cn_hih c') = Some k" "cn_state c' = REPLAY"
      using s2(3,4) q c(2) by (simp_all add: c2_def redirect_fields_def same_identity_def switch_state_def)
    have ok1: "conns_ok s1" "fresh_ok s1" using q ok conns_ok_quiet by (auto simp: quiet_def)
    have "conns_ok (set_conn p c' s1)"
      using ok1(1) p1 c(2,3) id
      by (auto simp: conns_ok_def set_conn_def own_defs outgoing_def intra_conn_def intro!: owned_upd)
    moreover have "own_ext2 c' k" using id by (simp add: own_ext2_def conn_tree.cmp_refl)
    ultimately have "conns_ok ((set_conn p c' s1)\<lparr>ext_tree2 := conn_insert (ext_tree2 s1) k p\<rparr>)"
      using own_stable by (auto simp: conns_ok_def set_conn_def intro!: owned_insert)
    moreover have "same_conns ((set_conn p c' s1)\<lparr>ext_tree2 := conn_insert (ext_tree2 s1) k p\<rparr>) s'"
      using sends_quiet [OF s2(1)] by (simp add: s2(2) quiet_def same_conns_def set_conn_def)
    ultimately have "conns_ok s'" using conns_ok_same by blast
    moreover have "fresh_ok s'" using sends_quiet [OF s2(1)] ok1(2) p1 s2(2)
      by (auto simp: quiet_def same_conns_def set_conn_def fresh_ok_def)
    moreover have "st_conns s' = (st_conns s)(p \<mapsto> c')"
      using q sends_quiet [OF s2(1)] s2(2) by (simp add: quiet_def same_conns_def set_conn_def)
    ultimately show ?thesis using id by blast
  qed
qed

end
