(* ===== verification/Conn_Theorems.thy ===== *)
theory Conn_Theorems
  imports Conn_Invariant
begin

text \<open>
  The properties of the connection tracking: a connection that was created is
  found again in both directions, removal and expiry leave no dangling entry and
  expire exactly the stale connections; and where the code fails (a shared
  reply key, INTRA senders).
\<close>

section \<open>What a new connection from outside leaves behind\<close>

definition ext_key_of :: "pkt_struct \<Rightarrow> conn_key" where
  "ext_key_of pkt = \<lparr>ck_protocol = pkt_proto pkt, ck_src_ip = pkt_saddr pkt, ck_src_port = pkt_source pkt,
     ck_dst_ip = pkt_daddr pkt, ck_dst_port = pkt_dest pkt, ck_vlan_id = 0\<rparr>"

text \<open>The key of the reply of a handler with the given address and VLAN.\<close>

definition reply_key_of :: "pkt_struct \<Rightarrow> u32 \<Rightarrow> u16 \<Rightarrow> conn_key" where
  "reply_key_of pkt ip vid = \<lparr>ck_protocol = pkt_proto pkt, ck_src_ip = ip, ck_src_port = pkt_dest pkt,
     ck_dst_ip = pkt_saddr pkt, ck_dst_port = pkt_source pkt, ck_vlan_id = vid\<rparr>"

lemma quiet_trees:
  assumes "quiet s s'"
  shows "ext_tree1 s' = ext_tree1 s" "ext_tree2 s' = ext_tree2 s" "st_conns s' = st_conns s"
  using assms by (simp_all add: quiet_def same_conns_def)

definition same_config :: "hb_state \<Rightarrow> hb_state \<Rightarrow> bool" where
  "same_config s s' \<longleftrightarrow> st_targets s' = st_targets s \<and> st_handlers s' = st_handlers s \<and> st_ifaces s' = st_ifaces s"

lemma hold_comm_pin_config: "hold_comm_pin s r ip = Inr s' \<Longrightarrow> same_config s s'"
  by (auto simp: hold_comm_pin_def pin_lookup_def pin_count_add_def new_pin_key_def new_pin_def alloc_def Let_def
      same_config_def elim!: rbindE split: option.split_asm)

lemma create_conn_ext_eff:
  assumes "create_conn E s pkt now = Inr (OK, pkt', s')" and "pkt_origin pkt = EXT"
  obtains tp t h ip c where "st_targets s tp = Some t" "get_handler s (tg_front_handler t) = Inr h" "hd_ip h = Some ip"
    "pkt' = pkt\<lparr>pkt_conn := Some (st_next s)\<rparr>"
    "ext_tree1 s' = conn_insert (ext_tree1 s) (ext_key_of pkt) (st_next s)"
    "ext_tree2 s' = conn_insert (ext_tree2 s) (reply_key_of pkt ip (vlan_vid (hd_vlan h))) (st_next s)"
    "st_conns s' = (st_conns s)(st_next s \<mapsto> c)" "cn_target c = tp" "cn_state c = INIT" "cn_locked c" "same_config s s'"
    "cn_initiator c = EXT" "st_ifaces s (pkt_in pkt) \<noteq> None" "if_target (the (st_ifaces s (pkt_in pkt))) = Some tp"
proof -
  let ?p = "st_next s"
  from assms obtain i tp hs isr where i: "st_ifaces s (pkt_in pkt) = Some i" "if_target i = Some tp"
    and ca: "create_at E s pkt now tp hs isr = Inr (OK, pkt', s')"
    unfolding create_conn_def
    by (auto elim!: rbindE split: if_split_asm option.split_asm simp: get_iface_def deref_eq_Inr)
  from ca obtain t c where t: "get_target s tp = Inr t" and fc: "fill_conn tp pkt now (ucast (c_id s + 1)) = Inr c" and
    ca0: "rbind (create_branch E (set_conn ?p c (s\<lparr>st_next := ?p + 1, c_id := c_id s + 1\<rparr>)) pkt ?p t hs isr c) (\<lambda>(result, c, s).
       let s = set_conn ?p c s in if result = OK then Inr (OK, pkt\<lparr>pkt_conn := Some ?p\<rparr>, s)
       else rbind (free_conn s ?p) (\<lambda>s. Inr (NOK, pkt, s))) = Inr (OK, pkt', s')"
    unfolding create_at_def alloc_def Let_def prod.case by (elim rbindE) (simp add: Let_def)
  define s1 where "s1 = set_conn ?p c (s\<lparr>st_next := ?p + 1, c_id := c_id s + 1\<rparr>)"
  note ca1 = ca0 [folded s1_def]
  from ca1 obtain c' s2 where b: "create_ext s1 pkt ?p t c = Inr (OK, c', s2)"
    and s': "s' = set_conn ?p c' s2" "pkt' = pkt\<lparr>pkt_conn := Some ?p\<rparr>"
    using assms(2) by (auto elim!: rbindE simp: create_branch_def Let_def split: if_split_asm)
  from b obtain h ip where h: "get_handler s1 (tg_front_handler t) = Inr h" and ip: "hd_ip h = Some ip"
    by (auto simp: create_ext_def rbind_simps)
  let ?k = "\<lparr>pnk_target_ip = pkt_daddr pkt, pnk_handler_ip = ip, pnk_vlan_id = vlan_vid (hd_vlan h)\<rparr>"
  let ?int = "reply_key_of pkt ip (vlan_vid (hd_vlan h))"
  obtain r s3 where n: "new_pin_key s1 ?k = (r, s3)" by (cases "new_pin_key s1 ?k")
  let ?s4 = "s3\<lparr>ext_tree1 := conn_insert (ext_tree1 s3) (ext_key_of pkt) ?p, ext_tree2 := conn_insert (ext_tree2 s3) ?int ?p\<rparr>"
  have hc: "hold_comm_pin ?s4 r (cn_first_pkt_dst_ip c) = Inr s2"
    and c': "c' = c\<lparr>cn_state := INIT, cn_destination := LIH, cn_ext_key := Some (ext_key_of pkt),
                cn_int_key := Some ?int, cn_pin_key := Some r\<rparr>"
    using b unfolding create_ext_def h rbind_Inr ip nonnull_simps Let_def n prod.case ext_key_of_def reply_key_of_def
    by (auto elim!: rbindE)
  note q = quiet_trees [OF hold_comm_pin_quiet [OF hc]] and q' = quiet_trees [OF new_pin_key_quiet [OF n]]
  have cf: "same_config s s'"
    using hold_comm_pin_config [OF hc] n
    by (auto simp: same_config_def s' set_conn_def new_pin_key_def alloc_def s1_def)
  show thesis
  proof (rule that [of tp t h ip c'])
    show "st_targets s tp = Some t" using t by (simp add: get_target_def deref_eq_Inr)
    show "get_handler s (tg_front_handler t) = Inr h" using h by (simp add: get_handler_def set_conn_def s1_def)
    show "ext_tree1 s' = conn_insert (ext_tree1 s) (ext_key_of pkt) ?p" using q q' s' by (simp add: set_conn_def s1_def)
    show "ext_tree2 s' = conn_insert (ext_tree2 s) ?int ?p" using q q' s' by (simp add: set_conn_def s1_def)
    show "st_conns s' = (st_conns s)(?p \<mapsto> c')" using q q' s' by (simp add: set_conn_def s1_def)
    show "cn_target c' = tp" "cn_state c' = INIT" "cn_locked c'" "cn_initiator c' = EXT"
      using fc by (auto simp: c' fill_conn_def zero_conn_def Let_def assms(2) elim!: rbindE)
    show "same_config s s'" by (rule cf)
  qed (use i ip s' in simp_all)
qed

lemma conn_find_insert:
  assumes "conn_tree.ordered t"
  shows "conn_find (conn_insert t k p) k = Some p"
  unfolding conn_find_def by (rule conn_tree.gt.lookup_insert_same [OF assms])

lemma conns_ok_ordered:
  assumes "conns_ok s"
  shows "conn_tree.ordered (ext_tree1 s)" "conn_tree.ordered (ext_tree2 s)"
  using assms by (simp_all add: conns_ok_def owned_def)

text \<open>C7: A connection that was created for a packet from outside is found again: the next packet of the
  attacker finds it, and so does the answer of the low interaction honeypot, which is recognised as
  coming from the LIH.\<close>

theorem create_lookup:
  assumes "create_conn E s pkt now = Inr (OK, pkt', s')" and "pkt_origin pkt = EXT" and "pkt_vlan_id pkt = 0"
    and "conns_ok s"
    and "st_ifaces s (pkt_in pkt) = Some i" and "if_target i = Some tp" and "st_targets s tp = Some t"
    and "get_handler s (tg_front_handler t) = Inr h" and "hd_ip h = Some ip"
    and "pkt_origin q \<noteq> EXT" and "pkt_key q = reply_key_of pkt ip (vlan_vid (hd_vlan h))"
    and "from_handler q h = Inr True"
  shows "\<exists>p. pkt_conn pkt' = Some p \<and> lookup_trees s' pkt = Inr (Some (p, pkt)) \<and>
    lookup_trees s' q = Inr (Some (p, q\<lparr>pkt_origin := LIH\<rparr>))"
proof -
  obtain tp' t' h' ip' c where e: "st_targets s tp' = Some t'" "get_handler s (tg_front_handler t') = Inr h'" "hd_ip h' = Some ip'"
    "pkt' = pkt\<lparr>pkt_conn := Some (st_next s)\<rparr>"
    "ext_tree1 s' = conn_insert (ext_tree1 s) (ext_key_of pkt) (st_next s)"
    "ext_tree2 s' = conn_insert (ext_tree2 s) (reply_key_of pkt ip' (vlan_vid (hd_vlan h'))) (st_next s)"
    "st_conns s' = (st_conns s)(st_next s \<mapsto> c)" "cn_target c = tp'" "cn_state c = INIT" "cn_locked c" "same_config s s'"
    "cn_initiator c = EXT" "st_ifaces s (pkt_in pkt) \<noteq> None" "if_target (the (st_ifaces s (pkt_in pkt))) = Some tp'"
    by (rule create_conn_ext_eff [OF assms(1,2)])
  have eq: "tp' = tp" "t' = t" "h' = h" "ip' = ip" using e(1-3,13,14) assms(5-9) by auto
  have "pkt_key pkt = ext_key_of pkt" using assms(3) by (simp add: pkt_key_def ext_key_of_def)
  then have f1: "conn_find (ext_tree1 s') (pkt_key pkt) = Some (st_next s)"
    using conn_find_insert [OF conns_ok_ordered(1) [OF assms(4)]] e(5) by simp
  have f2: "conn_find (ext_tree2 s') (pkt_key q) = Some (st_next s)"
    using conn_find_insert [OF conns_ok_ordered(2) [OF assms(4)]] e(6) eq assms(11) by simp
  have "conn_front_handler s' c = Inr h"
    using e(1,2,8,11) eq by (simp add: conn_front_handler_def get_target_def get_handler_def same_config_def)
  then have "int_origin s' q (st_next s) = Inr LIH"
    using e(7) assms(12) by (simp add: int_origin_def get_conn_def)
  then show ?thesis using f1 f2 e(4) assms(2,10) by (simp add: lookup_trees_def Let_def)
qed

text \<open>The answer of the LIH of the scenario: from 10.0.0.2 port 80 to 192.0.0.7 port 12345.\<close>

definition ex_reply :: pkt_struct where
  "ex_reply = (zero_pkt 12 (\<lambda>i. if i < 4 then 0 else (ex_syn(26 := 10, 29 := 2, 30 := 192, 33 := 7, 34 := 0, 35 := 80,
       36 := 48, 37 := 57)) (i - 4)) 74 4 null_headers 54)\<lparr>pkt_l4 := 38, pkt_payload := 58, pkt_origin := INT_ROLE\<rparr>"

lemma ex_access_time [simp]: "gint_of_double 0 = Inr 0" "gint_of_double 100000000 = Inr 100"
  by (simp_all add: gint_of_double_def c_int_def int_ok_def)

lemma ex_create:
  "\<exists>pkt' s'. create_conn ex_env ex_state ex_pkt 0 = Inr (OK, pkt', s')"
  by (simp add: create_conn_def create_at_def create_branch_def create_ext_def hold_comm_pin_def ex_pkt_def zero_pkt_def
      ex_syn_at tcp_syn_def get_iface_def get_target_def get_handler_def ex_target_def ex_front_def alloc_def
      new_pin_key_def new_pin_def pin_lookup_def set_conn_def Let_def ex_state_def ex_uplink_def fill_conn_def)

lemma ex_state_ok: "conns_ok ex_state" "fresh_ok ex_state"
  by (simp_all add: conns_ok_def fresh_ok_def ex_state_def)

lemma ex_reply_key:
  "pkt_key ex_reply = reply_key_of ex_pkt 0x0200000A (vlan_vid (hd_vlan ex_front))" "from_handler ex_reply ex_front = Inr True"
  "pkt_vlan_id ex_pkt = 0"
  by (simp_all add: pkt_key_def reply_key_of_def pkt_vlan_id_def from_handler_def vlan_matches_def ex_reply_def ex_pkt_def zero_pkt_def
      ex_syn_at frame_eval ex_front_def vlan_vid_def)

theorem create_lookup_witness:
  "\<exists>pkt' s' p. create_conn ex_env ex_state ex_pkt 0 = Inr (OK, pkt', s') \<and> lookup_trees s' ex_pkt = Inr (Some (p, ex_pkt)) \<and>
     lookup_trees s' ex_reply = Inr (Some (p, ex_reply\<lparr>pkt_origin := LIH\<rparr>))"
proof -
  obtain pkt' s' where c: "create_conn ex_env ex_state ex_pkt 0 = Inr (OK, pkt', s')" using ex_create by blast
  have o: "pkt_origin ex_pkt = EXT" "pkt_in ex_pkt = 11" "pkt_origin ex_reply \<noteq> EXT"
    by (simp_all add: ex_pkt_def zero_pkt_def ex_reply_def)
  have h: "get_handler ex_state (tg_front_handler ex_target) = Inr ex_front" "hd_ip ex_front = Some 0x0200000A"
    by (simp_all add: get_handler_def ex_target_def ex_front_def)
  show ?thesis
    using create_lookup [OF c o(1) ex_reply_key(3) ex_state_ok(1) _ _ _ h o(3) ex_reply_key(1,2), of ex_uplink 50] c o
    by auto
qed


text \<open>A state with one connection from outside, last used at second 100, and its pin.\<close>

definition ex_tracked_conn :: conn_struct where
  "ex_tracked_conn = (projr (fill_conn 50 ex_pkt 100000000 1))\<lparr>cn_locked := False, cn_state := INIT, cn_destination := LIH,
     cn_ext_key := Some (ext_key_of ex_pkt), cn_int_key := Some (reply_key_of ex_pkt 0x0200000A 0),
     cn_pin_key := Some (101, \<lparr>pnk_target_ip = 0x010000C6, pnk_handler_ip = 0x0200000A, pnk_vlan_id = 0\<rparr>)\<rparr>"

definition ex_tracked :: hb_state where
  "ex_tracked = ex_state\<lparr>st_next := 104, st_conns := [100 \<mapsto> ex_tracked_conn], st_pin_keys := {101, 102},
     st_pins := [103 \<mapsto> \<lparr>pin_pin_key = (102, \<lparr>pnk_target_ip = 0x010000C6, pnk_handler_ip = 0x0200000A, pnk_vlan_id = 0\<rparr>),
                         pin_ip = 0x010000C6, pin_count = 1\<rparr>],
     ext_tree1 := [(ext_key_of ex_pkt, 100)], ext_tree2 := [(reply_key_of ex_pkt 0x0200000A 0, 100)],
     comm_pin_tree := [((102, \<lparr>pnk_target_ip = 0x010000C6, pnk_handler_ip = 0x0200000A, pnk_vlan_id = 0\<rparr>), 103)]\<rparr>"

lemma owned_single:
  "h p = Some c \<Longrightarrow> R c k \<Longrightarrow> (\<And>k'. conn_key_cmp k k' = 0 \<Longrightarrow> R c k' = R c k) \<Longrightarrow> owned R h [(k, p)]"
  using owned_insert [of R h "[]" p c k] by simp

lemma ex_tracked_fields:
  "cn_initiator ex_tracked_conn = EXT" "cn_destination ex_tracked_conn = LIH" "cn_locked ex_tracked_conn = False"
  "cn_state ex_tracked_conn = INIT" "cn_access_time ex_tracked_conn = 100" "cn_ext_key ex_tracked_conn = Some (ext_key_of ex_pkt)"
  "cn_int_key ex_tracked_conn = Some (reply_key_of ex_pkt 0x0200000A 0)" "hih_redirected_int_key (cn_hih ex_tracked_conn) = None"
  "hih_target_pin_key (cn_hih ex_tracked_conn) = None"
  "cn_pin_key ex_tracked_conn = Some (101, \<lparr>pnk_target_ip = 0x010000C6, pnk_handler_ip = 0x0200000A, pnk_vlan_id = 0\<rparr>)"
  by (simp_all add: ex_tracked_conn_def fill_conn_def zero_conn_def zero_hih_def Let_def ex_pkt_def zero_pkt_def)

lemma ex_tracked_ok: "conns_ok ex_tracked" "fresh_ok ex_tracked"
proof -
  have "owned own_ext1 [100 \<mapsto> ex_tracked_conn] [(ext_key_of ex_pkt, 100)]"
    by (rule owned_single [where c = ex_tracked_conn, OF _ _ own_same(1)]) (simp_all add: own_ext1_def conn_tree.cmp_refl ex_tracked_fields)
  moreover have "owned own_ext2 [100 \<mapsto> ex_tracked_conn] [(reply_key_of ex_pkt 0x0200000A 0, 100)]"
    by (rule owned_single [where c = ex_tracked_conn, OF _ _ own_same(2)]) (simp_all add: own_ext2_def conn_tree.cmp_refl ex_tracked_fields)
  moreover have "ext_tree1 ex_tracked = [(ext_key_of ex_pkt, 100)]" "st_conns ex_tracked = [100 \<mapsto> ex_tracked_conn]"
    "ext_tree2 ex_tracked = [(reply_key_of ex_pkt 0x0200000A 0, 100)]" by (simp_all add: ex_tracked_def)
  moreover have "int_tree1 ex_tracked = []" "int_tree2 ex_tracked = []" "intra_tree1 ex_tracked = []" "intra_tree2 ex_tracked = []"
    by (simp_all add: ex_tracked_def ex_state_def)
  ultimately show "conns_ok ex_tracked" by (simp add: conns_ok_def)
  show "fresh_ok ex_tracked" by (auto simp: fresh_ok_def ex_tracked_def)
qed

lemma ex_tracked_remove: "\<exists>s'. remove_conn ex_tracked 100 120 = Inr s'"
proof -
  have c: "conn_key_cmp (ext_key_of ex_pkt) (ext_key_of ex_pkt) = 0"
    "conn_key_cmp (reply_key_of ex_pkt 0x0200000A 0) (reply_key_of ex_pkt 0x0200000A 0) = 0"
    by (simp_all add: conn_tree.cmp_refl)
  show ?thesis
    by (simp add: remove_conn_def remove_from_trees_def lock_conn_def get_conn_def ex_tracked_def ex_tracked_fields set_conn_def
        conn_remove_def c drop_comm_pin_def drop_pin_def pin_lookup_def pinrefcmp_def pincmp_def pin_count_add_def
        pin_remove_def free_pin_def free_pin_key_def drop_target_pin_def free_conn_def free_pin_key_opt_def guard_def)
qed


section \<open>Expiry\<close>

lemma mem_find:
  assumes "conn_tree.ordered t"
  shows "conn_find t k = Some p \<Longrightarrow> \<exists>k'. (k', p) \<in> set t" "(k, p) \<in> set t \<Longrightarrow> conn_find t k = Some p"
  unfolding conn_find_def
  by (drule conn_tree.lookup_mem, elim exE conjE, erule exI) (erule conn_tree.mem_lookup [OF assms])

text \<open>C9: The cleaning thread expires exactly the stale connections: those not used for longer than the delay by
  the 32-bit clock, and those that never left the state INVALID.  After a sweep every connection that is left in a
  searched tree is not stale or is locked by a packet in flight, and no connection that is not stale was touched.\<close>

theorem clean_expires:
  assumes "clean E s configured = Inr s'" and "conns_ok s" and "fresh_ok s"
  shows "conns_ok s' \<and>
    (\<forall>k p. conn_find (ext_tree1 s') k = Some p \<or> conn_find (int_tree2 s') k = Some p \<or> conn_find (intra_tree1 s') k = Some p \<longrightarrow>
      (\<exists>c. st_conns s' p = Some c \<and> st_conns s p = Some c \<and> (stale E (expiration_delay configured) c \<longrightarrow> cn_locked c))) \<and>
    (\<forall>p c. st_conns s p = Some c \<and> \<not> stale E (expiration_delay configured) c \<longrightarrow> st_conns s' p = Some c)"
proof -
  let ?d = "expiration_delay configured"
  from assms(1) obtain ps where e: "expired E s ?d = Inr ps" and r: "remove_all s ps ?d = Inr s'"
    unfolding clean_def Let_def by (auto elim!: rbindE)
  note R = remove_all_ok [OF r assms(2,3)]
  note ps = expired_set [OF e]
  have ord: "conn_tree.ordered (ext_tree1 s)" "conn_tree.ordered (int_tree2 s)" "conn_tree.ordered (intra_tree1 s)"
    using assms(2) by (simp_all add: conns_ok_def owned_def)
  have live: "\<exists>c. st_conns s' p = Some c"
    if "conn_find (ext_tree1 s') k = Some p \<or> conn_find (int_tree2 s') k = Some p \<or> conn_find (intra_tree1 s') k = Some p" for k p
    using R that unfolding conns_ok_def by (blast dest: ownedD)
  have old: "\<exists>k'. (k', p) \<in> set (ext_tree1 s) \<union> set (int_tree2 s) \<union> set (intra_tree1 s)"
    if "conn_find (ext_tree1 s') k = Some p \<or> conn_find (int_tree2 s') k = Some p \<or> conn_find (intra_tree1 s') k = Some p" for k p
  proof -
    have "conn_find (ext_tree1 s) k = Some p \<or> conn_find (int_tree2 s) k = Some p \<or> conn_find (intra_tree1 s) k = Some p"
      using R that by (auto simp: shrinks_def)
    then show ?thesis using mem_find(1) [OF ord(1)] mem_find(1) [OF ord(2)] mem_find(1) [OF ord(3)] by (elim disjE) blast+
  qed
  have "\<exists>c. st_conns s' p = Some c \<and> st_conns s p = Some c \<and> (stale E ?d c \<longrightarrow> cn_locked c)"
    if t: "conn_find (ext_tree1 s') k = Some p \<or> conn_find (int_tree2 s') k = Some p \<or> conn_find (intra_tree1 s') k = Some p" for k p
  proof -
    obtain c where c: "st_conns s' p = Some c" using live [OF t] ..
    then have c': "st_conns s p = Some c" using R by blast
    have "stale E ?d c \<Longrightarrow> p \<in> set ps" using ps old [OF t] c' by blast
    then show ?thesis using c c' R by blast
  qed
  moreover have "st_conns s' p = Some c" if "st_conns s p = Some c" "\<not> stale E ?d c" for p c
  proof -
    have "p \<notin> set ps" using ps that by auto
    then have "st_conns s' p = st_conns s p" using R by blast
    then show ?thesis using that(1) by simp
  qed
  ultimately show ?thesis using R by blast
qed

theorem clean_expires_witness:
  "\<exists>s'. clean ex_env ex_tracked 0 = Inr s' \<and> conns_ok s' \<and> (\<forall>k. conn_find (ext_tree1 s') k \<noteq> Some 100)"
proof -
  have t: "ext_tree1 ex_tracked = [(ext_key_of ex_pkt, 100)]" "int_tree2 ex_tracked = []" "intra_tree1 ex_tracked = []"
    "st_conns ex_tracked 100 = Some ex_tracked_conn" by (simp_all add: ex_tracked_def ex_state_def)
  have n: "now_int ex_env = 1000" by (simp add: now_int_def ex_env_def int_ok_def)
  have st: "stale ex_env 120 ex_tracked_conn" by (simp add: stale_def n ex_tracked_fields)
  have "expired ex_env ex_tracked 120 = Inr [100]"
    by (simp add: expired_def t expire_conn_eq st n ex_tracked_fields int_ok_def)
  then obtain s' where c: "clean ex_env ex_tracked 0 = Inr s'"
    using ex_tracked_remove by (auto simp: clean_def expiration_delay_def)
  have "conn_find (ext_tree1 s') k \<noteq> Some 100" for k
  proof
    assume "conn_find (ext_tree1 s') k = Some 100"
    then obtain c where "st_conns ex_tracked 100 = Some c" "stale ex_env 120 c \<longrightarrow> cn_locked c"
      using clean_expires [OF c ex_tracked_ok] by (fastforce simp: expiration_delay_def)
    then show False using st t(4) ex_tracked_fields(3) by simp
  qed
  then show ?thesis using clean_expires [OF c ex_tracked_ok] c by blast
qed

section \<open>Where the tracking fails\<close>

text \<open>C38: The reply key of a connection leaves out the address the attacker contacted.  When the same
  attacker uses the same ports towards two addresses of one target, the second connection takes over
  the entry of the first: the honeypot's answer to the first connection is then attributed to the second.\<close>

theorem reply_key_shared:
  assumes "create_conn E s pkt1 now1 = Inr (OK, q1, s1)" and "create_conn E s1 pkt2 now2 = Inr (OK, q2, s2)"
    and "pkt_origin pkt1 = EXT" and "pkt_origin pkt2 = EXT" and "conns_ok s" and "fresh_ok s"
    and "pkt_in pkt2 = pkt_in pkt1" and "pkt_proto pkt2 = pkt_proto pkt1" and "pkt_saddr pkt2 = pkt_saddr pkt1"
    and "pkt_source pkt2 = pkt_source pkt1" and "pkt_dest pkt2 = pkt_dest pkt1"
  shows "\<exists>k. conn_find (ext_tree2 s1) k = pkt_conn q1 \<and> conn_find (ext_tree2 s2) k = pkt_conn q2 \<and>
    pkt_conn q1 \<noteq> pkt_conn q2 \<and> pkt_conn q1 \<noteq> None"
proof -
  obtain tp t h ip c where e: "st_targets s tp = Some t" "get_handler s (tg_front_handler t) = Inr h" "hd_ip h = Some ip"
    "q1 = pkt1\<lparr>pkt_conn := Some (st_next s)\<rparr>"
    "ext_tree2 s1 = conn_insert (ext_tree2 s) (reply_key_of pkt1 ip (vlan_vid (hd_vlan h))) (st_next s)"
    "st_conns s1 = (st_conns s)(st_next s \<mapsto> c)" "same_config s s1"
    "if_target (the (st_ifaces s (pkt_in pkt1))) = Some tp"
    by (rule create_conn_ext_eff [OF assms(1,3)])
  obtain tp' t' h' ip' where f: "st_targets s1 tp' = Some t'" "get_handler s1 (tg_front_handler t') = Inr h'" "hd_ip h' = Some ip'"
    "q2 = pkt2\<lparr>pkt_conn := Some (st_next s1)\<rparr>"
    "ext_tree2 s2 = conn_insert (ext_tree2 s1) (reply_key_of pkt2 ip' (vlan_vid (hd_vlan h'))) (st_next s1)"
    "if_target (the (st_ifaces s1 (pkt_in pkt2))) = Some tp'"
    by (rule create_conn_ext_eff [OF assms(2,4)])
  have "tp' = tp" using e(7,8) f(6) assms(7) by (simp add: same_config_def)
  then have "t' = t" using e(1,7) f(1) by (simp add: same_config_def)
  then have "h' = h" using e(2,7) f(2) by (simp add: same_config_def get_handler_def)
  then have k: "reply_key_of pkt2 ip' (vlan_vid (hd_vlan h')) = reply_key_of pkt1 ip (vlan_vid (hd_vlan h))"
    using e(3) f(3) assms(8-11) by (simp add: reply_key_of_def)
  note ok = create_conn_ok [OF assms(1,5,6)]
  have "st_next s < st_next s1" using ok e(6) by (auto simp: fresh_ok_def) (metis leI option.distinct(1))
  then show ?thesis
    using conn_find_insert [OF conns_ok_ordered(2) [OF assms(5)]] conn_find_insert [OF conns_ok_ordered(2) [OF conjunct1 [OF ok]]]
      e(4,5) f(4,5) k by (intro exI [of _ "reply_key_of pkt1 ip (vlan_vid (hd_vlan h))"]) simp
qed

text \<open>A second SYN of the attacker of the scenario, to 198.0.0.2.\<close>

definition ex_pkt2 :: pkt_struct where
  "ex_pkt2 = ex_pkt\<lparr>pkt_FRAME := (pkt_FRAME ex_pkt)(37 := 2)\<rparr>"

lemma create_ext_total:
  assumes "pkt_origin pkt = EXT" and "pkt_proto pkt = IPPROTO_TCP" and "pkt_l4 pkt + 14 \<le> pkt_flen pkt"
    and "tcp_syn (pkt_FRAME pkt) (pkt_l4 pkt)"
    and "st_ifaces s (pkt_in pkt) = Some i" and "if_target i = Some tp" and "st_targets s tp = Some t"
    and "get_handler s (tg_front_handler t) = Inr h" and "hd_ip h = Some ip"
    and "\<forall>(k, q) \<in> set (comm_pin_tree s). fst k \<in> st_pin_keys s \<and> st_pins s q \<noteq> None" and "gint_of_double now = Inr secs"
  shows "\<exists>pkt' s'. create_conn E s pkt now = Inr (OK, pkt', s')"
proof -
  have pl: "st_pins s q \<noteq> None" if "g_tree_lookup pinrefcmp (comm_pin_tree s) r = Some q" for r q
    using pin_tree.lookup_mem [OF that] assms(10) by blast
  have live: "\<forall>x \<in> set (comm_pin_tree s). case x of (k, q) \<Rightarrow> fst k \<in> st_pin_keys s" using assms(10) by auto
  show ?thesis
    using assms(1-9,11) live
    by (auto simp: fill_conn_def create_conn_def create_at_def create_branch_def create_ext_def hold_comm_pin_def get_iface_def get_target_def
        get_handler_def alloc_def new_pin_key_def new_pin_def pin_lookup_def set_conn_def Let_def guard_def pin_count_add_def
        split: option.split dest: pl)
qed

lemma ex_create_pins:
  "\<exists>pkt' s'. create_conn ex_env ex_state ex_pkt 0 = Inr (OK, pkt', s') \<and>
     (\<forall>(k, q) \<in> set (comm_pin_tree s'). fst k \<in> st_pin_keys s' \<and> st_pins s' q \<noteq> None)"
  by (simp add: create_conn_def create_at_def create_branch_def create_ext_def hold_comm_pin_def ex_pkt_def zero_pkt_def
      ex_syn_at tcp_syn_def get_iface_def get_target_def get_handler_def ex_target_def ex_front_def alloc_def
      new_pin_key_def new_pin_def pin_lookup_def set_conn_def Let_def ex_state_def ex_uplink_def fill_conn_def)

theorem reply_key_shared_witness:
  "\<exists>q1 s1 q2 s2 k. create_conn ex_env ex_state ex_pkt 0 = Inr (OK, q1, s1) \<and> create_conn ex_env s1 ex_pkt2 0 = Inr (OK, q2, s2) \<and>
     conn_find (ext_tree2 s1) k = pkt_conn q1 \<and> conn_find (ext_tree2 s2) k = pkt_conn q2 \<and> pkt_conn q1 \<noteq> pkt_conn q2"
proof -
  obtain q1 s1 where c: "create_conn ex_env ex_state ex_pkt 0 = Inr (OK, q1, s1)"
    and p: "\<forall>(k, q) \<in> set (comm_pin_tree s1). fst k \<in> st_pin_keys s1 \<and> st_pins s1 q \<noteq> None" using ex_create_pins by blast
  have o: "pkt_origin ex_pkt = EXT" "pkt_origin ex_pkt2 = EXT" "pkt_in ex_pkt2 = pkt_in ex_pkt" "pkt_in ex_pkt = 11"
    "pkt_proto ex_pkt2 = pkt_proto ex_pkt" "pkt_saddr ex_pkt2 = pkt_saddr ex_pkt" "pkt_source ex_pkt2 = pkt_source ex_pkt"
    "pkt_dest ex_pkt2 = pkt_dest ex_pkt" "pkt_proto ex_pkt2 = 6" "tcp_syn (pkt_FRAME ex_pkt2) (pkt_l4 ex_pkt2)"
    "pkt_l4 ex_pkt2 + 14 \<le> pkt_flen ex_pkt2"
    by (simp_all add: ex_pkt2_def ex_pkt_def zero_pkt_def ex_syn_at frame_eval tcp_syn_def)
  have "same_config ex_state s1" by (rule create_conn_ext_eff [OF c o(1)])
  then have h: "st_ifaces s1 11 = Some ex_uplink" "st_targets s1 50 = Some ex_target"
    "get_handler s1 (tg_front_handler ex_target) = Inr ex_front" "hd_ip ex_front = Some 0x0200000A"
    by (simp_all add: same_config_def get_handler_def ex_target_def ex_front_def)
  obtain q2 s2 where d: "create_conn ex_env s1 ex_pkt2 0 = Inr (OK, q2, s2)"
    using create_ext_total [OF o(2,9,11,10) _ _ h(2-4) p, of ex_uplink 0 0 ex_env] o(3,4) h(1) by auto
  show ?thesis using reply_key_shared [OF c d o(1,2) ex_state_ok o(3,5-8)] c d by blast
qed

section \<open>Senders in the INTRA network\<close>

lemma foreach_hih_src:
  assumes "g_tree_foreach (find_hih_src s pkt) t hs = Inr hs'" and "\<not> hs_found hs'" and "hs_back_handler hs = None"
  shows "hs_back_handler hs' = None"
  using assms
proof (induction t arbitrary: hs)
  case (Cons a t)
  then show ?case
    by (cases a) (auto simp: find_hih_src_def elim!: rbindE split: if_split_asm)
qed simp

lemma foreach_hih_dst:
  assumes "g_tree_foreach (find_hih_dst s pkt) t hs = Inr hs'"
  shows "hs_back_handler hs' = hs_back_handler hs"
  using assms
proof (induction t arbitrary: hs)
  case (Cons a t)
  then show ?case
    by (cases a) (auto simp: find_hih_dst_def elim!: rbindE split: if_split_asm)
qed simp

lemma search_intra:
  assumes "g_tree_foreach (find_target s) t ts = Inr ts'" and "pkt_origin (ts_pkt ts') = INTRA"
    and "pkt_origin (ts_pkt ts) \<noteq> INTRA" and "hs_back_handler (ts_hih_search ts) = None"
  shows "hs_back_handler (ts_hih_search ts') = None"
  using assms
proof (induction t arbitrary: ts)
  case (Cons a t)
  obtain id tp where a: "a = (id, tp)" by (cases a)
  from Cons.prems(1) obtain stop ts1 where f: "find_target s id tp ts = Inr (stop, ts1)"
    and r: "if stop then ts1 = ts' else g_tree_foreach (find_target s) t ts1 = Inr ts'"
    unfolding a by (auto elim!: rbindE split: if_split_asm)
  have inv: "pkt_origin (ts_pkt ts1) = INTRA \<or> \<not> stop \<Longrightarrow> hs_back_handler (ts_hih_search ts1) = None"
    "\<not> stop \<Longrightarrow> pkt_origin (ts_pkt ts1) \<noteq> INTRA"
    using f Cons.prems(3,4) foreach_hih_src
    by (auto simp: find_target_def Let_def elim!: rbindE split: if_split_asm)
  show ?case
  proof (cases stop)
    case True
    then show ?thesis using r inv Cons.prems(2) by simp
  next
    case False
    then show ?thesis using r inv Cons.IH [of ts1] Cons.prems(2) by simp
  qed
qed simp

text \<open>No connection is ever created for a packet of an INTRA host.  The branch for it searches the
  destination among the high interaction honeypots without recording which one it found, so it either
  drops the packet or goes on with an uninitialised pointer.\<close>

theorem intra_never_created:
  assumes "create_conn E s pkt now = Inr (OK, pkt', s')" and "pkt_origin pkt \<noteq> INTRA"
  shows "pkt_origin pkt' \<noteq> INTRA"
proof
  assume o: "pkt_origin pkt' = INTRA"
  from assms(1) obtain pkt1 tp hs isr where c: "create_at E s pkt1 now tp hs isr = Inr (OK, pkt', s')"
    and h: "pkt_origin pkt1 = INTRA \<longrightarrow> hs_back_handler hs = None"
    using assms(2) search_intra [of s "targets s"] unfolding create_conn_def search_target_def
    by (auto elim!: rbindE split: if_split_asm option.split_asm bool.split_asm)
  from c have "pkt_origin pkt1 = INTRA" using o
    by (auto simp: create_at_def alloc_def Let_def elim!: rbindE split: if_split_asm)
  with c h show False
    using foreach_hih_dst
    by (auto simp: create_at_def alloc_def Let_def create_branch_def create_intra_def elim!: rbindE
        split: if_split_asm option.split_asm)
qed

theorem intra_never_created_witness:
  "\<exists>pkt' s'. create_conn ex_env ex_state ex_pkt 0 = Inr (OK, pkt', s') \<and> pkt_origin pkt' \<noteq> INTRA"
proof -
  obtain pkt' s' where c: "create_conn ex_env ex_state ex_pkt 0 = Inr (OK, pkt', s')" using ex_create by blast
  have "pkt_origin ex_pkt \<noteq> INTRA" by (simp add: ex_pkt_def zero_pkt_def)
  from intra_never_created [OF c this] c show ?thesis by blast
qed

end
