(* ===== verification/Module_Theorems.thy ===== *)
theory Module_Theorems
  imports Modules Conn_Theorems
begin

text \<open>
  What the decision modules do: which are reachable by their name, the reading
  of numeric parameters and the random picks.
\<close>

section \<open>What the modules do\<close>

text \<open>The name of a module is compared only up to the length of the names in the table, so
  \<open>source_time\<close> is taken for \<open>source\<close>: the module with the time frame is never reached.\<close>

theorem source_time_unreachable:
  "get_module name \<noteq> Inr (Some MOD_SOURCE_TIME) \<and> get_module (''source_time'' @ rest) = Inr (Some MOD_SOURCE)"
proof -
  have "take (length ''source'') name = ''source''" if "take (length ''source_time'') name = ''source_time''"
    using arg_cong [OF that, of "take 6"] by (simp add: numeral_eq_Suc)
  then show ?thesis by (auto simp: get_module_def module_definitions_def)
qed

text \<open>The packet of the scenario at a module.\<close>

definition ex_args :: "honeybrid_modules_t \<Rightarrow> config \<Rightarrow> mod_args" where
  "ex_args md cfg =
     \<lparr>ma_node = Node (Some md) cfg [] [] None None,
      ma_pkt = ex_pkt\<lparr>pkt_conn := Some 100\<rparr>, ma_backend_test = 0, ma_backend_use = 0\<rparr>"

lemma int_chars_byte: "0 \<le> n \<Longrightarrow> n < 256 \<Longrightarrow> int_chars n = [char_of (nat n), CHR 0x00, CHR 0x00, CHR 0x00]"
  by (simp add: int_chars_def nat_less_iff char_of_def)

lemma atoi_other: "\<not> is_digit c \<Longrightarrow> atoi [c] = 0"
  by (simp add: atoi_def digits_val_def to_int32_def)

text \<open>A number that is given without quotes is stored as an \<open>int\<close>, and \<open>mod_counter\<close> reads it as text.  A
  threshold below 256 that is not the code of a digit comes out as 0: every packet is accepted at once.\<close>

theorem mod_counter_number:
  assumes "ma_config args ''counter'' = Some (CfgInt n)" and "0 \<le> n" and "n < 256" and "n < 48 \<or> 57 < n"
    and "ma_conn s args = Inr (p, c)"
  shows "mod_counter s args = Inr (ACCEPT, args, s)"
proof -
  have "\<not> is_digit (char_of (nat n))" using assms(2-4) by (auto simp: is_digit_def)
  then have "\<exists>t. cfg_string (CfgInt n) = Inr t \<and> atoi t = 0"
    using int_chars_byte [OF assms(2,3)] atoi_other [of "char_of (nat n)"]
    by (cases "char_of (nat n) = CHR 0x00") (simp_all add: cfg_string_def atoi_def to_int32_def)
  with assms(1,5) show ?thesis by (auto simp: mod_counter_def)
qed

theorem mod_counter_number_witness:
  "mod_counter ex_tracked (ex_args MOD_COUNTER [''counter'' \<mapsto> CfgInt 5]) = Inr (ACCEPT, ex_args MOD_COUNTER [''counter'' \<mapsto> CfgInt 5], ex_tracked)"
  using mod_counter_number [of "ex_args MOD_COUNTER [''counter'' \<mapsto> CfgInt 5]" 5 ex_tracked]
  by (simp add: ex_args_def ma_conn_def get_conn_def ex_tracked_def)

text \<open>\<open>mod_random\<close> accepts when the draw falls in the second of the equal parts the range of \<open>rand\<close> is cut
  into: with the value 1 there is none, and the module never accepts.\<close>

theorem mod_random_odds:
  assumes "ma_config args ''value'' = Some (CfgInt v)" and "0 < v" and "v < 2 ^ 31" and "ev_rand E (st_rand s) < 2 ^ 31"
  shows "\<exists>r s'. mod_random E s args = Inr (r, args, s') \<and> r \<noteq> DEFER \<and>
    (r = ACCEPT \<longleftrightarrow> 2 ^ 31 \<le> nat v * ev_rand E (st_rand s) \<and> nat v * ev_rand E (st_rand s) < 2 ^ 32) \<and>
    (v = 1 \<longrightarrow> r = REJECT)"
proof -
  have u: "unat (word_of_int v :: u32) = nat v" "\<not> (word_of_int v :: u32) < 1"
    using assms(2,3) by (simp_all add: unsigned_of_int word_less_nat_alt take_bit_int_eq_self)
  have "a div 2 ^ 31 = 1 \<longleftrightarrow> 2 ^ 31 \<le> a \<and> a < 2 ^ 32" for a :: nat
    using div_nat_eqI [of "2 ^ 31" 1 a] by auto
  with assms u show ?thesis by (simp add: mod_random_def cfg_int_def Let_def)
qed

theorem mod_random_odds_witness:
  "\<exists>s'. mod_random ex_env ex_state (ex_args MOD_RANDOM [''value'' \<mapsto> CfgInt 1]) =
     Inr (REJECT, ex_args MOD_RANDOM [''value'' \<mapsto> CfgInt 1], s')"
proof -
  have "ma_config (ex_args MOD_RANDOM [''value'' \<mapsto> CfgInt 1]) ''value'' = Some (CfgInt 1)"
    "ev_rand ex_env (st_rand ex_state) < 2 ^ 31" by (simp_all add: ex_args_def ex_env_def)
  from mod_random_odds [OF this(1) _ _ this(2)] show ?thesis by auto
qed

text \<open>The backend that is picked has a number from 1 to the number of backends.\<close>

theorem mod_backpick_range:
  assumes "mod_backpick_random E s args = Inr (ACCEPT, args', s')" and "ma_conn s args = Inr (p, c)"
    and "st_targets s (cn_target c) = Some t" and "length (tg_back_handlers t) < 2 ^ 31"
  shows "1 \<le> unat (ma_backend_use args') \<and> unat (ma_backend_use args') \<le> length (tg_back_handlers t)"
proof -
  let ?n = "length (tg_back_handlers t)" and ?r = "ev_rand E (st_rand s)"
  have n: "?n \<noteq> 0" "ma_backend_use args' = word_of_nat (?r mod ?n + 1)"
    using assms(1-3) by (auto simp: mod_backpick_random_def get_target_def Let_def split: if_split_asm)
  then have "?r mod ?n < ?n" by simp
  then have "unat (word_of_nat (?r mod ?n + 1) :: u64) = ?r mod ?n + 1"
    using assms(4) by (simp only: unat_of_nat) (simp add: mod_less del: mod_less_divisor)
  with n \<open>?r mod ?n < ?n\<close> show ?thesis by (simp only: Suc_eq_plus1 [symmetric] Suc_le_eq) simp
qed

theorem mod_backpick_range_witness:
  "\<exists>args' s'. mod_backpick_random ex_env ex_tracked (ex_args MOD_BACKPICK_RANDOM Map.empty) = Inr (ACCEPT, args', s') \<and>
     1 \<le> unat (ma_backend_use args') \<and> unat (ma_backend_use args') \<le> 1"
proof -
  let ?a = "ex_args MOD_BACKPICK_RANDOM Map.empty"
  have c: "ma_conn ex_tracked ?a = Inr (100, ex_tracked_conn)" by (simp add: ma_conn_def get_conn_def ex_args_def ex_tracked_def)
  have t: "st_targets ex_tracked (cn_target ex_tracked_conn) = Some ex_target" "length (tg_back_handlers ex_target) = 1"
    by (simp_all add: ex_tracked_def ex_tracked_conn_def ex_target_def fill_conn_def zero_conn_def ex_state_def Let_def)
  obtain args' s' where r: "mod_backpick_random ex_env ex_tracked ?a = Inr (ACCEPT, args', s')"
    using c t by (cases "tg_back_handlers ex_target") (simp_all add: mod_backpick_random_def get_target_def Let_def)
  with mod_backpick_range [OF r c t(1)] t(2) show ?thesis by auto
qed

end
