(* ===== verification/Honeybrid_Main.thy ===== *)
theory Honeybrid_Main
  imports Decision_Engine Module_Theorems
begin

text \<open>
  The main program (\<open>honeybrid.c\<close>): the settings, the capture callback that
  hands a frame to one of the decision threads, what a decision thread does with
  a frame, and the end of the program.  A decision thread holds the mutex of the
  packet's connection from the lookup to the end, so the work on one frame is one
  step of the state; a run of the program is a sequence of such steps, sweeps of
  the cleaning thread and changes of the targets (\<open>reachable\<close>).
\<close>

section \<open>Settings (init_variables)\<close>

text \<open>An integer setting, 0 when it is absent.\<close>

definition ICONFIG :: "config \<Rightarrow> string \<Rightarrow> int res" where
  "ICONFIG cfg k = (case cfg k of None \<Rightarrow> Inr 0 | Some v \<Rightarrow> cfg_int v)"

text \<open>The tables are made, empty, and the settings are read from the table of the configuration: the one that was
  just made.  A counter starts at 0; a missing setting is 0, which for the packet buffer means no bound.\<close>

definition init_variables :: "hb_state \<Rightarrow> (config \<times> hb_state) res" where
  "init_variables s =
     (let config = Map.empty;
          s = s\<lparr>links := Map.empty, targets := [], ext_tree1 := [], ext_tree2 := [], int_tree1 := [], int_tree2 := [],
                comm_pin_tree := [], target_pin_tree := [], intra_tree1 := [], intra_tree2 := [], intra_pin_tree := [],
                module_to_save := Map.empty\<rparr> in
      rbind (ICONFIG config ''max_packet_buffer'') (\<lambda>n.
      rbind (ICONFIG config ''deny_hih_init'') (\<lambda>deny.
      rbind (ICONFIG config ''reset_ext'') (\<lambda>reset.
      rbind (ICONFIG config ''exclusive_hih'') (\<lambda>excl.
      rbind (ICONFIG config ''broadcast_allowed'') (\<lambda>bcast.
      Inr (config, s\<lparr>max_packet_buffer := (if 0 < n then word_of_int n else -1), deny_hih_init := deny, reset_ext := reset,
                     exclusive_hih := excl, c_id := 0, target_counter := 0, broadcast := 0xFFFFFFFFFFFF,
                     broadcast_allowed := (bcast \<noteq> 0)\<rparr>)))))))"

section \<open>Capturing a frame (pcap_cb)\<close>

text \<open>The queue of a frame: the last byte of the address outside, modulo the number of threads.\<close>

definition IP2QUEUEID :: "interface \<Rightarrow> u32 \<Rightarrow> u32 \<Rightarrow> u32 \<Rightarrow> u32 res" where
  "IP2QUEUEID iface saddr daddr decision_threads =
     rbind (guard DivByZero (decision_threads \<noteq> 0)) (\<lambda>_.
     Inr (drop_bit 24 ((if if_target iface \<noteq> None then saddr else daddr) AND 0xFF000000) mod decision_threads))"

record raw_pcap =
  raw_header :: pcap_pkthdr
  raw_packet :: mem
  raw_iface :: ptr

datatype captured = Skipped | ArpAnswered | Queued u32 raw_pcap

definition pcap_cb ::
  "env \<Rightarrow> hb_state \<Rightarrow> u32 \<Rightarrow> ptr \<Rightarrow> pcap_pkthdr \<Rightarrow> mem \<Rightarrow> (captured \<times> hb_state) res" where
  "pcap_cb E s decision_threads input header packet =
     (let caplen = unat (ph_caplen header);
          push = (\<lambda>i ip.
            rbind (inside caplen (ip + 20)) (\<lambda>_.
            rbind (IP2QUEUEID i (ip_saddr packet ip) (ip_daddr packet ip) decision_threads) (\<lambda>q.
            Inr (Queued q \<lparr>raw_header = header, raw_packet = packet, raw_iface = input\<rparr>, s)))) in
      rbind (inside caplen 14) (\<lambda>_.
      rbind (get_iface s (Some input)) (\<lambda>i.
      let ethertype = ntohs (ether_type packet 0) in
      if ethertype = ETHERTYPE_ARP then
        rbind (send_arp_reply E s ethertype input packet caplen) (\<lambda>s. Inr (ArpAnswered, s))
      else if ethertype = ETHERTYPE_IP then push i ETHER_HDR_LEN
      else if ethertype = ETHERTYPE_VLAN then
        (if if_target i \<noteq> None then Inr (Skipped, s)
         else
           rbind (inside caplen 18) (\<lambda>_.
           let proto = ntohs (get16 packet 16) in
           if proto = ETHERTYPE_ARP then
             rbind (send_arp_reply E s ethertype input packet caplen) (\<lambda>s. Inr (ArpAnswered, s))
           else if proto = ETHERTYPE_IP then push i VLAN_ETH_HLEN
           else Inr (Skipped, s)))
      else Inr (Skipped, s))))"

section \<open>A frame in a decision thread (de_thread)\<close>

definition upd_conn :: "hb_state \<Rightarrow> ptr \<Rightarrow> (conn_struct \<Rightarrow> conn_struct) \<Rightarrow> hb_state res" where
  "upd_conn s p f = rbind (get_conn s p) (\<lambda>c. Inr (set_conn p (f c) s))"

text \<open>A SYN of the LIH tells the sequence number its stream begins with.\<close>

definition note_syn :: "hb_state \<Rightarrow> ptr \<Rightarrow> pkt_struct \<Rightarrow> hb_state res" where
  "note_syn s p pkt =
     (if pkt_proto pkt = IPPROTO_TCP then
        rbind (inside (pkt_flen pkt) (pkt_l4 pkt + 14)) (\<lambda>_.
        if tcp_syn (pkt_FRAME pkt) (pkt_l4 pkt)
        then upd_conn s p (\<lambda>c. c\<lparr>cn_hih := (cn_hih c)\<lparr>hih_lih_syn_seq := ntohl (tcp_seq (pkt_FRAME pkt) (pkt_l4 pkt))\<rparr>\<rparr>)
        else Inr s)
      else Inr s)"

text \<open>A packet is only kept when there are backends.\<close>

definition keep_pkt :: "hb_state \<Rightarrow> ptr \<Rightarrow> pkt_struct \<Rightarrow> hb_state res" where
  "keep_pkt s p pkt =
     rbind (get_conn s p) (\<lambda>c.
     rbind (get_target s (cn_target c)) (\<lambda>t.
     if 0 < tg_back_handler_count t \<or> tg_back_picker t \<noteq> None
     then let (_, c, _) = store_pkt s c pkt in Inr (set_conn p c s)
     else Inr s))"

type_synonym sender = "env \<Rightarrow> hb_state \<Rightarrow> conn_struct \<Rightarrow> pkt_struct \<Rightarrow> (status_t \<times> pkt_struct \<times> hb_state) res"

definition send_on :: "sender \<Rightarrow> env \<Rightarrow> hb_state \<Rightarrow> ptr \<Rightarrow> pkt_struct \<Rightarrow> (pkt_struct \<times> hb_state) res" where
  "send_on f E s p pkt =
     rbind (get_conn s p) (\<lambda>c. rbind (f E s c pkt) (\<lambda>(_, pkt, s). Inr (pkt, s)))"

definition send_only :: "sender \<Rightarrow> env \<Rightarrow> hb_state \<Rightarrow> ptr \<Rightarrow> pkt_struct \<Rightarrow> hb_state res" where
  "send_only f E s p pkt = rbind (send_on f E s p pkt) (\<lambda>(_, s). Inr s)"

text \<open>The engine decides; the packet goes on when it says so.\<close>

definition decide_and_send :: "sender \<Rightarrow> env \<Rightarrow> hb_state \<Rightarrow> ptr \<Rightarrow> pkt_struct \<Rightarrow> (pkt_struct \<times> hb_state) res" where
  "decide_and_send f E s p pkt =
     rbind (DE_process_packet E s pkt) (\<lambda>(r, s).
     if r = OK then send_on f E s p pkt else Inr (pkt, s))"

definition handle_lih :: "env \<Rightarrow> hb_state \<Rightarrow> ptr \<Rightarrow> pkt_struct \<Rightarrow> hb_state res" where
  "handle_lih E s p pkt =
     rbind (get_conn s p) (\<lambda>c.
     if cn_state c = INIT \<or> cn_state c = DECISION then
       rbind (note_syn s p pkt) (\<lambda>s.
       rbind (send_on proxy_int2ext E s p pkt) (\<lambda>(pkt, s). keep_pkt s p pkt))
     else if cn_state c = PROXY then send_only proxy_int2ext E s p pkt
     else if cn_state c = CONTROL then
       rbind (note_syn s p pkt) (\<lambda>s.
       rbind (decide_and_send proxy_int2ext E s p pkt) (\<lambda>(pkt, s). keep_pkt s p pkt))
     else if pkt_proto pkt = IPPROTO_TCP then
       rbind (conn_front_handler s c) (\<lambda>h. reply_reset E s pkt (hd_iface h))
     else Inr s)"

text \<open>A SYN of the HIH fixes the distance between the streams of the LIH and the HIH.\<close>

definition note_delta :: "conn_struct \<Rightarrow> pkt_struct \<Rightarrow> conn_struct res" where
  "note_delta c pkt =
     (if pkt_proto pkt = IPPROTO_TCP then
        rbind (inside (pkt_flen pkt) (pkt_l4 pkt + 14)) (\<lambda>_.
        Inr (if tcp_syn (pkt_FRAME pkt) (pkt_l4 pkt)
             then c\<lparr>cn_hih := (cn_hih c)\<lparr>hih_delta := NOT (ntohl (tcp_seq (pkt_FRAME pkt) (pkt_l4 pkt))) + 1
                                                      + hih_lih_syn_seq (cn_hih c)\<rparr>\<rparr>
             else c))
      else Inr c)"

definition control_hih :: "env \<Rightarrow> hb_state \<Rightarrow> ptr \<Rightarrow> pkt_struct \<Rightarrow> hb_state res" where
  "control_hih E s p pkt =
     rbind (upd_conn s p (\<lambda>c. switch_state c CONTROL)) (\<lambda>s.
     rbind (DE_process_packet E s pkt) (\<lambda>(r, s).
     if r = OK then
       rbind (get_conn s p) (\<lambda>c.
       if cn_destination c = EXT then send_only proxy_int2ext E s p pkt
       else if cn_destination c = INTRA then send_only proxy_hih2intra E s p pkt
       else Inr s)
     else Inr s))"

definition deny_hih :: "env \<Rightarrow> hb_state \<Rightarrow> ptr \<Rightarrow> conn_struct \<Rightarrow> pkt_struct \<Rightarrow> hb_state res" where
  "deny_hih E s p c pkt =
     rbind (if pkt_proto pkt = IPPROTO_TCP
            then rbind (get_handler s (hih_back_handler (cn_hih c))) (\<lambda>h. reply_reset E s pkt (hd_iface h))
            else Inr s) (\<lambda>s.
     upd_conn s p (\<lambda>c. switch_state c DROP))"

definition handle_hih :: "env \<Rightarrow> hb_state \<Rightarrow> ptr \<Rightarrow> pkt_struct \<Rightarrow> hb_state res" where
  "handle_hih E s p pkt =
     rbind (get_conn s p) (\<lambda>c.
     (case cn_state c of
        REPLAY \<Rightarrow>
          rbind (note_delta c pkt) (\<lambda>c.
          rbind (replay E s c pkt) (\<lambda>(_, c, s). Inr (set_conn p c s)))
      | FORWARD \<Rightarrow> send_only forward_hih2ext E s p pkt
      | PROXY \<Rightarrow>
          if cn_destination c = EXT then send_only proxy_int2ext E s p pkt
          else if cn_destination c = INTRA then send_only proxy_hih2intra E s p pkt
          else Inr s
      | CONTROL \<Rightarrow> rbind (decide_and_send proxy_int2ext E s p pkt) (\<lambda>(_, s). Inr s)
      | _ \<Rightarrow> if deny_hih_init s = 1 then deny_hih E s p c pkt else control_hih E s p pkt))"

definition handle_intra :: "env \<Rightarrow> hb_state \<Rightarrow> ptr \<Rightarrow> pkt_struct \<Rightarrow> hb_state res" where
  "handle_intra E s p pkt =
     rbind (get_conn s p) (\<lambda>c.
     if cn_state c = PROXY then send_only proxy_intra2hih E s p pkt else Inr s)"

definition handle_ext :: "env \<Rightarrow> hb_state \<Rightarrow> ptr \<Rightarrow> pkt_struct \<Rightarrow> hb_state res" where
  "handle_ext E s p pkt =
     rbind (get_conn s p) (\<lambda>c.
     (case cn_state c of
        INIT \<Rightarrow> rbind (decide_and_send proxy_ext2int E s p pkt) (\<lambda>(pkt, s). keep_pkt s p pkt)
      | DECISION \<Rightarrow> rbind (decide_and_send proxy_ext2int E s p pkt) (\<lambda>(pkt, s). keep_pkt s p pkt)
      | FORWARD \<Rightarrow> send_only forward_ext2hih E s p pkt
      | PROXY \<Rightarrow> send_only proxy_ext2int E s p pkt
      | CONTROL \<Rightarrow> send_only proxy_ext2int E s p pkt
      | _ \<Rightarrow> Inr s))"

text \<open>The answer to a packet of the attacker on a connection that is not, or no longer, served.\<close>

definition refuse :: "env \<Rightarrow> hb_state \<Rightarrow> conn_struct \<Rightarrow> pkt_struct \<Rightarrow> hb_state res" where
  "refuse E s c pkt =
     (if pkt_origin pkt = EXT \<and> pkt_proto pkt = IPPROTO_TCP \<and> reset_ext s = 1
      then rbind (get_target s (cn_target c)) (\<lambda>t. reply_reset E s pkt (tg_default_route t))
      else Inr s)"

definition handle_packet :: "env \<Rightarrow> hb_state \<Rightarrow> ptr \<Rightarrow> pkt_struct \<Rightarrow> hb_state res" where
  "handle_packet E s p pkt =
     rbind (get_conn s p) (\<lambda>c.
     if cn_state c < INIT \<and> pkt_origin pkt = EXT \<or> cn_state c = DROP then refuse E s c pkt
     else
       (case pkt_origin pkt of
          LIH \<Rightarrow> handle_lih E s p pkt
        | HIH \<Rightarrow> handle_hih E s p pkt
        | INTRA \<Rightarrow> handle_intra E s p pkt
        | _ \<Rightarrow> handle_ext E s p pkt))"

text \<open>The packet is given its connection, whose mutex is held until the packet is dealt with.\<close>

definition serve_pkt :: "env \<Rightarrow> hb_state \<Rightarrow> pkt_struct \<Rightarrow> hb_state res" where
  "serve_pkt E s pkt =
     rbind (init_conn E s pkt) (\<lambda>(r, pkt, s).
     if r = NOK then Inr s
     else
       rbind (nonnull (pkt_conn pkt)) (\<lambda>p.
       rbind (handle_packet E s p pkt) (\<lambda>s.
       upd_conn s p (\<lambda>c. c\<lparr>cn_locked := False\<rparr>))))"

text \<open>One turn of the loop of a decision thread.\<close>

definition de_step :: "env \<Rightarrow> hb_state \<Rightarrow> raw_pcap \<Rightarrow> hb_state res" where
  "de_step E s raw =
     rbind (process_packet s (raw_iface raw) (raw_header raw) (raw_packet raw)) (\<lambda>r.
     (case r of
        None \<Rightarrow> Inr s
      | Some pkt \<Rightarrow>
          if pkt_fragmented pkt then send_icmp_frag_needed E s pkt
          else if pkt_broadcast pkt \<and> \<not> broadcast_allowed s then Inr s
          else
            rbind (get_iface s (Some (pkt_in pkt))) (\<lambda>i.
            if \<not> pkt_broadcast pkt \<and> ether_dhost (pkt_FRAME pkt) (pkt_eth pkt) \<noteq> if_mac i then Inr s
            else serve_pkt E s pkt)))"

section \<open>The end of the program (close_conn_trees)\<close>

text \<open>Every connection not used in this very second is removed, waiting for its mutex; then the trees go.\<close>

definition close_conn_trees :: "env \<Rightarrow> hb_state \<Rightarrow> hb_state res" where
  "close_conn_trees E s =
     rbind (expired E s 0) (\<lambda>ps.
     rbind (remove_all s ps 0) (\<lambda>s.
     Inr (s\<lparr>ext_tree1 := [], ext_tree2 := [], int_tree1 := [], int_tree2 := [], comm_pin_tree := [],
            target_pin_tree := [], intra_tree1 := [], intra_tree2 := [], intra_pin_tree := []\<rparr>)))"

end
