(* ===== verification/Engine_Invariant.thy ===== *)
theory Engine_Invariant
  imports Honeybrid_Main
begin

text \<open>
  What the decision engine and a decision thread do to the connections.  A frame changes at most the connection
  it belongs to (\<open>touched\<close>, \<open>good\<close>): the trees stay consistent (\<open>conns_ok\<close>), and the state of the connection
  moves along the edges \<open>next_states\<close>.  The rules are those without the module that redirects DNS
  (\<open>no_dns_rules\<close>): that module rewrites the handlers of a target while the engine reads them.
\<close>

section \<open>What the modules and the engine leave alone\<close>

definition remembers :: "hb_state \<Rightarrow> hb_state \<Rightarrow> bool" where
  "remembers s s' \<longleftrightarrow> quiet s s' \<and> same_config s s'"

lemma remembers_refl [simp]: "remembers s s"
  by (simp add: remembers_def same_config_def)

lemma remembers_trans: "remembers a b \<Longrightarrow> remembers b c \<Longrightarrow> remembers a c"
  unfolding remembers_def using quiet_trans by (auto simp: same_config_def)

lemma remembers_upd [simp]:
  "remembers s (s\<lparr>st_rand := n\<rparr>)" "remembers s (snd (save_backup s d f))"
  by (simp_all add: remembers_def same_config_def save_backup_def quiet_def same_conns_def fresh_ok_def)

lemma kf_set_remembers: "kf_set s kf g k v = Inr s' \<Longrightarrow> remembers s (snd (save_backup s' d f))"
  by (auto simp: kf_set_def remembers_def same_config_def save_backup_def quiet_def same_conns_def fresh_ok_def elim!: rbindE)

lemma with_backup_remembers:
  assumes "with_backup s args f = Inr (r, a, s')" and "\<And>kf path. f kf path = Inr (r, a, s') \<Longrightarrow> remembers s s'"
  shows "remembers s s'"
  using assms by (auto simp: with_backup_def elim!: rbindE split: option.split_asm)

lemma module_remembers:
  "mod_yesno s args = Inr (r, a, s') \<Longrightarrow> remembers s s'"
  "mod_counter s args = Inr (r, a, s') \<Longrightarrow> remembers s s'"
  "mod_random E s args = Inr (r, a, s') \<Longrightarrow> remembers s s'"
  "mod_backpick_random E s args = Inr (r, a, s') \<Longrightarrow> remembers s s'"
  "mod_source E s args = Inr (r, a, s') \<Longrightarrow> remembers s s'"
  "mod_control E s args = Inr (r, a, s') \<Longrightarrow> remembers s s'"
  "mod_source_time E s args = Inr (r, a, s') \<Longrightarrow> remembers s s'"
  "mod_hash E s args = Inr (r, a, s') \<Longrightarrow> remembers s s'"
  "mod_vmi b s args = Inr (r, a, s') \<Longrightarrow> remembers s s'"
  subgoal by (auto simp: mod_yesno_def elim!: rbindE split: option.split_asm)
  subgoal by (auto simp: mod_counter_def Let_def elim!: rbindE split: option.split_asm)
  subgoal by (auto simp: mod_random_def Let_def elim!: rbindE split: option.split_asm if_split_asm)
  subgoal by (auto simp: mod_backpick_random_def Let_def elim!: rbindE split: if_split_asm)
  subgoal unfolding mod_source_def Let_def by (erule with_backup_remembers) (auto elim!: rbindE intro: kf_set_remembers)
  subgoal unfolding mod_control_def Let_def by (erule with_backup_remembers) (auto elim!: rbindE intro: kf_set_remembers)
  subgoal unfolding mod_source_time_def Let_def
    by (erule with_backup_remembers) (auto elim!: rbindE split: if_split_asm intro: kf_set_remembers)
  subgoal unfolding mod_hash_def Let_def
    by (cases "pkt_data (ma_pkt args) = 0") (auto elim!: rbindE with_backup_remembers intro: kf_set_remembers)
  subgoal
    by (auto simp: mod_vmi_def mod_vmi_pick_def mod_vmi_control_def mod_vmi_intra_def Let_def elim!: rbindE split: option.split_asm if_split_asm)
  done

lemma run_module_remembers:
  assumes "run_module E s args = Inr (r, a, s')" and "nd_module (ma_node args) \<noteq> Some MOD_DNS_CONTROL"
  shows "remembers s s'"
proof (cases "nd_module (ma_node args)")
  case (Some m)
  then show ?thesis using assms module_remembers by (cases m) (auto simp: run_module_def)
qed (use assms in \<open>simp add: run_module_def\<close>)

text \<open>A rule without the module that redirects DNS, which changes handlers and connections.\<close>

fun no_dns :: "node \<Rightarrow> bool" where
  "no_dns (Node m c n f t fb) \<longleftrightarrow> m \<noteq> Some MOD_DNS_CONTROL \<and>
     (case t of None \<Rightarrow> True | Some t \<Rightarrow> no_dns t) \<and> (case fb of None \<Rightarrow> True | Some fb \<Rightarrow> no_dns fb)"

lemma decide_loop_remembers:
  "decide_loop E s args use n = Inr (r, u, s') \<Longrightarrow> no_dns n \<Longrightarrow> remembers s s'"
proof (induction n arbitrary: s args use)
  case (Node m c nm f t fb)
  from Node.prems obtain res a s1 where 1: "run_module E s (args\<lparr>ma_node := Node m c nm f t fb\<rparr>) = Inr (res, a, s1)"
    and 2: "(case res of
        ACCEPT \<Rightarrow> let use = (if ma_backend_use a \<noteq> 0 then ma_backend_use a else use) in
          (case t of None \<Rightarrow> Inr (DE_ACCEPT, use, s1) | Some t \<Rightarrow> decide_loop E s1 a use t)
      | DEFER \<Rightarrow> Inr (DE_DEFER, use, s1)
      | REJECT \<Rightarrow> (case fb of None \<Rightarrow> Inr (DE_REJECT, use, s1) | Some fb \<Rightarrow> decide_loop E s1 a use fb)) = Inr (r, u, s')"
    by (auto elim!: rbindE)
  have "remembers s s1" by (rule run_module_remembers [OF 1]) (use Node.prems in simp)
  moreover have "remembers s1 s'"
    using 2 Node.prems(2) Node.IH by (auto simp: Let_def split: mod_result_t.split_asm option.split_asm)
  ultimately show ?case by (rule remembers_trans)
qed

section \<open>Steps that touch one connection\<close>

text \<open>Only the connection \<open>p\<close> changes, and nothing of what it is filed under.\<close>

definition touched :: "hb_state \<Rightarrow> ptr \<Rightarrow> conn_struct \<Rightarrow> hb_state \<Rightarrow> conn_struct \<Rightarrow> bool" where
  "touched s p c s' c' \<longleftrightarrow> st_conns s p = Some c \<and> same_conns (set_conn p c' s) s' \<and> (fresh_ok s \<longrightarrow> fresh_ok s') \<and>
     same_config s s' \<and> same_identity c c' \<and> cn_target c' = cn_target c"

lemma touched_conn: "touched s p c s' c' \<Longrightarrow> st_conns s' = (st_conns s)(p \<mapsto> c')"
  by (simp add: touched_def same_conns_def set_conn_def)

lemma touched_trans: "touched s p c s1 c1 \<Longrightarrow> touched s1 p c1 s2 c2 \<Longrightarrow> touched s p c s2 c2"
  by (auto simp: touched_def same_conns_def set_conn_def same_config_def intro: same_identity_trans)

lemma remembers_touched: "remembers s s' \<Longrightarrow> st_conns s p = Some c \<Longrightarrow> touched s p c s' c"
  by (auto simp: remembers_def touched_def quiet_def same_conns_def set_conn_def)

lemma sends_remembers: "sends s s' \<Longrightarrow> remembers s s'"
  using sends_quiet by (auto simp: remembers_def sends_def same_config_def)

lemma set_conn_touched:
  assumes "st_conns s p = Some c" and "same_identity c c'" and "cn_target c' = cn_target c"
  shows "touched s p c (set_conn p c' s) c'"
  using assms by (auto simp: touched_def same_config_def set_conn_def fresh_ok_def)

lemma touched_ok:
  assumes "touched s p c s' c'" and "conns_ok s" and "fresh_ok s"
  shows "conns_ok s' \<and> fresh_ok s'"
  using assms conns_ok_set_same [of s p c c'] conns_ok_same unfolding touched_def by blast

lemma touched_config: "touched s p c s' c' \<Longrightarrow> same_config s s'"
  by (simp add: touched_def)

text \<open>The rules of the targets and handlers.\<close>

definition no_dns_opt :: "node option \<Rightarrow> bool" where
  "no_dns_opt r \<longleftrightarrow> (case r of None \<Rightarrow> True | Some n \<Rightarrow> no_dns n)"

definition no_dns_rules :: "hb_state \<Rightarrow> bool" where
  "no_dns_rules s \<longleftrightarrow> (\<forall>p h. st_handlers s p = Some h \<longrightarrow> no_dns_opt (hd_rule h)) \<and>
     (\<forall>p t. st_targets s p = Some t \<longrightarrow>
        no_dns_opt (tg_back_picker t) \<and> no_dns_opt (tg_control_rule t) \<and> no_dns_opt (tg_intra_rule t))"

lemma no_dns_config: "same_config s s' \<Longrightarrow> no_dns_rules s' = no_dns_rules s"
  by (simp add: no_dns_rules_def same_config_def)

lemma get_decision_touched:
  assumes "get_decision E s d = Inr (d', s')" and "no_dns_opt (dh_node d)" and "pkt_conn (dh_pkt d) = Some p"
    and "st_conns s p = Some c"
  shows "dh_pkt d' = dh_pkt d" "\<exists>c'. touched s p c s' c' \<and> cn_state c' = cn_state c"
proof -
  have "dh_pkt d' = dh_pkt d \<and> (\<exists>c'. touched s p c s' c' \<and> cn_state c' = cn_state c)"
  proof (cases "dh_node d")
    case None
    then show ?thesis using assms remembers_touched [OF remembers_refl assms(4)] by (auto simp: get_decision_def)
  next
    case (Some n)
    then obtain s1 where 1: "remembers s s1" and d: "dh_pkt d' = dh_pkt d"
      and 2: "rbind (get_conn s1 p) (\<lambda>c. Inr (d', set_conn p (c\<lparr>cn_decision_packet_id := cn_total_packet c\<rparr>) s1)) = Inr (d', s')"
      using assms(1-3) unfolding get_decision_def decide_def no_dns_opt_def
      by (auto elim!: rbindE dest: decide_loop_remembers)
    from remembers_touched [OF 1 assms(4)] have t: "touched s p c s1 c" .
    then have c: "st_conns s1 p = Some c" using touched_conn by fastforce
    with 2 have "s' = set_conn p (c\<lparr>cn_decision_packet_id := cn_total_packet c\<rparr>) s1"
      by (simp add: get_conn_def)
    with set_conn_touched [OF c, of "c\<lparr>cn_decision_packet_id := cn_total_packet c\<rparr>"] touched_trans [OF t] d
    show ?thesis by (intro conjI exI [of _ "c\<lparr>cn_decision_packet_id := cn_total_packet c\<rparr>"]) (simp_all add: same_identity_def)
  qed
  then show "dh_pkt d' = dh_pkt d" "\<exists>c'. touched s p c s' c' \<and> cn_state c' = cn_state c" by auto
qed

text \<open>The engine up to its outcome: the state of the connection is what it was.\<close>

definition decided :: "hb_state \<Rightarrow> ptr \<Rightarrow> conn_struct \<Rightarrow> decision_holder \<Rightarrow> hb_state \<Rightarrow> bool" where
  "decided s p c d s' \<longleftrightarrow> pkt_conn (dh_pkt d) = Some p \<and> (\<exists>c'. touched s p c s' c' \<and> cn_state c' = cn_state c)"

lemma get_decision_decided:
  assumes "get_decision E s1 d1 = Inr (d', s')" and "no_dns_opt (dh_node d1)" and "decided s p c d1 s1"
  shows "decided s p c d' s'"
proof -
  from assms(3) obtain c1 where 1: "touched s p c s1 c1" "cn_state c1 = cn_state c" "pkt_conn (dh_pkt d1) = Some p"
    by (auto simp: decided_def)
  then have "st_conns s1 p = Some c1" using touched_conn by fastforce
  from get_decision_touched [OF assms(1,2) 1(3) this] 1 show ?thesis
    unfolding decided_def using touched_trans by metis
qed

lemma decided_rules: "decided s p c d s' \<Longrightarrow> no_dns_rules s \<Longrightarrow> no_dns_rules s'"
  using no_dns_config touched_config unfolding decided_def by blast

lemma decided_set [simp]:
  "decided s p c (d\<lparr>dh_node := n\<rparr>) s' = decided s p c d s'" "decided s p c (d\<lparr>dh_result := r\<rparr>) s' = decided s p c d s'"
  "decided s p c (d\<lparr>dh_backend_use := u\<rparr>) s' = decided s p c d s'" "decided s p c (d\<lparr>dh_backend_test := u\<rparr>) s' = decided s p c d s'"
  by (simp_all add: decided_def)

lemma rules_of:
  assumes "no_dns_rules s"
  shows "get_handler s q = Inr h \<Longrightarrow> no_dns_opt (hd_rule h)"
    "get_target s tp = Inr t \<Longrightarrow> no_dns_opt (tg_back_picker t) \<and> no_dns_opt (tg_control_rule t) \<and> no_dns_opt (tg_intra_rule t)"
    "conn_front_handler s c = Inr h \<Longrightarrow> no_dns_opt (hd_rule h)"
  using assms unfolding no_dns_rules_def conn_front_handler_def get_handler_def get_target_def
  by (auto simp: rbind_simps elim!: rbindE)

lemma backend_foreach_decided:
  assumes "g_tree_foreach (get_decision_backend E) t (d1, s1) = Inr (d', s')" and "decided s p c d1 s1" and "no_dns_rules s"
  shows "decided s p c d' s'"
  using assms(1,2)
proof (induction t arbitrary: d1 s1)
  case (Cons kv t)
  obtain k v where kv: "kv = (k, v)" by (cases kv)
  from Cons.prems(1) obtain stop d2 s2 where 1: "get_decision_backend E k v (d1, s1) = Inr (stop, d2, s2)"
    and 2: "(if stop then Inr (d2, s2) else g_tree_foreach (get_decision_backend E) t (d2, s2)) = Inr (d', s')"
    unfolding kv by (auto elim!: rbindE)
  from 1 obtain bh d3 where h: "get_handler s1 (Some v) = Inr bh"
    and g: "get_decision E s1 (d1\<lparr>dh_backend_test := take_bit 32 k, dh_node := hd_rule bh\<rparr>) = Inr (d3, s2)"
    and d2: "d2 = d3 \<or> d2 = d3\<lparr>dh_backend_use := take_bit 32 k\<rparr>"
    unfolding get_decision_backend_def Let_def by (auto elim!: rbindE split: if_split_asm)
  have "decided s p c d3 s2"
    by (rule get_decision_decided [OF g]) (use Cons.prems(2) rules_of(1) [OF decided_rules [OF Cons.prems(2) assms(3)] h] in simp_all)
  with d2 have "decided s p c d2 s2" by auto
  with 2 Cons.IH show ?case by (auto split: if_split_asm)
qed simp

lemma de_init_decided:
  assumes "de_init E s c d = Inr (d', s')" and "decided s p c d s" and "no_dns_rules s"
  shows "decided s p c d' s'" "dh_result d' \<noteq> DE_DEFER"
proof -
  from assms(1) obtain h d1 where h: "conn_front_handler s c = Inr h"
    and g: "get_decision E s (d\<lparr>dh_node := hd_rule h\<rparr>) = Inr (d1, s')"
    and d': "d' = (if dh_result d1 = DE_DEFER then d1\<lparr>dh_result := DE_REJECT\<rparr> else d1)"
    unfolding de_init_def by (auto elim!: rbindE)
  have "decided s p c d1 s'"
    by (rule get_decision_decided [OF g]) (use assms rules_of(3) [OF assms(3) h] in simp_all)
  then show "decided s p c d' s'" "dh_result d' \<noteq> DE_DEFER" by (simp_all add: d')
qed

lemma de_decision_decided:
  assumes "de_decision E s c d = Inr (d', s')" and "decided s p c d s" and "no_dns_rules s"
  shows "decided s p c d' s'"
proof -
  from assms(1) obtain t where t: "get_target s (cn_target c) = Inr t"
    and b: "(if tg_back_picker t \<noteq> None then
       rbind (get_decision E s (d\<lparr>dh_node := tg_back_picker t\<rparr>)) (\<lambda>(d, s).
       if dh_result d = DE_ACCEPT \<and> dh_backend_use d \<noteq> 0 then
         rbind (get_target s (cn_target c)) (\<lambda>t.
         rbind (get_handler s (g_tree_lookup intcmp (tg_back_handlers t) (dh_backend_use d))) (\<lambda>bh.
         if hd_rule bh \<noteq> None then get_decision E s (d\<lparr>dh_node := hd_rule bh\<rparr>) else Inr (d, s)))
       else Inr (d, s))
     else g_tree_foreach (get_decision_backend E) (tg_back_handlers t) (d, s)) = Inr (d', s')"
    unfolding de_decision_def by (elim rbindE) blast
  show ?thesis
  proof (cases "tg_back_picker t")
    case None
    with b backend_foreach_decided [OF _ assms(2,3)] show ?thesis by simp
  next
    case (Some n)
    with b obtain d1 s1 where g: "get_decision E s (d\<lparr>dh_node := tg_back_picker t\<rparr>) = Inr (d1, s1)"
      and 2: "(if dh_result d1 = DE_ACCEPT \<and> dh_backend_use d1 \<noteq> 0 then
         rbind (get_target s1 (cn_target c)) (\<lambda>t.
         rbind (get_handler s1 (g_tree_lookup intcmp (tg_back_handlers t) (dh_backend_use d1))) (\<lambda>bh.
         if hd_rule bh \<noteq> None then get_decision E s1 (d1\<lparr>dh_node := hd_rule bh\<rparr>) else Inr (d1, s1)))
       else Inr (d1, s1)) = Inr (d', s')"
      by (auto elim!: rbindE)
    have 1: "decided s p c d1 s1"
      by (rule get_decision_decided [OF g]) (use assms rules_of(2) [OF assms(3) t] in simp_all)
    with 2 rules_of(1) [OF decided_rules [OF 1 assms(3)]] show ?thesis
      by (auto elim!: rbindE split: if_split_asm dest!: get_decision_decided [where s = s and p = p and c = c]) metis
  qed
qed

lemma de_control_decided:
  assumes "de_control E s c d = Inr (d', s')" and "decided s p c d s" and "no_dns_rules s"
  shows "decided s p c d' s'"
  using assms(1,2) rules_of [OF assms(3)] unfolding de_control_def
  by (auto elim!: rbindE split: if_split_asm option.split_asm dest!: get_decision_decided [where s = s and p = p and c = c])

text \<open>The edges of the state machine the engine walks, from each state it is asked in.\<close>

fun next_states :: "conn_status_t \<Rightarrow> conn_status_t set" where
  "next_states INIT = {PROXY, DECISION, DROP}"
| "next_states DECISION = {DECISION, PROXY, REPLAY}"
| "next_states CONTROL = {CONTROL, PROXY, DROP}"
| "next_states st = {st}"

text \<open>Which edge is taken: the states that follow, given the target, the state and the decision; and whether the packet
  may go on.  A decision a rule cannot give in a state has none.\<close>

definition outcome_states :: "target option \<Rightarrow> conn_status_t \<Rightarrow> decision_t \<Rightarrow> conn_status_t set" where
  "outcome_states t st r =
     (case st of
        INIT \<Rightarrow>
          (case (r, t) of
             (DE_NO_RULE, Some t) \<Rightarrow> {if tg_back_handler_count t = 0 then PROXY else DECISION}
           | (DE_ACCEPT, Some t) \<Rightarrow> {if tg_back_handler_count t = 0 \<and> tg_back_picker t = None then PROXY else DECISION}
           | (DE_REJECT, _) \<Rightarrow> {DROP}
           | _ \<Rightarrow> {})
      | DECISION \<Rightarrow>
          (case r of
             DE_ACCEPT \<Rightarrow> {DECISION, REPLAY}
           | DE_REJECT \<Rightarrow> {PROXY}
           | DE_DROP \<Rightarrow> {}
           | _ \<Rightarrow> {DECISION})
      | CONTROL \<Rightarrow>
          (case r of
             DE_NO_RULE \<Rightarrow> {PROXY}
           | DE_REJECT \<Rightarrow> {DROP}
           | DE_DROP \<Rightarrow> {DROP}
           | _ \<Rightarrow> {CONTROL})
      | _ \<Rightarrow> (if r = DE_NO_RULE then {st} else {}))"

definition goes_on :: "conn_status_t \<Rightarrow> decision_t \<Rightarrow> status_t" where
  "goes_on st r =
     (case r of
        DE_NO_RULE \<Rightarrow> OK
      | DE_DEFER \<Rightarrow> OK
      | DE_ACCEPT \<Rightarrow> if st = DECISION then NOK else OK
      | _ \<Rightarrow> NOK)"

lemma outcome_next: "outcome_states t st r \<subseteq> next_states st"
  by (cases st) (auto simp: outcome_states_def split: decision_t.split option.split)

definition undecided :: "conn_struct \<Rightarrow> bool" where
  "undecided c \<longleftrightarrow> cn_state c = INIT \<or> cn_state c = DECISION"

lemma de_accept_states:
  assumes "de_accept E s p c use = Inr (r, s')" and "st_conns s p = Some c" and "conns_ok s" and "fresh_ok s"
    and "undecided c \<longrightarrow> cn_initiator c = EXT \<and> hih_redirected_int_key (cn_hih c) = None"
    and "undecided c \<or> cn_state c = CONTROL"
  shows "conns_ok s' \<and> fresh_ok s' \<and> r = goes_on (cn_state c) DE_ACCEPT \<and>
    (\<exists>c'. st_conns s' = (st_conns s)(p \<mapsto> c') \<and> cn_state c' \<in> outcome_states (st_targets s (cn_target c)) (cn_state c) DE_ACCEPT \<and>
      (undecided c' \<longrightarrow> cn_initiator c' = EXT \<and> hih_redirected_int_key (cn_hih c') = None))"
proof -
  have set: "conns_ok (set_conn p (switch_state c st) s) \<and> fresh_ok (set_conn p (switch_state c st) s)" for st
    using conns_ok_set_same [OF assms(3,4,2)] by (simp add: same_identity_def switch_state_def)
  have same: "st_conns s = (st_conns s)(p \<mapsto> c)" using assms(2) by auto
  consider (init) st where "cn_state c = INIT" "r = OK" "s' = set_conn p (switch_state c st) s"
      "st \<in> outcome_states (st_targets s (cn_target c)) INIT DE_ACCEPT"
    | (redirect) x where "cn_state c = DECISION" "r = NOK" "setup_redirection E s p use = Inr (x, s')"
    | (control) "cn_state c = CONTROL" "r = OK" "s' = s"
    using assms(1,6) unfolding de_accept_def undecided_def outcome_states_def
    by (auto simp: get_target_def deref_eq_Inr elim!: rbindE split: if_split_asm)
  then show ?thesis
  proof cases
    case init
    then show ?thesis
      using set assms(5)
      by (intro conjI exI [of _ "switch_state c st"]) (auto simp: set_conn_def switch_state_def undecided_def goes_on_def)
  next
    case redirect
    with assms(5) have e: "cn_initiator c = EXT" "hih_redirected_int_key (cn_hih c) = None" by (simp_all add: undecided_def)
    from setup_redirection_ok [OF redirect(3) assms(3,4,2) e] obtain c' where
      "conns_ok s'" "fresh_ok s'" "st_conns s' = (st_conns s)(p \<mapsto> c')" "c' = c \<or> cn_state c' = REPLAY \<and> cn_initiator c' = EXT"
      by blast
    then show ?thesis using redirect(1,2) e
      by (intro conjI exI [of _ c']) (auto simp: undecided_def goes_on_def outcome_states_def)
  next
    case control
    then show ?thesis using same assms
      by (intro conjI exI [of _ c]) (auto simp: undecided_def goes_on_def outcome_states_def)
  qed
qed

text \<open>What one step of the program does to the connection it works on: the trees stay in order, the other
  connections stay, and a connection that is still undecided was opened from outside and not redirected.\<close>

definition fit :: "conn_struct \<Rightarrow> bool" where
  "fit c \<longleftrightarrow> (undecided c \<longrightarrow> cn_initiator c = EXT \<and> hih_redirected_int_key (cn_hih c) = None)"

definition good :: "hb_state \<Rightarrow> ptr \<Rightarrow> conn_status_t set \<Rightarrow> hb_state \<Rightarrow> bool" where
  "good s p sts s' \<longleftrightarrow> conns_ok s' \<and> fresh_ok s' \<and>
     (\<exists>c'. st_conns s' = (st_conns s)(p \<mapsto> c') \<and> cn_state c' \<in> sts \<and> fit c')"

lemma good_touched:
  assumes "touched s p c s' c'" and "conns_ok s" and "fresh_ok s" and "fit c'" and "cn_state c' \<in> sts"
  shows "good s p sts s'"
  using touched_ok [OF assms(1-3)] touched_conn [OF assms(1)] assms(4,5) unfolding good_def by blast

lemma fit_same: "same_identity c c' \<Longrightarrow> cn_state c' = cn_state c \<Longrightarrow> fit c' = fit c"
  by (simp add: fit_def undecided_def same_identity_def)

lemma good_mono: "good s p A s' \<Longrightarrow> A \<subseteq> B \<Longrightarrow> good s p B s'"
  by (auto simp: good_def)

lemma de_outcome_good:
  assumes "de_outcome E s p d = Inr (r, s')" and "st_conns s p = Some c" and "conns_ok s" and "fresh_ok s" and "fit c"
    and "cn_state c = INIT \<longrightarrow> dh_result d \<noteq> DE_DEFER" and "undecided c \<longrightarrow> dh_result d \<noteq> DE_DROP"
    and "\<not> undecided c \<and> cn_state c \<noteq> CONTROL \<longrightarrow> dh_result d = DE_NO_RULE"
  shows "good s p (outcome_states (st_targets s (cn_target c)) (cn_state c) (dh_result d)) s' \<and> r = goes_on (cn_state c) (dh_result d)"
    (is "good s p ?sts s' \<and> _")
proof -
  have set: "good s p ?sts (set_conn p (switch_state c st) s)"
    if "st \<in> ?sts" "undecided (switch_state c st) \<longrightarrow> undecided c" for st
    by (rule good_touched [OF set_conn_touched [OF assms(2)] assms(3,4)])
      (use that assms(5) in \<open>simp_all add: same_identity_def switch_state_def fit_def\<close>)
  show ?thesis
  proof (cases "dh_result d")
    case DE_NO_RULE
    then obtain st where "r = OK" "s' = set_conn p (switch_state c st) s" "de_no_rule s c = Inr st"
      using assms(1,2) unfolding de_outcome_def by (auto simp: get_conn_def elim!: rbindE)
    moreover from this have "st \<in> ?sts \<and> (undecided (switch_state c st) \<longrightarrow> undecided c)"
      unfolding de_no_rule_def undecided_def outcome_states_def DE_NO_RULE
      by (cases "cn_state c") (auto simp: get_target_def deref_eq_Inr switch_state_def elim!: rbindE)
    ultimately show ?thesis using set DE_NO_RULE by (simp add: goes_on_def)
  next
    case DE_DEFER
    then have "cn_state c = DECISION \<or> cn_state c = CONTROL" using assms(6,8) by (auto simp: undecided_def)
    then have "good s p ?sts s"
      using DE_DEFER good_touched [OF remembers_touched [OF remembers_refl assms(2)] assms(3,4,5)] by (auto simp: outcome_states_def)
    then show ?thesis using assms(1,2) DE_DEFER unfolding de_outcome_def by (auto simp: get_conn_def goes_on_def)
  next
    case DE_ACCEPT
    then have "de_accept E s p c (dh_backend_use d) = Inr (r, s')"
      using assms(1,2) unfolding de_outcome_def by (simp add: get_conn_def)
    from de_accept_states [OF this assms(2-4)] assms(5,8) DE_ACCEPT show ?thesis by (auto simp: good_def fit_def)
  next
    case DE_REJECT
    with assms(8) have "(if cn_state c = DECISION then PROXY else DROP) \<in> ?sts"
      by (auto simp: undecided_def outcome_states_def)
    moreover have "s' = set_conn p (switch_state c (if cn_state c = DECISION then PROXY else DROP)) s" "r = NOK"
      using assms(1,2) DE_REJECT unfolding de_outcome_def by (simp_all add: get_conn_def)
    ultimately show ?thesis using set DE_REJECT by (simp add: undecided_def goes_on_def switch_state_def)
  next
    case DE_DROP
    with assms(7,8) have "DROP \<in> ?sts" by (auto simp: outcome_states_def)
    moreover have "s' = set_conn p (switch_state c DROP) s" "r = NOK"
      using assms(1,2) DE_DROP unfolding de_outcome_def by (simp_all add: get_conn_def)
    ultimately show ?thesis using set DE_DROP by (simp add: undecided_def goes_on_def switch_state_def)
  qed
qed

text \<open>A rule never decides to drop: that is what an undecided INTRA connection comes to.\<close>

lemma decide_loop_not_drop: "decide_loop E s args use n = Inr (r, u, s') \<Longrightarrow> r \<noteq> DE_DROP"
  by (induction n arbitrary: s args use;
      auto simp: Let_def elim!: rbindE split: mod_result_t.split_asm option.split_asm; blast)

lemma get_decision_not_drop: "get_decision E s d = Inr (d', s') \<Longrightarrow> dh_result d \<noteq> DE_DROP \<Longrightarrow> dh_result d' \<noteq> DE_DROP"
  by (auto simp: get_decision_def decide_def elim!: rbindE split: if_split_asm dest: decide_loop_not_drop)

lemma backend_foreach_not_drop:
  "g_tree_foreach (get_decision_backend E) t (d, s) = Inr (d', s') \<Longrightarrow> dh_result d \<noteq> DE_DROP \<Longrightarrow> dh_result d' \<noteq> DE_DROP"
proof (induction t arbitrary: d s)
  case (Cons kv t)
  obtain k v where kv: "kv = (k, v)" by (cases kv)
  from Cons.prems(1) obtain stop d2 s2 where 1: "get_decision_backend E k v (d, s) = Inr (stop, d2, s2)"
    and 2: "(if stop then Inr (d2, s2) else g_tree_foreach (get_decision_backend E) t (d2, s2)) = Inr (d', s')"
    unfolding kv by (auto elim!: rbindE)
  have "dh_result d2 \<noteq> DE_DROP"
    using 1 Cons.prems(2) unfolding get_decision_backend_def Let_def
    by (auto elim!: rbindE split: if_split_asm dest!: get_decision_not_drop)
  with 2 Cons.IH show ?case by (auto split: if_split_asm)
qed simp

lemma de_undecided_not_drop:
  "de_init E s c d = Inr (d', s') \<Longrightarrow> dh_result d \<noteq> DE_DROP \<Longrightarrow> dh_result d' \<noteq> DE_DROP"
  "de_decision E s c d = Inr (d', s') \<Longrightarrow> dh_result d \<noteq> DE_DROP \<Longrightarrow> dh_result d' \<noteq> DE_DROP"
  unfolding de_init_def de_decision_def
  by (auto elim!: rbindE split: if_split_asm dest!: get_decision_not_drop backend_foreach_not_drop)

lemma good_trans:
  assumes "touched s p c s1 c1" and "good s1 p sts s'"
  shows "good s p sts s'"
  using assms touched_conn [OF assms(1)] by (auto simp: good_def)

text \<open>What the engine asks in each state, with the decision it starts from.\<close>

definition asked :: "env \<Rightarrow> hb_state \<Rightarrow> conn_struct \<Rightarrow> pkt_struct \<Rightarrow> (decision_holder \<times> hb_state) res" where
  "asked E s c pkt =
     (let d = \<lparr>dh_pkt = pkt, dh_node = None, dh_result = DE_NO_RULE, dh_backend_test = 0, dh_backend_use = 0\<rparr> in
      case cn_state c of
        INIT \<Rightarrow> de_init E s c d
      | DECISION \<Rightarrow> de_decision E s c d
      | CONTROL \<Rightarrow> de_control E s c d
      | _ \<Rightarrow> Inr (d, s))"

lemma DE_process_packet_outcome:
  assumes "DE_process_packet E s pkt = Inr (r, s')" and "pkt_conn pkt = Some p" and "st_conns s p = Some c"
    and "conns_ok s" and "fresh_ok s" and "no_dns_rules s" and "fit c"
  shows "\<exists>d s1. asked E s c pkt = Inr (d, s1) \<and> r = goes_on (cn_state c) (dh_result d) \<and>
    good s p (outcome_states (st_targets s (cn_target c)) (cn_state c) (dh_result d)) s'"
proof -
  let ?d = "\<lparr>dh_pkt = pkt, dh_node = None, dh_result = DE_NO_RULE, dh_backend_test = 0, dh_backend_use = 0\<rparr>"
  have d0: "decided s p c ?d s" "dh_result ?d \<noteq> DE_DROP"
    using assms(2) remembers_touched [OF remembers_refl assms(3)] by (auto simp: decided_def)
  from assms(1-3) obtain d1 s1 where 1: "asked E s c pkt = Inr (d1, s1)" and 2: "de_outcome E s1 p d1 = Inr (r, s')"
    unfolding DE_process_packet_def asked_def by (auto simp: get_conn_def Let_def elim!: rbindE)
  have d1: "decided s p c d1 s1 \<and> (cn_state c = INIT \<longrightarrow> dh_result d1 \<noteq> DE_DEFER) \<and> (undecided c \<longrightarrow> dh_result d1 \<noteq> DE_DROP) \<and>
      (\<not> undecided c \<and> cn_state c \<noteq> CONTROL \<longrightarrow> dh_result d1 = DE_NO_RULE)"
    using 1 d0 assms(6) de_init_decided de_decision_decided de_control_decided de_undecided_not_drop [OF _ d0(2)]
    unfolding asked_def Let_def by (cases "cn_state c") (auto simp: undecided_def)
  then obtain c1 where t: "touched s p c s1 c1" "cn_state c1 = cn_state c" by (auto simp: decided_def)
  have g: "good s1 p (outcome_states (st_targets s1 (cn_target c1)) (cn_state c1) (dh_result d1)) s' \<and> r = goes_on (cn_state c1) (dh_result d1)"
  proof (rule de_outcome_good [OF 2])
    show "st_conns s1 p = Some c1" using touched_conn [OF t(1)] by simp
    show "conns_ok s1" "fresh_ok s1" using touched_ok [OF t(1) assms(4,5)] by auto
    show "fit c1" using fit_same t assms(7) by (auto simp: touched_def)
  qed (use d1 t(2) in \<open>simp_all add: undecided_def\<close>)
  have "st_targets s1 (cn_target c1) = st_targets s (cn_target c)" using t(1) by (simp add: touched_def same_config_def)
  with g t good_trans [OF t(1)] 1 show ?thesis by (intro exI [of _ d1] exI [of _ s1]) simp
qed

lemma DE_process_packet_good:
  assumes "DE_process_packet E s pkt = Inr (r, s')" and "pkt_conn pkt = Some p" and "st_conns s p = Some c"
    and "conns_ok s" and "fresh_ok s" and "no_dns_rules s" and "fit c"
  shows "good s p (next_states (cn_state c)) s'"
  using DE_process_packet_outcome [OF assms] good_mono [OF _ outcome_next] by blast

section \<open>One packet\<close>

lemma sends_touched: "sends s s' \<Longrightarrow> st_conns s p = Some c \<Longrightarrow> touched s p c s' c"
  by (rule remembers_touched [OF sends_remembers])

text \<open>The contract of the functions that rewrite a packet and send it on: apart from the frames that leave, the
  state is what it was.\<close>

locale packet_sender =
  fixes f :: sender
  assumes only_sends: "f E s c pkt = Inr (r, q, s') \<Longrightarrow> sends s s'"
begin

lemma send_on_touched:
  assumes "send_on f E s p pkt = Inr (q, s')" and "st_conns s p = Some c"
  shows "touched s p c s' c"
  using assms sends_touched only_sends unfolding send_on_def by (auto simp: get_conn_def elim!: rbindE)

lemma send_only_touched:
  assumes "send_only f E s p pkt = Inr s'" and "st_conns s p = Some c"
  shows "touched s p c s' c"
  using assms send_on_touched unfolding send_only_def by (auto elim!: rbindE)

end

interpretation ext2int: packet_sender proxy_ext2int
  by unfold_locales (rule proxy_sends(1))

interpretation int2ext: packet_sender proxy_int2ext
  by unfold_locales (rule proxy_sends(2))

interpretation hih2intra: packet_sender proxy_hih2intra
  by unfold_locales (rule proxy_sends(3))

interpretation intra2hih: packet_sender proxy_intra2hih
  by unfold_locales (rule proxy_sends(4))

interpretation ext2hih: packet_sender forward_ext2hih
  by unfold_locales (rule forward_sends(1))

interpretation hih2ext: packet_sender forward_hih2ext
  by unfold_locales (rule forward_sends(2))

lemma upd_conn_touched:
  assumes "upd_conn s p f = Inr s'" and "st_conns s p = Some c" and "same_identity c (f c)" and "cn_target (f c) = cn_target c"
  shows "touched s p c s' (f c)"
  using assms set_conn_touched by (auto simp: upd_conn_def get_conn_def)

lemma note_syn_touched:
  assumes "note_syn s p pkt = Inr s'" and "st_conns s p = Some c"
  shows "\<exists>c'. touched s p c s' c' \<and> cn_state c' = cn_state c"
proof -
  let ?f = "\<lambda>c. c\<lparr>cn_hih := (cn_hih c)\<lparr>hih_lih_syn_seq := ntohl (tcp_seq (pkt_FRAME pkt) (pkt_l4 pkt))\<rparr>\<rparr>"
  have "s' = s \<or> upd_conn s p ?f = Inr s'" using assms(1) unfolding note_syn_def by (auto elim!: rbindE split: if_split_asm)
  then show ?thesis
  proof
    assume "upd_conn s p ?f = Inr s'"
    from upd_conn_touched [OF this assms(2)] show ?thesis by (intro exI [of _ "?f c"]) (simp add: same_identity_def)
  qed (use remembers_touched [OF remembers_refl assms(2)] in auto)
qed

lemma store_pkt_same: "store_pkt s c pkt = (r, c', q) \<Longrightarrow> same_identity c c' \<and> cn_target c' = cn_target c \<and> cn_state c' = cn_state c"
  by (auto simp: store_pkt_def Let_def same_identity_def split: if_split_asm)

lemma keep_pkt_touched:
  assumes "keep_pkt s p pkt = Inr s'" and "st_conns s p = Some c"
  shows "\<exists>c'. touched s p c s' c' \<and> cn_state c' = cn_state c"
proof -
  have "s' = s \<or> (\<exists>r c' q. store_pkt s c pkt = (r, c', q) \<and> s' = set_conn p c' s)"
    using assms unfolding keep_pkt_def by (auto simp: get_conn_def elim!: rbindE split: if_split_asm prod.split_asm)
  then show ?thesis
  proof (elim disjE exE conjE)
    fix r c' q assume "store_pkt s c pkt = (r, c', q)" "s' = set_conn p c' s"
    then show ?thesis using store_pkt_same set_conn_touched [OF assms(2)] by blast
  qed (use remembers_touched [OF remembers_refl assms(2)] in auto)
qed

text \<open>Steps follow one another.\<close>

lemma good_then:
  assumes "good s p sts s1" and "\<And>c1. st_conns s1 p = Some c1 \<Longrightarrow> cn_state c1 \<in> sts \<Longrightarrow> \<exists>c2. touched s1 p c1 s2 c2 \<and> cn_state c2 = cn_state c1"
  shows "good s p sts s2"
proof -
  from assms(1) obtain c1 where c1: "conns_ok s1" "fresh_ok s1" "st_conns s1 = (st_conns s)(p \<mapsto> c1)" "cn_state c1 \<in> sts" "fit c1"
    by (auto simp: good_def)
  then obtain c2 where c2: "touched s1 p c1 s2 c2" "cn_state c2 = cn_state c1" using assms(2) [of c1] by auto
  then have "fit c2" using fit_same c1(5) by (auto simp: touched_def)
  with touched_ok [OF c2(1) c1(1,2)] touched_conn [OF c2(1)] c1(3,4) c2(2) show ?thesis
    unfolding good_def by (intro conjI exI [of _ c2]) auto
qed

context packet_sender
begin

lemma decide_and_send_good:
  assumes "decide_and_send f E s p pkt = Inr (q, s')" and "pkt_conn pkt = Some p" and "st_conns s p = Some c"
    and "conns_ok s" and "fresh_ok s" and "no_dns_rules s" and "fit c"
  shows "good s p (next_states (cn_state c)) s'"
proof -
  from assms(1) obtain r s1 where 1: "DE_process_packet E s pkt = Inr (r, s1)"
    and 2: "s' = s1 \<or> send_on f E s1 p pkt = Inr (q, s')"
    unfolding decide_and_send_def by (auto elim!: rbindE split: if_split_asm)
  note g = DE_process_packet_good [OF 1 assms(2-7)]
  from 2 show ?thesis
  proof
    assume "send_on f E s1 p pkt = Inr (q, s')"
    from send_on_touched [OF this] show ?thesis by (intro good_then [OF g]) blast
  qed (use g in simp)
qed

end

lemma good_weaken: "good s p sts s' \<Longrightarrow> sts \<subseteq> sts' \<Longrightarrow> good s p sts' s'"
  unfolding good_def by blast

lemma good_stay:
  assumes "touched s p c s' c'" and "cn_state c' = cn_state c" and "conns_ok s" and "fresh_ok s" and "fit c"
  shows "good s p UNIV s'"
  using good_touched [OF assms(1,3,4)] fit_same assms(1,2,5) by (auto simp: touched_def)

text \<open>A packet of each sender.  A packet of a HIH may meet a connection that the HIH itself just opened; it
  does not stay undecided.\<close>

lemma handle_lih_good:
  assumes "handle_lih E s p pkt = Inr s'" and "pkt_conn pkt = Some p" and c: "st_conns s p = Some c"
    and ok: "conns_ok s" "fresh_ok s" "no_dns_rules s" "fit c"
  shows "good s p UNIV s'"
proof -
  have stay: "good s p UNIV s'" if "touched s p c s' c" using good_stay [OF that refl ok(1,2,4)] .
  consider (send) s1 s2 q where "note_syn s p pkt = Inr s1" "send_on proxy_int2ext E s1 p pkt = Inr (q, s2)" "keep_pkt s2 p q = Inr s'"
    | (proxy) "send_only proxy_int2ext E s p pkt = Inr s'"
    | (control) s1 s2 q where "note_syn s p pkt = Inr s1" "decide_and_send proxy_int2ext E s1 p pkt = Inr (q, s2)" "keep_pkt s2 p q = Inr s'"
    | (other) "sends s s'"
    using assms(1) c reply_reset_sends unfolding handle_lih_def
    by (auto simp: get_conn_def elim!: rbindE split: if_split_asm)
  then show ?thesis
  proof cases
    case send
    obtain c1 where 1: "touched s p c s1 c1" "cn_state c1 = cn_state c" using note_syn_touched [OF send(1) c] by blast
    have 2: "touched s1 p c1 s2 c1" using int2ext.send_on_touched [OF send(2)] touched_conn [OF 1(1)] by simp
    obtain c3 where 3: "touched s2 p c1 s' c3" "cn_state c3 = cn_state c1"
      using keep_pkt_touched [OF send(3), of c1] touched_conn [OF 2] by auto
    from touched_trans [OF touched_trans [OF 1(1) 2] 3(1)] show ?thesis
      by (rule good_stay) (use 1 3 ok in simp_all)
  next
    case control
    obtain c1 where 1: "touched s p c s1 c1" "cn_state c1 = cn_state c" using note_syn_touched [OF control(1) c] by blast
    have c1: "st_conns s1 p = Some c1" "fit c1" using touched_conn [OF 1(1)] fit_same 1 ok(4) by (auto simp: touched_def)
    have "good s1 p (next_states (cn_state c1)) s2"
      by (rule int2ext.decide_and_send_good [OF control(2) assms(2) c1(1)])
        (use touched_ok [OF 1(1) ok(1,2)] no_dns_config [OF touched_config [OF 1(1)]] ok(3) c1(2) in simp_all)
    then have "good s1 p UNIV s2" by (rule good_weaken) simp
    then have "good s1 p UNIV s'" by (rule good_then) (erule keep_pkt_touched [OF control(3)])
    with good_trans [OF 1(1)] show ?thesis .
  next
    case proxy
    show ?thesis by (rule stay, rule int2ext.send_only_touched [OF proxy c])
  next
    case other
    show ?thesis by (rule stay, rule sends_touched [OF other c])
  qed
qed

lemma handle_ext_good:
  assumes "handle_ext E s p pkt = Inr s'" and "pkt_conn pkt = Some p" and c: "st_conns s p = Some c"
    and ok: "conns_ok s" "fresh_ok s" "no_dns_rules s" "fit c"
  shows "good s p UNIV s'"
proof -
  have stay: "good s p UNIV s'" if "touched s p c s' c" using good_stay [OF that refl ok(1,2,4)] .
  consider (decide) s2 q where "decide_and_send proxy_ext2int E s p pkt = Inr (q, s2)" "keep_pkt s2 p q = Inr s'"
    | (fwd) "send_only forward_ext2hih E s p pkt = Inr s'" | (proxy) "send_only proxy_ext2int E s p pkt = Inr s'" | (other) "s' = s"
    using assms(1) c unfolding handle_ext_def by (cases "cn_state c") (simp_all add: get_conn_def, (elim rbindE, force)+)
  then show ?thesis
  proof cases
    case decide
    have "good s p (next_states (cn_state c)) s2" by (rule ext2int.decide_and_send_good [OF decide(1) assms(2) c]) (use ok in simp_all)
    then have "good s p UNIV s2" by (rule good_weaken) simp
    then show ?thesis by (rule good_then) (erule keep_pkt_touched [OF decide(2)])
  next
    case fwd
    show ?thesis by (rule stay, rule ext2hih.send_only_touched [OF fwd c])
  next
    case proxy
    show ?thesis by (rule stay, rule ext2int.send_only_touched [OF proxy c])
  next
    case other
    show ?thesis unfolding other by (rule good_stay [OF remembers_touched [OF remembers_refl c] refl ok(1,2,4)])
  qed
qed

lemma handle_intra_good:
  assumes "handle_intra E s p pkt = Inr s'" and c: "st_conns s p = Some c" and ok: "conns_ok s" "fresh_ok s" "fit c"
  shows "good s p UNIV s'"
proof -
  have "touched s p c s' c"
    using assms(1) c intra2hih.send_only_touched [OF _ c] remembers_touched [OF remembers_refl c] unfolding handle_intra_def
    by (auto simp: get_conn_def split: if_split_asm)
  then show ?thesis by (rule good_stay) (use ok in simp_all)
qed

lemma refuse_good:
  assumes "refuse E s c0 pkt = Inr s'" and c: "st_conns s p = Some c" and ok: "conns_ok s" "fresh_ok s" "fit c"
  shows "good s p UNIV s'"
proof -
  have "sends s s'" using assms(1) reply_reset_sends unfolding refuse_def by (auto elim!: rbindE split: if_split_asm)
  then have "touched s p c s' c" by (rule sends_touched [OF _ c])
  then show ?thesis by (rule good_stay) (use ok in simp_all)
qed

lemma fit_settled: "\<not> undecided c \<Longrightarrow> fit c"
  by (simp add: fit_def)

lemma control_hih_good:
  assumes "control_hih E s p pkt = Inr s'" and "pkt_conn pkt = Some p" and c: "st_conns s p = Some c"
    and ok: "conns_ok s" "fresh_ok s" "no_dns_rules s"
  shows "good s p UNIV s'"
proof -
  from assms(1) obtain s1 r s2 where 1: "upd_conn s p (\<lambda>c. switch_state c CONTROL) = Inr s1"
    and 2: "DE_process_packet E s1 pkt = Inr (r, s2)"
    and 3: "s' = s2 \<or> send_only proxy_int2ext E s2 p pkt = Inr s' \<or> send_only proxy_hih2intra E s2 p pkt = Inr s'"
    unfolding control_hih_def by (auto elim!: rbindE split: if_split_asm)
  have t: "touched s p c s1 (switch_state c CONTROL)"
    using upd_conn_touched [OF 1 c] by (simp add: same_identity_def switch_state_def)
  have "good s1 p (next_states (cn_state (switch_state c CONTROL))) s2"
    by (rule DE_process_packet_good [OF 2 assms(2)])
      (use touched_conn [OF t] touched_ok [OF t ok(1,2)] no_dns_config [OF touched_config [OF t]] ok(3) in
        \<open>simp_all add: fit_settled undecided_def\<close>)
  then have g: "good s p UNIV s2" using good_trans [OF t] good_weaken by blast
  show ?thesis
  proof (cases "s' = s2")
    case False
    with 3 int2ext.send_only_touched hih2intra.send_only_touched
    show ?thesis by (intro good_then [OF g]) blast
  qed (use g in simp)
qed

lemma deny_hih_good:
  assumes "deny_hih E s p c0 pkt = Inr s'" and c: "st_conns s p = Some c" and ok: "conns_ok s" "fresh_ok s"
  shows "good s p UNIV s'"
proof -
  from assms(1) obtain s1 where a: "(if pkt_proto pkt = IPPROTO_TCP
      then rbind (get_handler s (hih_back_handler (cn_hih c0))) (\<lambda>h. reply_reset E s pkt (hd_iface h)) else Inr s) = Inr s1"
    and 2: "upd_conn s1 p (\<lambda>c. switch_state c DROP) = Inr s'"
    unfolding deny_hih_def by (rule rbindE)
  have 1: "sends s s1" using a reply_reset_sends by (auto elim!: rbindE split: if_split_asm)
  have t: "touched s p c s1 c" by (rule sends_touched [OF 1 c])
  have "touched s1 p c s' (switch_state c DROP)"
    using upd_conn_touched [OF 2] touched_conn [OF t] by (simp add: same_identity_def switch_state_def)
  from good_touched [OF touched_trans [OF t this] ok] show ?thesis by (simp add: fit_settled undecided_def)
qed

lemma note_delta_same:
  "note_delta c pkt = Inr c' \<Longrightarrow> same_identity c c' \<and> cn_state c' = cn_state c \<and> cn_target c' = cn_target c"
  unfolding note_delta_def by (auto simp: same_identity_def elim!: rbindE split: if_split_asm)

lemma handle_hih_replay_good:
  assumes "note_delta c pkt = Inr c1" and "replay E s c1 pkt = Inr (r, c2, s1)" and c: "st_conns s p = Some c"
    and ok: "conns_ok s" "fresh_ok s" and "cn_state c = REPLAY"
  shows "good s p UNIV (set_conn p c2 s1)"
proof -
  from note_delta_same [OF assms(1)] replay_sends [OF assms(2)] have i: "same_identity c c2" "sends s s1"
    and st: "cn_state c2 = REPLAY \<or> cn_state c2 = FORWARD"
    using assms(6) same_identity_trans by auto
  have t: "touched s p c s1 c" by (rule sends_touched [OF i(2) c])
  have o: "conns_ok s1" "fresh_ok s1" "st_conns s1 p = Some c" using touched_ok [OF t ok] touched_conn [OF t] by auto
  from conns_ok_set_same [OF this i(1)] touched_conn [OF t] st show ?thesis
    unfolding good_def by (intro conjI exI [of _ c2]) (auto simp: set_conn_def fit_def undecided_def)
qed

lemma handle_hih_good:
  assumes "handle_hih E s p pkt = Inr s'" and "pkt_conn pkt = Some p" and c: "st_conns s p = Some c"
    and ok: "conns_ok s" "fresh_ok s" "no_dns_rules s"
  shows "good s p UNIV s'"
proof -
  have stay: "good s p UNIV s'" if "\<not> undecided c" "touched s p c s' c"
    using good_stay [OF that(2) refl ok(1,2) fit_settled [OF that(1)]] .
  consider (replay) c1 r c2 s1 where "cn_state c = REPLAY" "note_delta c pkt = Inr c1" "replay E s c1 pkt = Inr (r, c2, s1)"
        "s' = set_conn p c2 s1"
    | (settled) "\<not> undecided c" "touched s p c s' c"
    | (control) q where "cn_state c = CONTROL" "decide_and_send proxy_int2ext E s p pkt = Inr (q, s')"
    | (deny) "deny_hih E s p c pkt = Inr s'"
    | (init) "control_hih E s p pkt = Inr s'"
    using assms(1) c remembers_touched [OF remembers_refl c] unfolding handle_hih_def undecided_def
    by (auto simp: get_conn_def elim!: rbindE split: conn_status_t.split_asm if_split_asm
        dest: int2ext.send_only_touched [OF _ c] hih2intra.send_only_touched [OF _ c] hih2ext.send_only_touched [OF _ c])
  then show ?thesis
  proof cases
    case replay
    show ?thesis unfolding replay(4) by (rule handle_hih_replay_good [OF replay(2,3) c ok(1,2) replay(1)])
  next
    case settled
    then show ?thesis by (rule stay)
  next
    case control
    have "good s p (next_states (cn_state c)) s'"
      by (rule int2ext.decide_and_send_good [OF control(2) assms(2) c]) (use ok control(1) in \<open>simp_all add: fit_settled undecided_def\<close>)
    then show ?thesis by (rule good_weaken) simp
  next
    case deny
    show ?thesis by (rule deny_hih_good [OF deny c ok(1,2)])
  next
    case init
    show ?thesis by (rule control_hih_good [OF init assms(2) c ok])
  qed
qed

lemma handle_packet_good:
  assumes "handle_packet E s p pkt = Inr s'" and "pkt_conn pkt = Some p" and c: "st_conns s p = Some c"
    and ok: "conns_ok s" "fresh_ok s" "no_dns_rules s" and fit: "pkt_origin pkt \<noteq> HIH \<longrightarrow> fit c"
  shows "good s p UNIV s'"
proof (cases "cn_state c < INIT \<and> pkt_origin pkt = EXT \<or> cn_state c = DROP")
  case True
  then have "refuse E s c pkt = Inr s'" using assms(1) c unfolding handle_packet_def by (simp add: get_conn_def)
  moreover have "fit c" using True fit by (auto simp: fit_def undecided_def)
  ultimately show ?thesis using refuse_good [OF _ c ok(1,2)] by simp
next
  case False
  then have "(case pkt_origin pkt of LIH \<Rightarrow> handle_lih E s p pkt | HIH \<Rightarrow> handle_hih E s p pkt
      | INTRA \<Rightarrow> handle_intra E s p pkt | _ \<Rightarrow> handle_ext E s p pkt) = Inr s'"
    using assms(1) c unfolding handle_packet_def by (auto simp: get_conn_def split: if_split_asm)
  then show ?thesis
    using handle_lih_good [OF _ assms(2) c ok] handle_hih_good [OF _ assms(2) c ok] handle_intra_good [OF _ c ok(1,2)]
      handle_ext_good [OF _ assms(2) c ok] fit
    by (cases "pkt_origin pkt") simp_all
qed

end
