(* ===== verification/Config_Lexer.thy ===== *)
theory Config_Lexer
  imports Modules
begin

text \<open>
  The words of a configuration file (\<open>config_syntax.l\<close>).  The scanner that flex generates takes, at every place of
  the text, the rule that matches most of it, and of those that match equally much the first one; a character no
  rule matches is copied to the output and left out.  A rule is given by how much of a text it matches (0: not at
  all) and by the token its action returns (none for blanks and comments).
\<close>

section \<open>Tokens\<close>

datatype token =
    OPEN | END | SEMICOLON | QUOTE
  | MODULE | FILTER | FRONTEND | BACKEND | BACKPICK | INTERNET | CONFIGURATION | TARGET | LINK | HW | VLAN | DEFAULT | SRC
  | ROUTE | VIA | NETMASK | INTERNAL | WITH | EXCLUSIVE | INTRALAN
  | NUMBER int | WORD string | EQ | EXPR string

definition reserved :: "(string \<times> token) list" where
  "reserved =
     [(''config'', CONFIGURATION), (''target'', TARGET), (''module'', MODULE), (''frontend'', FRONTEND), (''backend'', BACKEND),
      (''internet'', INTERNET), (''backpick'', BACKPICK), (''link'', LINK), (''filter'', FILTER), (''hw'', HW), (''vlan'', VLAN),
      (''default'', DEFAULT), (''route'', ROUTE), (''via'', VIA), (''netmask'', NETMASK), (''internal'', INTERNAL), (''with'', WITH),
      (''exclusive'', EXCLUSIVE), (''intralan'', INTRALAN), (''src'', SRC)]"

definition delimiters :: "(string \<times> token) list" where
  "delimiters = [(''{'', OPEN), (''}'', END), ('';'', SEMICOLON), ([CHR 0x22], QUOTE), (''='', EQ)]"

section \<open>Rules\<close>

definition is_letter :: "char \<Rightarrow> bool" where
  "is_letter c \<longleftrightarrow> (let n = of_char c :: nat in 65 \<le> n \<and> n \<le> 90 \<or> 97 \<le> n \<and> n \<le> 122)"

definition is_word :: "char \<Rightarrow> bool" where
  "is_word c \<longleftrightarrow> is_letter c \<or> is_digit c \<or> c \<in> set ''_-''"

definition is_expr :: "char \<Rightarrow> bool" where
  "is_expr c \<longleftrightarrow> is_letter c \<or> is_digit c \<or> c \<in> set ''()<>|&^!/._:-''"

definition is_blank :: "char \<Rightarrow> bool" where
  "is_blank c \<longleftrightarrow> c = CHR '' '' \<or> c = CHR 0x09"

type_synonym rule = "(string \<Rightarrow> nat) \<times> (string \<Rightarrow> token option)"

fun starts :: "string \<Rightarrow> string \<Rightarrow> bool" where
  "starts [] _ = True"
| "starts (_ # _) [] = False"
| "starts (x # xs) (y # ys) = (x = y \<and> starts xs ys)"

definition literal :: "string \<Rightarrow> token option \<Rightarrow> rule" where
  "literal w t = (\<lambda>s. if starts w s then length w else 0, \<lambda>_. t)"

definition many :: "(char \<Rightarrow> bool) \<Rightarrow> (string \<Rightarrow> token option) \<Rightarrow> rule" where
  "many P f = (\<lambda>s. length (takeWhile P s), f)"

definition comment :: "string \<Rightarrow> rule" where
  "comment w = (\<lambda>s. if starts w s then length w + length (takeWhile (\<lambda>c. c \<noteq> CHR 0x0A) (drop (length w) s)) else 0, \<lambda>_. None)"

definition lex_rules :: "rule list" where
  "lex_rules =
     map (\<lambda>(w, t). literal w (Some t)) reserved @ map (\<lambda>(w, t). literal w (Some t)) delimiters @
     [many is_digit (\<lambda>t. Some (NUMBER (atoi t))), many is_word (\<lambda>t. Some (WORD t)), many is_expr (\<lambda>t. Some (EXPR t)),
      comment ''//'', comment ''#'', literal [CHR 0x0A] None, many is_blank (\<lambda>_. None)]"

text \<open>The longest match, the first of several: how much is taken and what it is.\<close>

fun longest :: "rule list \<Rightarrow> string \<Rightarrow> nat \<times> (string \<Rightarrow> token option)" where
  "longest [] s = (0, \<lambda>_. None)"
| "longest ((m, f) # rs) s = (let (n, g) = longest rs s in if n \<le> m s \<and> 0 < m s then (m s, f) else (n, g))"

function yylex :: "string \<Rightarrow> token list" where
  "yylex s =
     (if s = [] then []
      else
        let (n, f) = longest lex_rules s in
        if n = 0 then yylex (tl s)
        else (case f (take n s) of None \<Rightarrow> yylex (drop n s) | Some t \<Rightarrow> t # yylex (drop n s)))"
  by pat_completeness auto
termination
  by (relation "measure length") (auto simp: neq_Nil_conv)

declare yylex.simps [simp del]

section \<open>Texts are read back\<close>

text \<open>The text of a token, and when a token is one the scanner returns.\<close>

definition token_text :: "token \<Rightarrow> string" where
  "token_text t =
     (case t of
        NUMBER n \<Rightarrow> dec_nat (nat n) | WORD w \<Rightarrow> w | EXPR e \<Rightarrow> e
      | _ \<Rightarrow> the (map_of (map (\<lambda>(w, t). (t, w)) (reserved @ delimiters)) t))"

definition token_ok :: "token \<Rightarrow> bool" where
  "token_ok t =
     (case t of
        NUMBER n \<Rightarrow> 0 \<le> n \<and> n < 2 ^ 31
      | WORD w \<Rightarrow> list_all is_word w \<and> \<not> list_all is_digit w \<and> w \<notin> set (map fst reserved)
      | EXPR e \<Rightarrow> list_all is_expr e \<and> \<not> list_all is_word e \<and> \<not> starts ''//'' e
      | _ \<Rightarrow> True)"

lemma starts_append: "CHR '' '' \<notin> set w \<Longrightarrow> starts w (x @ CHR '' '' # r) \<Longrightarrow> starts w x"
  by (induction w x rule: starts.induct) auto

lemma starts_length: "starts w x \<Longrightarrow> length w \<le> length x \<and> (length w = length x \<longrightarrow> w = x)"
  by (induction w x rule: starts.induct) auto

lemma starts_first: "starts w x \<Longrightarrow> w \<noteq> [] \<Longrightarrow> x \<noteq> [] \<and> hd x = hd w"
  by (cases w; cases x) auto

lemma longest_first:
  assumes "m s = n" and "0 < n" and "\<forall>r \<in> set pre. fst r s < n" and "\<forall>r \<in> set post. fst r s \<le> n"
  shows "longest (pre @ (m, f) # post) s = (n, f)"
proof -
  have "fst (longest post s) \<le> n"
    using assms(4) by (induction post) (auto simp: Let_def split: prod.splits)
  with assms(3) show ?thesis
    by (induction pre) (use assms(1,2) in \<open>auto simp: Let_def split: prod.splits\<close>)
qed

lemma takeWhile_stop: "list_all P x \<Longrightarrow> \<not> P c \<Longrightarrow> takeWhile P (x @ c # r) = x"
  by (induction x) auto

lemma takeWhile_short: "\<not> list_all P x \<Longrightarrow> length (takeWhile P (x @ r)) < length x"
  by (induction x) auto

lemma char_classes: "is_digit c \<Longrightarrow> is_word c" "is_word c \<Longrightarrow> is_expr c"
  by (auto simp: is_word_def is_expr_def)

lemma class_classes: "list_all is_digit x \<Longrightarrow> list_all is_word x" "list_all is_word x \<Longrightarrow> list_all is_expr x"
  by (auto simp: list_all_iff char_classes)

lemma expr_other: "is_expr c \<Longrightarrow> c \<notin> {CHR ''{'', CHR ''}'', CHR '';'', CHR 0x22, CHR ''='', CHR ''#'', CHR 0x0A} \<and> \<not> is_blank c"
  by (auto simp: is_expr_def is_letter_def is_digit_def is_blank_def)

lemma blank_other [simp]: "\<not> is_digit CHR '' ''" "\<not> is_word CHR '' ''" "\<not> is_expr CHR '' ''"
  by (simp_all add: is_word_def is_expr_def is_letter_def is_digit_def)

lemma reserved_word: "w \<in> set (map fst reserved) \<Longrightarrow> list_all is_word w \<and> w \<noteq> [] \<and> \<not> is_digit (hd w) \<and> CHR '' '' \<notin> set w"
  by (auto simp: reserved_def is_word_def is_letter_def is_digit_def)

text \<open>How much the rules match of a text that starts with a run of expression characters and a blank.\<close>

lemma reserved_short:
  assumes "w \<in> set (map fst reserved)" and "list_all is_expr x" and "w \<noteq> x"
  shows "fst (literal w t) (x @ CHR '' '' # r) < length x \<or> x = []"
  using reserved_word [OF assms(1)] assms(3) starts_append [of w x r] starts_length [of w x]
  by (auto simp: literal_def intro: le_neq_implies_less)

lemma delimiter_none:
  assumes "w \<in> set (map fst delimiters)" and "list_all is_expr x" and "x \<noteq> []"
  shows "fst (literal w t) (x @ r) = 0"
  using assms expr_other [of "hd x"] by (cases x) (auto simp: delimiters_def literal_def)

lemma others_none:
  assumes "list_all is_expr x" and "x \<noteq> []" and "\<not> starts ''//'' x"
  shows "fst (comment ''//'') (x @ CHR '' '' # r) = 0" "fst (comment ''#'') (x @ CHR '' '' # r) = 0"
    "fst (literal [CHR 0x0A] None) (x @ CHR '' '' # r) = 0" "fst (many is_blank f) (x @ CHR '' '' # r) = 0"
proof -
  have "\<not> starts ''//'' (x @ CHR '' '' # r)" using assms(3) starts_append [of "''//''" x r] by auto
  then show "fst (comment ''//'') (x @ CHR '' '' # r) = 0" by (simp add: comment_def)
  obtain c y where x: "x = c # y" using assms(2) by (cases x) auto
  then have "c \<noteq> CHR ''#''" "c \<noteq> CHR 0x0A" "\<not> is_blank c" using assms(1) expr_other [of c] by auto
  then show "fst (comment ''#'') (x @ CHR '' '' # r) = 0" "fst (literal [CHR 0x0A] None) (x @ CHR '' '' # r) = 0"
    "fst (many is_blank f) (x @ CHR '' '' # r) = 0" by (simp_all add: x comment_def literal_def many_def)
qed

definition fixed :: "rule list" where
  "fixed = map (\<lambda>(w, t). literal w (Some t)) (reserved @ delimiters)"

lemma lex_rules_fixed:
  "lex_rules = fixed @
     [many is_digit (\<lambda>t. Some (NUMBER (atoi t))), many is_word (\<lambda>t. Some (WORD t)), many is_expr (\<lambda>t. Some (EXPR t)),
      comment ''//'', comment ''#'', literal [CHR 0x0A] None, many is_blank (\<lambda>_. None)]"
  by (simp add: lex_rules_def fixed_def)

lemma fixed_short:
  assumes "list_all is_expr x" and "x \<noteq> []" and "x \<notin> set (map fst reserved)"
  shows "\<forall>r \<in> set fixed. fst r (x @ CHR '' '' # s) < length x"
proof
  fix r assume "r \<in> set fixed"
  then obtain w t where r: "r = literal w (Some t)" and w: "w \<in> set (map fst reserved) \<or> w \<in> set (map fst delimiters)"
    unfolding fixed_def by force
  from w show "fst r (x @ CHR '' '' # s) < length x"
  proof
    assume "w \<in> set (map fst reserved)"
    moreover from this assms(3) have "w \<noteq> x" by auto
    ultimately show ?thesis using reserved_short [OF _ assms(1)] assms(2) r by blast
  next
    assume "w \<in> set (map fst delimiters)"
    then show ?thesis using delimiter_none [OF _ assms(1,2)] assms(2) r by simp
  qed
qed

lemma many_stop: "list_all P x \<Longrightarrow> \<not> P CHR '' '' \<Longrightarrow> fst (many P f) (x @ CHR '' '' # r) = length x"
  by (simp add: many_def takeWhile_stop)

lemma many_short: "\<not> list_all P x \<Longrightarrow> fst (many P f) (x @ r) < length x"
  by (simp add: many_def takeWhile_short)

lemma longest_number:
  assumes "list_all is_digit x" and "x \<noteq> []"
  shows "longest lex_rules (x @ CHR '' '' # r) = (length x, \<lambda>t. Some (NUMBER (atoi t)))"
proof -
  have e: "list_all is_word x" "list_all is_expr x" using assms(1) class_classes by auto
  have d: "is_digit (hd x)" using assms by (cases x) auto
  then have n: "x \<notin> set (map fst reserved)" using reserved_word by blast
  have c: "\<not> starts ''//'' x" using d starts_first [of "''//''" x] by (auto simp: is_digit_def)
  show ?thesis
    unfolding lex_rules_fixed many_def [of is_digit]
    using fixed_short [OF e(2) assms(2) n] assms(2)
    by (intro longest_first) (simp_all add: takeWhile_stop assms(1) many_stop e others_none [OF e(2) assms(2) c])
qed

lemma longest_word:
  assumes "list_all is_word x" and "\<not> list_all is_digit x" and "x \<notin> set (map fst reserved)"
  shows "longest lex_rules (x @ CHR '' '' # r) = (length x, \<lambda>t. Some (WORD t))"
proof -
  have e: "list_all is_expr x" "x \<noteq> []" using assms(1,2) class_classes by auto
  have "is_word (hd x)" using assms(1) e(2) by (cases x) auto
  then have c: "\<not> starts ''//'' x" using starts_first [of "''//''" x] by (auto simp: is_word_def is_letter_def is_digit_def)
  have "longest ((fixed @ [many is_digit (\<lambda>t. Some (NUMBER (atoi t)))]) @ many is_word (\<lambda>t. Some (WORD t)) #
      [many is_expr (\<lambda>t. Some (EXPR t)), comment ''//'', comment ''#'', literal [CHR 0x0A] None, many is_blank (\<lambda>_. None)])
      (x @ CHR '' '' # r) = (length x, \<lambda>t. Some (WORD t))"
    unfolding many_def [of is_word]
    using fixed_short [OF e assms(3)] e(2)
    by (intro longest_first) (simp_all add: takeWhile_stop assms(1) many_stop many_short [OF assms(2)] e others_none [OF e c] ball_Un)
  then show ?thesis by (simp add: lex_rules_fixed)
qed

lemma longest_expr:
  assumes "list_all is_expr x" and "\<not> list_all is_word x" and "\<not> starts ''//'' x"
  shows "longest lex_rules (x @ CHR '' '' # r) = (length x, \<lambda>t. Some (EXPR t))"
proof -
  have e: "x \<noteq> []" "\<not> list_all is_digit x" using assms(2) class_classes by auto
  have n: "x \<notin> set (map fst reserved)" using reserved_word assms(2) by blast
  have "longest ((fixed @ [many is_digit (\<lambda>t. Some (NUMBER (atoi t))), many is_word (\<lambda>t. Some (WORD t))]) @ many is_expr (\<lambda>t. Some (EXPR t)) #
      [comment ''//'', comment ''#'', literal [CHR 0x0A] None, many is_blank (\<lambda>_. None)])
      (x @ CHR '' '' # r) = (length x, \<lambda>t. Some (EXPR t))"
    unfolding many_def [of is_expr]
    using fixed_short [OF assms(1) e(1) n] e(1)
    by (intro longest_first)
      (simp_all add: takeWhile_stop assms(1) many_short [OF assms(2)] many_short [OF e(2)] others_none [OF assms(1) e(1) assms(3)] ball_Un)
  then show ?thesis by (simp add: lex_rules_fixed)
qed

lemma literal_le:
  assumes "(w', t') \<in> set (reserved @ delimiters)" and "list_all is_expr x" and "x \<noteq> []"
  shows "fst (literal w' (Some t')) (x @ CHR '' '' # r) \<le> length x" "w' \<noteq> x \<Longrightarrow> fst (literal w' (Some t')) (x @ CHR '' '' # r) < length x"
proof -
  have w': "w' \<in> set (map fst reserved) \<or> w' \<in> set (map fst delimiters)" using assms(1) by force
  show 2: "fst (literal w' (Some t')) (x @ CHR '' '' # r) < length x" if "w' \<noteq> x"
    using w'
  proof
    assume "w' \<in> set (map fst reserved)"
    then show ?thesis using reserved_short [OF _ assms(2) that] assms(3) by blast
  next
    assume "w' \<in> set (map fst delimiters)"
    then show ?thesis using delimiter_none [OF _ assms(2,3)] assms(3) by simp
  qed
  show "fst (literal w' (Some t')) (x @ CHR '' '' # r) \<le> length x"
    using 2 by (cases "w' = x") (auto simp: literal_def)
qed

lemma longest_reserved:
  assumes "(w, t) \<in> set reserved"
  shows "longest lex_rules (w @ CHR '' '' # r) = (length w, \<lambda>_. Some t)"
proof -
  have w: "list_all is_word w" "w \<noteq> []" "\<not> is_digit (hd w)" using assms reserved_word [of w] by force+
  then have e: "list_all is_expr w" "\<not> list_all is_digit w" using class_classes by (auto, cases w, auto)
  have c: "\<not> starts ''//'' w" using starts_first [of "''//''" w] w(1,2) by (cases w) (auto simp: is_word_def is_letter_def is_digit_def)
  obtain pre post where p: "reserved @ delimiters = pre @ (w, t) # post" using split_list [of "(w, t)" "reserved @ delimiters"] assms by auto
  have "distinct (map fst (reserved @ delimiters))" by (simp add: reserved_def delimiters_def)
  then have n: "w \<notin> set (map fst pre)" by (simp add: p)
  have 1: "\<forall>q \<in> set (map (\<lambda>(w, t). literal w (Some t)) pre). fst q (w @ CHR '' '' # r) < length w"
  proof
    fix q assume "q \<in> set (map (\<lambda>(w, t). literal w (Some t)) pre)"
    then obtain w' t' where q: "q = literal w' (Some t')" "(w', t') \<in> set pre" by auto
    then have "(w', t') \<in> set (reserved @ delimiters)" "w' \<noteq> w" using p n by force+
    then show "fst q (w @ CHR '' '' # r) < length w" using literal_le(2) [OF _ e(1) w(2)] q by simp
  qed
  have 2: "\<forall>q \<in> set (map (\<lambda>(w, t). literal w (Some t)) post). fst q (w @ CHR '' '' # r) \<le> length w"
  proof
    fix q assume "q \<in> set (map (\<lambda>(w, t). literal w (Some t)) post)"
    then obtain w' t' where q: "q = literal w' (Some t')" "(w', t') \<in> set post" by auto
    then have "(w', t') \<in> set (reserved @ delimiters)" using p by simp
    then show "fst q (w @ CHR '' '' # r) \<le> length w" using literal_le(1) [OF _ e(1) w(2)] q by simp
  qed
  have 3: "starts w (w @ CHR '' '' # r)" by (induction w) auto
  have "longest (map (\<lambda>(w, t). literal w (Some t)) pre @ literal w (Some t) # (map (\<lambda>(w, t). literal w (Some t)) post @
      [many is_digit (\<lambda>t. Some (NUMBER (atoi t))), many is_word (\<lambda>t. Some (WORD t)), many is_expr (\<lambda>t. Some (EXPR t)),
       comment ''//'', comment ''#'', literal [CHR 0x0A] None, many is_blank (\<lambda>_. None)])) (w @ CHR '' '' # r) = (length w, \<lambda>_. Some t)"
    unfolding literal_def [of w "Some t"]
    using 1 2 w(2) less_imp_le [OF many_short [OF e(2)]]
    by (intro longest_first) (simp_all add: 3 many_stop w(1) e(1) others_none [OF e(1) w(2) c] ball_Un)
  then show ?thesis unfolding lex_rules_fixed fixed_def p by simp
qed

lemma longest_delimiter:
  assumes "(w, t) \<in> set delimiters"
  shows "longest lex_rules (w @ CHR '' '' # r) = (length w, \<lambda>_. Some t)"
proof -
  have "longest lex_rules (CHR ''{'' # CHR '' '' # r) = (1, \<lambda>_. Some OPEN)" "longest lex_rules (CHR ''}'' # CHR '' '' # r) = (1, \<lambda>_. Some END)"
    "longest lex_rules (CHR '';'' # CHR '' '' # r) = (1, \<lambda>_. Some SEMICOLON)" "longest lex_rules (CHR 0x22 # CHR '' '' # r) = (1, \<lambda>_. Some QUOTE)"
    "longest lex_rules (CHR ''='' # CHR '' '' # r) = (1, \<lambda>_. Some EQ)"
    by (simp_all add: lex_rules_def reserved_def delimiters_def literal_def many_def comment_def is_blank_def is_word_def is_expr_def
        is_letter_def is_digit_def)
  with assms show ?thesis by (auto simp: delimiters_def)
qed

lemma lex_token:
  assumes "longest lex_rules (x @ CHR '' '' # r) = (length x, f)" and "f x = Some t" and "x \<noteq> []"
  shows "yylex (x @ CHR '' '' # r) = t # yylex (CHR '' '' # r)"
  using assms by (subst yylex.simps) simp

lemma longest_blank: "is_blank c \<Longrightarrow> longest lex_rules (c # r) = (Suc (length (takeWhile is_blank r)), \<lambda>_. None)"
proof -
  have "longest lex_rules (CHR '' '' # r) = (Suc (length (takeWhile is_blank r)), \<lambda>_. None)"
    "longest lex_rules (CHR 0x09 # r) = (Suc (length (takeWhile is_blank r)), \<lambda>_. None)"
    by (simp_all add: lex_rules_def reserved_def delimiters_def literal_def many_def comment_def is_blank_def is_word_def is_expr_def
      is_letter_def is_digit_def)
  moreover assume "is_blank c"
  ultimately show ?thesis by (auto simp: is_blank_def)
qed

lemma lex_blanks: "is_blank c \<Longrightarrow> yylex (c # r) = yylex (dropWhile is_blank r)"
  by (subst yylex.simps) (simp add: longest_blank dropWhile_eq_drop)

lemma lex_blank: "yylex (CHR '' '' # r) = yylex r"
proof (cases r)
  case (Cons c r')
  then show ?thesis using lex_blanks [of "CHR '' ''" r] lex_blanks [of c r'] by (cases "is_blank c") (auto simp: is_blank_def)
qed (simp add: lex_blanks is_blank_def)

lemma token_text_fixed:
  "(\<exists>n. t = NUMBER n) \<or> (\<exists>w. t = WORD w) \<or> (\<exists>e. t = EXPR e) \<or> (token_text t, t) \<in> set (reserved @ delimiters)"
  by (cases t) (simp_all add: token_text_def reserved_def delimiters_def)

lemma lex_one:
  assumes "token_ok t"
  shows "yylex (token_text t @ CHR '' '' # r) = t # yylex r"
proof -
  have fixed: "yylex (w @ CHR '' '' # r) = t # yylex r" if "(w, t) \<in> set (reserved @ delimiters)" for w
  proof -
    have "longest lex_rules (w @ CHR '' '' # r) = (length w, \<lambda>_. Some t)" using that longest_reserved longest_delimiter by auto
    moreover have "w \<noteq> []" using that by (auto simp: reserved_def delimiters_def)
    ultimately show ?thesis using lex_token lex_blank by simp
  qed
  consider (NUMBER) n where "t = NUMBER n" | (WORD) w where "t = WORD w" | (EXPR) e where "t = EXPR e"
    | (fixed) "(token_text t, t) \<in> set (reserved @ delimiters)"
    using token_text_fixed by blast
  then show ?thesis
  proof cases
    case (NUMBER n)
    then have n: "0 \<le> n" "n < 2 ^ 31" using assms by (simp_all add: token_ok_def)
    have d: "list_all is_digit (dec_nat (nat n))" "dec_nat (nat n) \<noteq> []"
      using dec_nat_digits [of "nat n"] dec_nat_Cons [of "nat n"] by (auto simp: list_all_iff)
    have "atoi (dec_nat (nat n)) = n" using n atoi_dec_int [of n] by (simp add: dec_int_def int_ok_def)
    with lex_token [OF longest_number [OF d]] d(2) show ?thesis by (simp add: NUMBER token_text_def lex_blank)
  next
    case (WORD w)
    then have w: "list_all is_word w" "\<not> list_all is_digit w" "w \<notin> set (map fst reserved)" using assms by (simp_all add: token_ok_def)
    then have "w \<noteq> []" by auto
    with lex_token [OF longest_word [OF w]] show ?thesis by (simp add: WORD token_text_def lex_blank)
  next
    case (EXPR e)
    then have e: "list_all is_expr e" "\<not> list_all is_word e" "\<not> starts ''//'' e" using assms by (simp_all add: token_ok_def)
    then have "e \<noteq> []" by auto
    with lex_token [OF longest_expr [OF e]] show ?thesis by (simp add: EXPR token_text_def lex_blank)
  qed (rule fixed)
qed

definition text_of :: "token list \<Rightarrow> string" where
  "text_of ts = concat (map (\<lambda>t. token_text t @ '' '') ts)"

lemma lex_text_of: "list_all token_ok ts \<Longrightarrow> yylex (text_of ts) = ts"
  by (induction ts) (simp_all add: text_of_def lex_one, simp add: yylex.simps)

end
