(* ===== verification/Config_Parser.thy ===== *)
theory Config_Parser
  imports Config_Lexer
begin

text \<open>
  The grammar of the configuration (\<open>config_rules.y\<close>).  A configuration is a list of statements; each kind of
  statement, setting and clause of the grammar is a constructor.  The productions are the functions \<open>tokens_\<close>, which
  give the tokens a tree is read from; the parser that bison generates from them is \<open>yyparse\<close>, which needs one token
  to choose a production, as the generated one does.  The two are shown to be inverse, so the grammar is unambiguous
  and the parser accepts exactly what it generates.
\<close>

section \<open>Syntax trees\<close>

datatype item = IWord string | INumber int | IExpr string | IEq

type_synonym equation = "item list"

datatype pvalue = PWord string | PExpr string | PNumber int | PAddr string

datatype link_setting = LName string string | LNumber string int | LFilter equation

datatype mvalue = MWord string | MExpr string | MNumber int

text \<open>Where a handler is: its link, address and hardware address, and what was given of network masks, VLANs and a rule.\<close>

datatype place = Place
  (pl_link: string) (pl_ip: string) (pl_mac: string) (pl_netmasks: "string list") (pl_vlans: "int list") (pl_rule: "equation option")

datatype clause =
    Frontend place | Backpick equation | Backend place | Internal string place | Internet equation | Intralan equation

datatype route = Route (rt_link: string) (rt_mac: string) (rt_src: "string option")

datatype statement =
    SConfig "(string \<times> pvalue) list"
  | SLink string "link_setting list"
  | SModule string "(string \<times> mvalue) list"
  | STarget "route option" "clause list"

section \<open>Productions\<close>

fun tokens_item :: "item \<Rightarrow> token" where
  "tokens_item (IWord w) = WORD w"
| "tokens_item (INumber n) = NUMBER n"
| "tokens_item (IExpr e) = EXPR e"
| "tokens_item IEq = EQ"

fun tokens_pvalue :: "pvalue \<Rightarrow> token list" where
  "tokens_pvalue (PWord w) = [WORD w]"
| "tokens_pvalue (PExpr e) = [EXPR e]"
| "tokens_pvalue (PNumber n) = [NUMBER n]"
| "tokens_pvalue (PAddr e) = [QUOTE, EXPR e, QUOTE]"

definition tokens_parameter :: "string \<times> pvalue \<Rightarrow> token list" where
  "tokens_parameter p = [WORD (fst p), EQ] @ tokens_pvalue (snd p) @ [SEMICOLON]"

fun tokens_link_setting :: "link_setting \<Rightarrow> token list" where
  "tokens_link_setting (LName x n) = [WORD x, EQ, QUOTE, WORD n, QUOTE, SEMICOLON]"
| "tokens_link_setting (LNumber x n) = [WORD x, EQ, NUMBER n, SEMICOLON]"
| "tokens_link_setting (LFilter e) = [FILTER, EQ, QUOTE] @ map tokens_item e @ [QUOTE, SEMICOLON]"

fun tokens_mvalue :: "mvalue \<Rightarrow> token" where
  "tokens_mvalue (MWord w) = WORD w"
| "tokens_mvalue (MExpr e) = EXPR e"
| "tokens_mvalue (MNumber n) = NUMBER n"

definition tokens_module_setting :: "string \<times> mvalue \<Rightarrow> token list" where
  "tokens_module_setting p = [WORD (fst p), EQ, tokens_mvalue (snd p), SEMICOLON]"

fun tokens_rule_end :: "equation option \<Rightarrow> token list" where
  "tokens_rule_end None = [SEMICOLON]"
| "tokens_rule_end (Some e) = [QUOTE] @ map tokens_item e @ [QUOTE, SEMICOLON]"

text \<open>The part of a handler from its address on.\<close>

fun tokens_place :: "place \<Rightarrow> token list" where
  "tokens_place (Place l ip mac netmasks vlans rule) =
     [EXPR ip, HW, EXPR mac] @ concat (map (\<lambda>m. [NETMASK, EXPR m]) netmasks) @ concat (map (\<lambda>v. [VLAN, NUMBER v]) vlans) @
     tokens_rule_end rule"

fun tokens_clause :: "clause \<Rightarrow> token list" where
  "tokens_clause (Frontend p) = [FRONTEND, QUOTE, WORD (pl_link p), QUOTE] @ tokens_place p"
| "tokens_clause (Backpick e) = [BACKPICK, QUOTE] @ map tokens_item e @ [QUOTE, SEMICOLON]"
| "tokens_clause (Backend p) = [BACKEND, QUOTE, WORD (pl_link p), QUOTE] @ tokens_place p"
| "tokens_clause (Internal ip p) = [INTERNAL, QUOTE, WORD (pl_link p), QUOTE, EXPR ip, WITH] @ tokens_place p"
| "tokens_clause (Internet e) = [INTERNET, QUOTE] @ map tokens_item e @ [QUOTE, SEMICOLON]"
| "tokens_clause (Intralan e) = [INTRALAN, QUOTE] @ map tokens_item e @ [QUOTE, SEMICOLON]"

fun tokens_route :: "route option \<Rightarrow> token list" where
  "tokens_route None = []"
| "tokens_route (Some (Route l mac src)) =
     [DEFAULT, ROUTE, VIA, QUOTE, WORD l, QUOTE, HW, EXPR mac] @ (case src of None \<Rightarrow> [] | Some ip \<Rightarrow> [SRC, EXPR ip])"

fun tokens_statement :: "statement \<Rightarrow> token list" where
  "tokens_statement (SConfig ps) = [CONFIGURATION, OPEN] @ concat (map tokens_parameter ps) @ [END]"
| "tokens_statement (SLink tag ls) = [LINK, QUOTE, WORD tag, QUOTE, OPEN] @ concat (map tokens_link_setting ls) @ [END]"
| "tokens_statement (SModule name ms) = [MODULE, QUOTE, WORD name, QUOTE, OPEN] @ concat (map tokens_module_setting ms) @ [END]"
| "tokens_statement (STarget r cs) = [TARGET] @ tokens_route r @ [OPEN] @ concat (map tokens_clause cs) @ [END]"

definition tokens_configuration :: "statement list \<Rightarrow> token list" where
  "tokens_configuration ss = concat (map tokens_statement ss)"

section \<open>The parser\<close>

text \<open>A parser takes what it recognises off the tokens and returns the rest, or fails.\<close>

type_synonym 'a parser = "token list \<Rightarrow> ('a \<times> token list) option"

fun tok :: "token \<Rightarrow> unit parser" where
  "tok t [] = None"
| "tok t (x # r) = (if x = t then Some ((), r) else None)"

fun the_word :: "token \<Rightarrow> string option" where
  "the_word (WORD w) = Some w"
| "the_word _ = None"

fun the_expr :: "token \<Rightarrow> string option" where
  "the_expr (EXPR e) = Some e"
| "the_expr _ = None"

fun the_number :: "token \<Rightarrow> int option" where
  "the_number (NUMBER n) = Some n"
| "the_number _ = None"

fun the_item :: "token \<Rightarrow> item option" where
  "the_item (WORD w) = Some (IWord w)"
| "the_item (NUMBER n) = Some (INumber n)"
| "the_item (EXPR e) = Some (IExpr e)"
| "the_item EQ = Some IEq"
| "the_item _ = None"

fun content :: "(token \<Rightarrow> 'a option) \<Rightarrow> 'a parser" where
  "content f [] = None"
| "content f (x # r) = (case f x of None \<Rightarrow> None | Some v \<Rightarrow> Some (v, r))"

definition andthen :: "'a parser \<Rightarrow> ('a \<Rightarrow> 'b parser) \<Rightarrow> 'b parser" where
  "andthen p f ts = (case p ts of None \<Rightarrow> None | Some (x, r) \<Rightarrow> f x r)"

definition orelse :: "'a parser \<Rightarrow> 'a parser \<Rightarrow> 'a parser" where
  "orelse p q ts = (case p ts of None \<Rightarrow> q ts | Some x \<Rightarrow> Some x)"

definition give :: "'a \<Rightarrow> 'a parser" where
  "give x ts = Some (x, ts)"

fun toks :: "token list \<Rightarrow> unit parser" where
  "toks [] ts = Some ((), ts)"
| "toks (t # us) ts = andthen (tok t) (\<lambda>_. toks us) ts"

text \<open>The repetitions of the grammar: those that end where nothing more fits, and those that end with \<open>END\<close>.\<close>

fun p_equation :: "token list \<Rightarrow> equation \<times> token list" where
  "p_equation [] = ([], [])"
| "p_equation (t # ts) =
     (case the_item t of
        None \<Rightarrow> ([], t # ts)
      | Some i \<Rightarrow> let (e, r) = p_equation ts in (i # e, r))"

fun p_keyed :: "token \<Rightarrow> (token \<Rightarrow> 'a option) \<Rightarrow> token list \<Rightarrow> 'a list \<times> token list" where
  "p_keyed k f (t # u # ts) =
     (if t = k then (case f u of None \<Rightarrow> ([], t # u # ts) | Some x \<Rightarrow> let (xs, r) = p_keyed k f ts in (x # xs, r))
      else ([], t # u # ts))"
| "p_keyed k f ts = ([], ts)"

function p_until :: "'a parser \<Rightarrow> 'a list parser" where
  "p_until p ts =
     (case tok END ts of
        Some (_, r) \<Rightarrow> Some ([], r)
      | None \<Rightarrow>
          (case p ts of
             None \<Rightarrow> None
           | Some (x, r) \<Rightarrow> if length r < length ts then map_option (\<lambda>(xs, r). (x # xs, r)) (p_until p r) else None))"
  by pat_completeness auto
termination
  by (relation "measure (\<lambda>(p, ts). length ts)") auto

declare p_until.simps [simp del]

definition p_quoted :: "equation parser" where
  "p_quoted ts = (let (e, r) = p_equation ts in andthen (toks [QUOTE, SEMICOLON]) (\<lambda>_. give e) r)"

definition p_pvalue :: "pvalue parser" where
  "p_pvalue =
     orelse (andthen (content the_word) (\<lambda>w. give (PWord w)))
     (orelse (andthen (content the_expr) (\<lambda>e. give (PExpr e)))
     (orelse (andthen (content the_number) (\<lambda>n. give (PNumber n)))
       (andthen (tok QUOTE) (\<lambda>_. andthen (content the_expr) (\<lambda>e. andthen (tok QUOTE) (\<lambda>_. give (PAddr e)))))))"

definition p_parameter :: "(string \<times> pvalue) parser" where
  "p_parameter = andthen (content the_word) (\<lambda>x. andthen (tok EQ) (\<lambda>_. andthen p_pvalue (\<lambda>v. andthen (tok SEMICOLON) (\<lambda>_. give (x, v)))))"

definition p_link_setting :: "link_setting parser" where
  "p_link_setting =
     orelse
       (andthen (toks [FILTER, EQ, QUOTE]) (\<lambda>_. andthen p_quoted (\<lambda>e. give (LFilter e))))
       (andthen (content the_word) (\<lambda>x. andthen (tok EQ) (\<lambda>_.
          orelse
            (andthen (tok QUOTE) (\<lambda>_. andthen (content the_word) (\<lambda>n. andthen (toks [QUOTE, SEMICOLON]) (\<lambda>_. give (LName x n)))))
            (andthen (content the_number) (\<lambda>n. andthen (tok SEMICOLON) (\<lambda>_. give (LNumber x n)))))))"

definition p_mvalue :: "mvalue parser" where
  "p_mvalue =
     orelse (andthen (content the_word) (\<lambda>w. give (MWord w)))
     (orelse (andthen (content the_expr) (\<lambda>e. give (MExpr e)))
       (andthen (content the_number) (\<lambda>n. give (MNumber n))))"

definition p_module_setting :: "(string \<times> mvalue) parser" where
  "p_module_setting = andthen (content the_word) (\<lambda>x. andthen (tok EQ) (\<lambda>_. andthen p_mvalue (\<lambda>v. andthen (tok SEMICOLON) (\<lambda>_. give (x, v)))))"

definition p_rule_end :: "equation option parser" where
  "p_rule_end = orelse (andthen (tok SEMICOLON) (\<lambda>_. give None)) (andthen (tok QUOTE) (\<lambda>_. andthen p_quoted (\<lambda>e. give (Some e))))"

definition p_place :: "string \<Rightarrow> place parser" where
  "p_place l =
     andthen (content the_expr) (\<lambda>ip. andthen (tok HW) (\<lambda>_. andthen (content the_expr) (\<lambda>mac.
     \<lambda>ts. let (netmasks, r) = p_keyed NETMASK the_expr ts; (vlans, r) = p_keyed VLAN the_number r in
          andthen p_rule_end (\<lambda>rule. give (Place l ip mac netmasks vlans rule)) r)))"

definition p_name :: "string parser" where
  "p_name = andthen (tok QUOTE) (\<lambda>_. andthen (content the_word) (\<lambda>w. andthen (tok QUOTE) (\<lambda>_. give w)))"

definition p_clause :: "clause parser" where
  "p_clause =
     orelse (andthen (tok FRONTEND) (\<lambda>_. andthen p_name (\<lambda>l. andthen (p_place l) (\<lambda>p. give (Frontend p)))))
     (orelse (andthen (tok BACKPICK) (\<lambda>_. andthen (tok QUOTE) (\<lambda>_. andthen p_quoted (\<lambda>e. give (Backpick e)))))
     (orelse (andthen (tok BACKEND) (\<lambda>_. andthen p_name (\<lambda>l. andthen (p_place l) (\<lambda>p. give (Backend p)))))
     (orelse (andthen (tok INTERNAL) (\<lambda>_. andthen p_name (\<lambda>l. andthen (content the_expr) (\<lambda>ip. andthen (tok WITH) (\<lambda>_.
                andthen (p_place l) (\<lambda>p. give (Internal ip p)))))))
     (orelse (andthen (tok INTERNET) (\<lambda>_. andthen (tok QUOTE) (\<lambda>_. andthen p_quoted (\<lambda>e. give (Internet e)))))
       (andthen (tok INTRALAN) (\<lambda>_. andthen (tok QUOTE) (\<lambda>_. andthen p_quoted (\<lambda>e. give (Intralan e)))))))))"

definition p_route :: "route option parser" where
  "p_route =
     orelse (andthen (tok OPEN) (\<lambda>_. give None))
       (andthen (toks [DEFAULT, ROUTE, VIA]) (\<lambda>_. andthen p_name (\<lambda>l. andthen (tok HW) (\<lambda>_. andthen (content the_expr) (\<lambda>mac.
          orelse (andthen (tok OPEN) (\<lambda>_. give (Some (Route l mac None))))
            (andthen (tok SRC) (\<lambda>_. andthen (content the_expr) (\<lambda>ip. andthen (tok OPEN) (\<lambda>_. give (Some (Route l mac (Some ip)))))))))))) "

definition p_statement :: "statement parser" where
  "p_statement =
     orelse (andthen (toks [CONFIGURATION, OPEN]) (\<lambda>_. andthen (p_until p_parameter) (\<lambda>ps. give (SConfig ps))))
     (orelse (andthen (tok LINK) (\<lambda>_. andthen p_name (\<lambda>tag. andthen (tok OPEN) (\<lambda>_. andthen (p_until p_link_setting) (\<lambda>ls. give (SLink tag ls))))))
     (orelse (andthen (tok MODULE) (\<lambda>_. andthen p_name (\<lambda>name. andthen (tok OPEN) (\<lambda>_. andthen (p_until p_module_setting) (\<lambda>ms.
                give (SModule name ms))))))
       (andthen (tok TARGET) (\<lambda>_. andthen p_route (\<lambda>r. andthen (p_until p_clause) (\<lambda>cs. give (STarget r cs)))))))"

text \<open>The whole input; a token that does not fit ends the program.\<close>

function yyparse :: "token list \<Rightarrow> statement list option" where
  "yyparse ts =
     (if ts = [] then Some []
      else
        (case p_statement ts of
           None \<Rightarrow> None
         | Some (x, r) \<Rightarrow> if length r < length ts then map_option ((#) x) (yyparse r) else None))"
  by pat_completeness auto
termination
  by (relation "measure length") auto

declare yyparse.simps [simp del]

section \<open>The parser reads what the grammar generates\<close>

named_theorems parse_simps \<open>when the small parsers succeed\<close>

lemma tok_Some [parse_simps]: "tok t ts = Some (u, r) \<longleftrightarrow> ts = t # r"
  by (cases ts) auto

lemma toks_Some [parse_simps]: "toks us ts = Some (u, r) \<longleftrightarrow> ts = us @ r"
  by (induction us arbitrary: ts) (auto simp: andthen_def tok_Some split: option.split)

lemma content_Some [parse_simps]: "content f ts = Some (v, r) \<longleftrightarrow> (\<exists>x. ts = x # r \<and> f x = Some v)"
  by (cases ts) (auto split: option.splits)

lemma the_word_Some [parse_simps]: "the_word x = Some w \<longleftrightarrow> x = WORD w"
  by (cases x) auto

lemma the_expr_Some [parse_simps]: "the_expr x = Some w \<longleftrightarrow> x = EXPR w"
  by (cases x) auto

lemma the_number_Some [parse_simps]: "the_number x = Some n \<longleftrightarrow> x = NUMBER n"
  by (cases x) auto

lemma the_item_tokens [simp]: "the_item (tokens_item i) = Some i"
  by (cases i) auto

lemma the_item_Some [parse_simps]: "the_item x = Some i \<longleftrightarrow> x = tokens_item i"
proof
  show "the_item x = Some i \<Longrightarrow> x = tokens_item i" by (cases x) auto
qed simp

lemma andthen_Some [parse_simps]: "andthen p f ts = Some y \<longleftrightarrow> (\<exists>x r. p ts = Some (x, r) \<and> f x r = Some y)"
  by (auto simp: andthen_def split: option.splits)

lemma orelse_Some [parse_simps]: "orelse p q ts = Some y \<longleftrightarrow> p ts = Some y \<or> p ts = None \<and> q ts = Some y"
  by (auto simp: orelse_def split: option.splits)

lemma give_Some [parse_simps]: "give x ts = Some (y, r) \<longleftrightarrow> y = x \<and> r = ts"
  by (auto simp: give_def)

text \<open>What a parser owes the productions it is written for, and what repeating it then does.\<close>

locale production =
  fixes p :: "'a parser" and tokens :: "'a \<Rightarrow> token list"
  assumes sound: "p ts = Some (x, r) \<Longrightarrow> ts = tokens x @ r"
    and complete: "p (tokens x @ r) = Some (x, r)"
    and starts: "tokens x \<noteq> [] \<and> hd (tokens x) \<noteq> END"
begin

lemma until_sound: "p_until p ts = Some (xs, r) \<Longrightarrow> ts = concat (map tokens xs) @ END # r"
proof (induction "length ts" arbitrary: ts xs r rule: less_induct)
  case less
  show ?case
  proof (cases "tok END ts")
    case None
    with less.prems obtain x r1 xs1 where x: "p ts = Some (x, r1)" "length r1 < length ts" "p_until p r1 = Some (xs1, r)" "xs = x # xs1"
      by (subst (asm) p_until.simps) (auto split: option.splits prod.splits if_splits)
    with less.hyps [OF x(2,3)] sound [OF x(1)] show ?thesis by simp
  next
    case (Some y)
    then obtain r1 where "tok END ts = Some ((), r1)" by (cases y) auto
    with less.prems show ?thesis by (subst (asm) p_until.simps) (auto simp: tok_Some)
  qed
qed

lemma until_complete: "p_until p (concat (map tokens xs) @ END # r) = Some (xs, r)"
proof (induction xs)
  case Nil
  show ?case by (subst p_until.simps) simp
next
  case (Cons x xs)
  let ?r = "concat (map tokens xs) @ END # r"
  obtain t us where t: "tokens x = t # us" "t \<noteq> END" using starts [of x] by (cases "tokens x") auto
  have "p (tokens x @ ?r) = Some (x, ?r)" by (rule complete)
  with t Cons.IH show ?case by (subst p_until.simps) simp
qed

lemma until_Some: "p_until p ts = Some (xs, r) \<longleftrightarrow> ts = concat (map tokens xs) @ END # r"
  using until_sound until_complete by blast

end

lemma p_equation_sound: "p_equation ts = (e, r) \<Longrightarrow> ts = map tokens_item e @ r \<and> (\<forall>t u. r = t # u \<longrightarrow> the_item t = None)"
  by (induction ts arbitrary: e r) (auto simp: the_item_Some Let_def split: option.splits prod.splits)

lemma p_equation_complete: "the_item t = None \<Longrightarrow> p_equation (map tokens_item e @ t # r) = (e, t # r)"
  by (induction e) (simp_all add: Let_def)

lemma p_quoted_Some [parse_simps]: "p_quoted ts = Some (e, r) \<longleftrightarrow> ts = map tokens_item e @ QUOTE # SEMICOLON # r"
proof
  assume "p_quoted ts = Some (e, r)"
  then obtain r1 where "p_equation ts = (e, r1)" "r1 = QUOTE # SEMICOLON # r"
    by (auto simp: p_quoted_def parse_simps Let_def split: prod.splits)
  then show "ts = map tokens_item e @ QUOTE # SEMICOLON # r" using p_equation_sound by blast
next
  assume "ts = map tokens_item e @ QUOTE # SEMICOLON # r"
  then show "p_quoted ts = Some (e, r)" by (simp add: p_quoted_def p_equation_complete andthen_def give_def)
qed

lemma p_keyed_sound:
  assumes "p_keyed k f ts = (xs, r)" and "\<And>u x. f u = Some x \<longleftrightarrow> u = g x"
  shows "ts = concat (map (\<lambda>x. [k, g x]) xs) @ r"
  using assms
  by (induction k f ts arbitrary: xs r rule: p_keyed.induct) (auto simp: Let_def split: option.splits prod.splits if_splits)

lemma p_keyed_complete:
  assumes "\<And>u x. f u = Some x \<longleftrightarrow> u = g x" and "t \<noteq> k"
  shows "p_keyed k f (concat (map (\<lambda>x. [k, g x]) xs) @ t # r) = (xs, t # r)"
proof (induction xs)
  case Nil
  show ?case using assms(2) by (cases r) auto
next
  case (Cons x xs)
  have "f (g x) = Some x" using assms(1) by blast
  with Cons show ?case by (simp add: Let_def)
qed

text \<open>Each parser succeeds exactly on the tokens of a tree, and returns the tree.\<close>

lemmas run_simps = orelse_def andthen_def give_def

lemma p_pvalue_Some [parse_simps]: "p_pvalue ts = Some (v, r) \<longleftrightarrow> ts = tokens_pvalue v @ r"
proof
  show "p_pvalue ts = Some (v, r) \<Longrightarrow> ts = tokens_pvalue v @ r" by (auto simp: p_pvalue_def parse_simps)
  show "ts = tokens_pvalue v @ r \<Longrightarrow> p_pvalue ts = Some (v, r)" by (cases v) (simp_all add: p_pvalue_def run_simps)
qed

lemma p_mvalue_Some [parse_simps]: "p_mvalue ts = Some (v, r) \<longleftrightarrow> ts = tokens_mvalue v # r"
proof
  show "p_mvalue ts = Some (v, r) \<Longrightarrow> ts = tokens_mvalue v # r" by (auto simp: p_mvalue_def parse_simps)
  show "ts = tokens_mvalue v # r \<Longrightarrow> p_mvalue ts = Some (v, r)" by (cases v) (simp_all add: p_mvalue_def run_simps)
qed

lemma p_name_Some [parse_simps]: "p_name ts = Some (w, r) \<longleftrightarrow> ts = QUOTE # WORD w # QUOTE # r"
  by (auto simp: p_name_def parse_simps)

lemma p_rule_end_Some [parse_simps]: "p_rule_end ts = Some (e, r) \<longleftrightarrow> ts = tokens_rule_end e @ r"
proof
  show "p_rule_end ts = Some (e, r) \<Longrightarrow> ts = tokens_rule_end e @ r" by (auto simp: p_rule_end_def parse_simps)
  assume ts: "ts = tokens_rule_end e @ r"
  show "p_rule_end ts = Some (e, r)"
  proof (cases e)
    case (Some q)
    have "p_quoted (map tokens_item q @ QUOTE # SEMICOLON # r) = Some (q, r)" by (simp add: p_quoted_Some)
    with Some ts show ?thesis by (simp add: p_rule_end_def run_simps)
  qed (simp add: ts p_rule_end_def run_simps)
qed

lemma rule_end_hd: "\<exists>t u. tokens_rule_end e @ r = t # u \<and> t \<noteq> NETMASK \<and> t \<noteq> VLAN"
  by (cases e) auto

lemma p_place_Some [parse_simps]: "p_place l ts = Some (p, r) \<longleftrightarrow> pl_link p = l \<and> ts = tokens_place p @ r"
proof
  assume "p_place l ts = Some (p, r)"
  then obtain ip mac r1 where ts: "ts = EXPR ip # HW # EXPR mac # r1"
    and q: "(let (netmasks, r) = p_keyed NETMASK the_expr r1; (vlans, r) = p_keyed VLAN the_number r in
          andthen p_rule_end (\<lambda>rule. give (Place l ip mac netmasks vlans rule)) r) = Some (p, r)"
    unfolding p_place_def andthen_Some by (auto simp: tok_Some content_Some the_expr_Some)
  obtain ms r2 where 1: "p_keyed NETMASK the_expr r1 = (ms, r2)" by fastforce
  obtain vs r3 where 2: "p_keyed VLAN the_number r2 = (vs, r3)" by fastforce
  obtain rule where 3: "r3 = tokens_rule_end rule @ r" "p = Place l ip mac ms vs rule" using q 1 2 by (auto simp: parse_simps)
  show "pl_link p = l \<and> ts = tokens_place p @ r"
    using p_keyed_sound [OF 1 the_expr_Some] p_keyed_sound [OF 2 the_number_Some] ts 3 by simp
next
  assume a: "pl_link p = l \<and> ts = tokens_place p @ r"
  obtain ip mac ms vs rule where p: "p = Place l ip mac ms vs rule" using a by (cases p) auto
  obtain t u where t: "tokens_rule_end rule @ r = t # u" "t \<noteq> NETMASK" "t \<noteq> VLAN" using rule_end_hd by blast
  have v: "p_keyed VLAN the_number (concat (map (\<lambda>v. [VLAN, NUMBER v]) vs) @ t # u) = (vs, t # u)"
    by (rule p_keyed_complete [OF the_number_Some t(3)])
  obtain t' u' where t': "concat (map (\<lambda>v. [VLAN, NUMBER v]) vs) @ t # u = t' # u'" "t' \<noteq> NETMASK"
    using t(2) by (cases vs) auto
  have "p_keyed NETMASK the_expr (concat (map (\<lambda>m. [NETMASK, EXPR m]) ms) @ t' # u') = (ms, t' # u')"
    by (rule p_keyed_complete [OF the_expr_Some t'(2)])
  moreover have "p_rule_end (t # u) = Some (rule, r)" using t(1) by (simp add: p_rule_end_Some)
  ultimately show "p_place l ts = Some (p, r)"
    using a v t(1) t'(1) by (simp add: p p_place_def run_simps)
qed

lemma p_clause_sound: "p_clause ts = Some (c, r) \<Longrightarrow> ts = tokens_clause c @ r"
  unfolding p_clause_def by (auto simp: parse_simps)

lemma p_clause_complete: "p_clause (tokens_clause c @ r) = Some (c, r)"
proof (cases c)
  case (Frontend p)
  have "p_place (pl_link p) (tokens_place p @ r) = Some (p, r)" by (simp add: p_place_Some)
  then show ?thesis by (simp add: Frontend p_clause_def p_name_def run_simps)
next
  case (Backend p)
  have "p_place (pl_link p) (tokens_place p @ r) = Some (p, r)" by (simp add: p_place_Some)
  then show ?thesis by (simp add: Backend p_clause_def p_name_def run_simps)
next
  case (Internal ip p)
  have "p_place (pl_link p) (tokens_place p @ r) = Some (p, r)" by (simp add: p_place_Some)
  then show ?thesis by (simp add: Internal p_clause_def p_name_def run_simps)
next
  case (Backpick e)
  have "p_quoted (map tokens_item e @ QUOTE # SEMICOLON # r) = Some (e, r)" by (simp add: p_quoted_Some)
  then show ?thesis by (simp add: Backpick p_clause_def run_simps)
next
  case (Internet e)
  have "p_quoted (map tokens_item e @ QUOTE # SEMICOLON # r) = Some (e, r)" by (simp add: p_quoted_Some)
  then show ?thesis by (simp add: Internet p_clause_def run_simps)
next
  case (Intralan e)
  have "p_quoted (map tokens_item e @ QUOTE # SEMICOLON # r) = Some (e, r)" by (simp add: p_quoted_Some)
  then show ?thesis by (simp add: Intralan p_clause_def run_simps)
qed

interpretation clause_syntax: production p_clause tokens_clause
proof
  show "tokens_clause x \<noteq> [] \<and> hd (tokens_clause x) \<noteq> END" for x by (cases x) auto
qed (use p_clause_sound p_clause_complete in blast)+

interpretation parameter_syntax: production p_parameter tokens_parameter
proof
  show "p_parameter ts = Some (x, r) \<Longrightarrow> ts = tokens_parameter x @ r" for ts x r
    by (auto simp: p_parameter_def tokens_parameter_def parse_simps)
  show "p_parameter (tokens_parameter x @ r) = Some (x, r)" for x r
    by (cases x) (auto simp: p_parameter_def tokens_parameter_def parse_simps)
  show "tokens_parameter x \<noteq> [] \<and> hd (tokens_parameter x) \<noteq> END" for x by (simp add: tokens_parameter_def)
qed

interpretation module_syntax: production p_module_setting tokens_module_setting
proof
  show "p_module_setting ts = Some (x, r) \<Longrightarrow> ts = tokens_module_setting x @ r" for ts x r
    by (auto simp: p_module_setting_def tokens_module_setting_def parse_simps)
  show "p_module_setting (tokens_module_setting x @ r) = Some (x, r)" for x r
    by (cases x) (auto simp: p_module_setting_def tokens_module_setting_def parse_simps)
  show "tokens_module_setting x \<noteq> [] \<and> hd (tokens_module_setting x) \<noteq> END" for x by (simp add: tokens_module_setting_def)
qed

interpretation link_syntax: production p_link_setting tokens_link_setting
proof
  show "p_link_setting ts = Some (x, r) \<Longrightarrow> ts = tokens_link_setting x @ r" for ts x r
    unfolding p_link_setting_def by (auto simp: parse_simps)
  show "p_link_setting (tokens_link_setting x @ r) = Some (x, r)" for x r
  proof (cases x)
    case (LFilter e)
    have "p_quoted (map tokens_item e @ QUOTE # SEMICOLON # r) = Some (e, r)" by (simp add: p_quoted_Some)
    then show ?thesis by (simp add: LFilter p_link_setting_def run_simps)
  qed (simp_all add: p_link_setting_def run_simps)
  show "tokens_link_setting x \<noteq> [] \<and> hd (tokens_link_setting x) \<noteq> END" for x by (cases x) auto
qed

lemmas until_Some [parse_simps] =
  clause_syntax.until_Some parameter_syntax.until_Some module_syntax.until_Some link_syntax.until_Some

lemma p_route_Some [parse_simps]: "p_route ts = Some (x, r) \<longleftrightarrow> ts = tokens_route x @ OPEN # r"
proof
  show "p_route ts = Some (x, r) \<Longrightarrow> ts = tokens_route x @ OPEN # r" unfolding p_route_def by (auto simp: parse_simps)
  assume ts: "ts = tokens_route x @ OPEN # r"
  show "p_route ts = Some (x, r)"
  proof (cases x)
    case (Some rt)
    obtain l mac src where "rt = Route l mac src" by (cases rt)
    with Some ts show ?thesis by (cases src) (simp_all add: p_route_def p_name_def run_simps)
  qed (simp add: ts p_route_def run_simps)
qed

interpretation statement_syntax: production p_statement tokens_statement
proof
  show "p_statement ts = Some (x, r) \<Longrightarrow> ts = tokens_statement x @ r" for ts x r
    unfolding p_statement_def by (auto simp: parse_simps)
  show "p_statement (tokens_statement x @ r) = Some (x, r)" for x r
  proof (cases x)
    case (SConfig ps)
    have "p_until p_parameter (concat (map tokens_parameter ps) @ END # r) = Some (ps, r)" by (simp add: parse_simps)
    then show ?thesis by (simp add: SConfig p_statement_def run_simps)
  next
    case (SLink tag ls)
    have "p_until p_link_setting (concat (map tokens_link_setting ls) @ END # r) = Some (ls, r)" by (simp add: parse_simps)
    then show ?thesis by (simp add: SLink p_statement_def p_name_def run_simps)
  next
    case (SModule name ms)
    have "p_until p_module_setting (concat (map tokens_module_setting ms) @ END # r) = Some (ms, r)" by (simp add: parse_simps)
    then show ?thesis by (simp add: SModule p_statement_def p_name_def run_simps)
  next
    case (STarget rt cs)
    have "p_until p_clause (concat (map tokens_clause cs) @ END # r) = Some (cs, r)" by (simp add: parse_simps)
    moreover have "p_route (tokens_route rt @ OPEN # concat (map tokens_clause cs) @ END # r) = Some (rt, concat (map tokens_clause cs) @ END # r)"
      by (simp add: parse_simps)
    ultimately show ?thesis by (simp add: STarget p_statement_def run_simps)
  qed
  show "tokens_statement x \<noteq> [] \<and> hd (tokens_statement x) \<noteq> END" for x by (cases x) auto
qed

lemma yyparse_sound: "yyparse ts = Some ss \<Longrightarrow> ts = tokens_configuration ss"
proof (induction "length ts" arbitrary: ts ss rule: less_induct)
  case less
  show ?case
  proof (cases "ts = []")
    case False
    with less.prems obtain x r ss' where x: "p_statement ts = Some (x, r)" "length r < length ts" "yyparse r = Some ss'" "ss = x # ss'"
      by (subst (asm) yyparse.simps) (auto split: option.split_asm prod.split_asm if_split_asm)
    with less.hyps [OF x(2,3)] statement_syntax.sound [OF x(1)] show ?thesis by (simp add: tokens_configuration_def)
  qed (use less.prems in \<open>simp add: yyparse.simps tokens_configuration_def\<close>)
qed

lemma yyparse_complete: "yyparse (tokens_configuration ss) = Some ss"
proof (induction ss)
  case (Cons x ss)
  have "p_statement (tokens_statement x @ tokens_configuration ss) = Some (x, tokens_configuration ss)" by (rule statement_syntax.complete)
  with Cons statement_syntax.starts [of x] show ?case by (subst yyparse.simps) (simp add: tokens_configuration_def)
qed (simp add: yyparse.simps tokens_configuration_def)

text \<open>C16: The parser accepts exactly the token sequences the grammar generates, and the tree it returns is the one
  they were generated from: the grammar is unambiguous and nothing else is accepted.\<close>

theorem yyparse_grammar: "yyparse ts = Some ss \<longleftrightarrow> ts = tokens_configuration ss"
  using yyparse_sound yyparse_complete by blast

end
