(* ===== verification/Rpc_Server.thy ===== *)
theory Rpc_Server
  imports Decision_Engine
begin

text \<open>
  The remote control (\<open>rpc_server.c\<close>): the methods an XML-RPC client can call while the program runs, on top of
  the management functions.  The library that decodes a call is not part of the program: a parameter of a call is
  given by what each of its reading functions yields for it, \<open>None\<close> where the function reports a fault and leaves
  the variable as it was.  So are the parser of addresses (\<open>addr_pton\<close>), the regular expressions of the rules and
  the table of configured modules.
\<close>

record rpc_value =
  rv_string :: "string option"
  rv_int :: "int option"
  rv_i8 :: "int option"

record rpc_env =
  re_ip :: "string \<Rightarrow> u32 option"
  re_mac :: "string \<Rightarrow> mac_t option"
  re_or_split :: "string \<Rightarrow> string list"
  re_and_split :: "string \<Rightarrow> string list"
  re_modules :: "string \<rightharpoonup> config"

section \<open>Links\<close>

definition rpc_get_number_of_links :: "hb_state \<Rightarrow> int" where
  "rpc_get_number_of_links s = int (card (dom (links s)))"

definition rpc_get_links :: "hb_state \<Rightarrow> string set" where
  "rpc_get_links s = dom (links s)"

section \<open>Targets\<close>

definition zero_target :: target where
  "zero_target = \<lparr>tg_targetID = 0, tg_default_route = None, tg_default_route_ip = None, tg_default_route_mac = None,
     tg_front_handler = None, tg_back_handlers = [], tg_back_handler_count = 0, tg_back_picker = None,
     tg_intra_handlers = [], tg_intra_handlers_list = [], tg_control_rule = None, tg_intra_rule = None\<rparr>"

text \<open>The default route of a new target: \<open>None\<close> where the code goes to its error exit.\<close>

definition rpc_route :: "rpc_env \<Rightarrow> hb_state \<Rightarrow> ptr \<Rightarrow> rpc_value \<Rightarrow> rpc_value \<Rightarrow> rpc_value \<Rightarrow> (target \<times> hb_state) option res" where
  "rpc_route R s p linkp macp srcipp =
     rbind (nonnull (rv_string linkp)) (\<lambda>link.
     (case links s link of
        None \<Rightarrow> Inr None
      | Some i \<Rightarrow>
          rbind (get_iface s (Some i)) (\<lambda>iface.
          if if_target iface \<noteq> None then Inr None
          else
            rbind (nonnull (rv_string srcipp)) (\<lambda>srcip.
            (case re_ip R srcip of
               None \<Rightarrow> Inr None
             | Some src_ip \<Rightarrow>
                 rbind (nonnull (rv_string macp)) (\<lambda>mac.
                 (case re_mac R mac of
                    None \<Rightarrow> Inr None
                  | Some mac_addr \<Rightarrow>
                      Inr (Some (zero_target\<lparr>tg_default_route := Some i, tg_default_route_ip := Some src_ip,
                                             tg_default_route_mac := Some mac_addr\<rparr>,
                                 s\<lparr>st_ifaces := (st_ifaces s)(i \<mapsto> iface\<lparr>if_target := Some p\<rparr>)\<rparr>)))))))))"

text \<open>The number that is sent back is the low half of the target's.\<close>

definition rpc_add_target :: "rpc_env \<Rightarrow> hb_state \<Rightarrow> rpc_value list \<Rightarrow> (int \<times> hb_state) res" where
  "rpc_add_target R s params =
     (let (p, s) = alloc s in
      rbind (case params of
               [linkp, macp, srcipp] \<Rightarrow> rpc_route R s p linkp macp srcipp
             | _ \<Rightarrow> Inr (Some (zero_target, s))) (\<lambda>r.
      (case r of
         None \<Rightarrow> Inr (0, s)
       | Some (t, s) \<Rightarrow>
           rbind (add_target (put_target p t s) (Some p)) (\<lambda>(ret, s).
           if ret = NOK then Inr (0, s\<lparr>st_targets := (st_targets s)(p := None)\<rparr>)
           else rbind (get_target s p) (\<lambda>t. Inr (sint (ucast (tg_targetID t) :: u32), s))))))"

text \<open>\<open>xmlrpc_decompose_value\<close> with the format \<open>i\<close> stores 32 bits into a 64-bit variable that holds 0.\<close>

fun decompose :: "nat \<Rightarrow> rpc_value list \<Rightarrow> u64 list" where
  "decompose n params =
     (if length params = n \<and> (\<forall>v \<in> set params. rv_int v \<noteq> None)
      then map (\<lambda>v. ucast (word_of_int (the (rv_int v)) :: u32)) params else replicate n 0)"

definition rpc_remove_target :: "hb_state \<Rightarrow> rpc_value list \<Rightarrow> (int \<times> hb_state) res" where
  "rpc_remove_target s params =
     (let targetID = decompose 1 params ! 0 in
      if targetID = 0 then Inr (0, s)
      else rbind (remove_target s targetID) (\<lambda>(ret, s). Inr (if ret = OK then 1 else 0, s)))"

section \<open>Handlers\<close>

definition zero_handler :: handler where
  "zero_handler = \<lparr>hd_ID = 0, hd_mac = None, hd_ip = None, hd_netmask = None, hd_vlan = 0, hd_iface = None,
     hd_rule = None, hd_exclusive = 0, hd_intra_target_ips = []\<rparr>"

text \<open>The parameters 0 to 6, read in this order: the target, the link, the address, the MAC address, the network
  mask, the VLAN and the rule; \<open>None\<close> at the first that is not valid.\<close>

definition rpc_handler :: "rpc_env \<Rightarrow> hb_state \<Rightarrow> (nat \<Rightarrow> rpc_value) \<Rightarrow> (ptr \<times> handler) option res" where
  "rpc_handler R s v =
     (case g_tree_lookup intcmp (targets s) (case rv_i8 (v 0) of None \<Rightarrow> 0 | Some n \<Rightarrow> word_of_int n) of
        None \<Rightarrow> Inr None
      | Some target \<Rightarrow>
          rbind (nonnull (rv_string (v 1))) (\<lambda>link.
          (case links s link of
             None \<Rightarrow> Inr None
           | Some i \<Rightarrow>
               rbind (nonnull (rv_string (v 2))) (\<lambda>ip.
               (case re_ip R ip of
                  None \<Rightarrow> Inr None
                | Some ip \<Rightarrow>
                    rbind (nonnull (rv_string (v 3))) (\<lambda>mac.
                    (case re_mac R mac of
                       None \<Rightarrow> Inr None
                     | Some mac \<Rightarrow>
                         rbind (nonnull (rv_string (v 4))) (\<lambda>netmask.
                         (case re_ip R netmask of
                            None \<Rightarrow> Inr None
                          | Some netmask \<Rightarrow>
                              (case rv_int (v 5) of
                                 None \<Rightarrow> Inl Uninitialised
                               | Some vlan \<Rightarrow>
                                   rbind (DE_create_tree (re_or_split R) (re_and_split R) (re_modules R) (rv_string (v 6))) (\<lambda>rule.
                                   Inr (Some (target, zero_handler\<lparr>hd_iface := Some i, hd_ip := Some ip, hd_mac := Some mac,
                                     hd_netmask := Some netmask, hd_vlan := htons (word_of_int vlan AND 0x0FFF),
                                     hd_rule := rule\<rparr>)))))))))))))"

text \<open>After the handler was added the code runs on into its error exit.\<close>

definition rpc_add_backend :: "rpc_env \<Rightarrow> hb_state \<Rightarrow> rpc_value list \<Rightarrow> (int \<times> hb_state) res" where
  "rpc_add_backend R s params =
     (let (q, s) = alloc s in
      if length params \<noteq> 7 then Inr (0, s)
      else
        rbind (rpc_handler R s ((!) params)) (\<lambda>r.
        (case r of
           None \<Rightarrow> Inr (0, s)
         | Some (target, backend) \<Rightarrow>
             rbind (add_back_handler (put_handler q backend s) (Some target) (Some q)) (\<lambda>(_, s).
             rbind (free_handler s (Some q)) (\<lambda>s. Inr (0, s))))))"

definition rpc_remove_backend :: "hb_state \<Rightarrow> rpc_value list \<Rightarrow> (int \<times> hb_state) res" where
  "rpc_remove_backend s params =
     (let ids = decompose 2 params in
      if ids ! 0 = 0 \<or> ids ! 1 = 0 then Inr (0, s)
      else
        (case g_tree_lookup intcmp (targets s) (ids ! 0) of
           None \<Rightarrow> Inr (0, s)
         | Some target \<Rightarrow> rbind (remove_back_handler s target (ids ! 1)) (\<lambda>(ret, s). Inr (if ret = OK then 1 else 0, s))))"

text \<open>
  Eight parameters are asked for and the ninth, the address the handler stands for, is never read: the address is
  NULL.  A tree that is not empty compares it and faults; an empty one would take it and fault at the next
  comparison, which counts as a fault here too.
\<close>

definition rpc_add_intra :: "rpc_env \<Rightarrow> hb_state \<Rightarrow> rpc_value list \<Rightarrow> (int \<times> hb_state) res" where
  "rpc_add_intra R s params =
     (let (q, s) = alloc s in
      if length params \<noteq> 8 then Inr (0, s)
      else
        rbind (rpc_handler R s ((!) params)) (\<lambda>r.
        (case r of
           None \<Rightarrow> Inr (0, s)
         | Some _ \<Rightarrow>
             (case rv_int (params ! 7) of
                None \<Rightarrow> Inl Uninitialised
              | Some _ \<Rightarrow> Inl NullDeref))))"

definition rpc_remove_intra :: "env \<Rightarrow> hb_state \<Rightarrow> rpc_value list \<Rightarrow> (int \<times> hb_state) res" where
  "rpc_remove_intra E s params =
     (let ids = decompose 2 params in
      if ids ! 0 = 0 \<or> ids ! 1 = 0 then Inr (0, s)
      else
        (case g_tree_lookup intcmp (targets s) (ids ! 0) of
           None \<Rightarrow> Inr (0, s)
         | Some target \<Rightarrow> rbind (remove_intra_handler E s target (ids ! 1)) (\<lambda>(ret, s). Inr (if ret = OK then 1 else 0, s))))"

section \<open>The table of methods\<close>

datatype honeybrid_rpc_function =
  GET_NUMBER_OF_LINKS | GET_LINKS | ADD_TARGET | REMOVE_TARGET | ADD_BACKEND | REMOVE_BACKEND | ADD_INTRA | REMOVE_INTRA

definition rpc_methods :: "(string \<times> honeybrid_rpc_function) list" where
  "rpc_methods =
     [(''get_number_of_links'', GET_NUMBER_OF_LINKS), (''get_links'', GET_LINKS), (''add_target'', ADD_TARGET),
      (''remove_target'', REMOVE_TARGET), (''add_backend'', ADD_BACKEND), (''remove_backend'', REMOVE_BACKEND),
      (''add_inra'', ADD_INTRA), (''remove_intra'', REMOVE_INTRA)]"

datatype rpc_reply = IntReply int | ArrayReply "string set"

definition int_reply :: "(int \<times> hb_state) res \<Rightarrow> (rpc_reply \<times> hb_state) res" where
  "int_reply r = rbind r (\<lambda>(n, s). Inr (IntReply n, s))"

fun rpc_function :: "env \<Rightarrow> rpc_env \<Rightarrow> hb_state \<Rightarrow> honeybrid_rpc_function \<Rightarrow> rpc_value list \<Rightarrow> (rpc_reply \<times> hb_state) res" where
  "rpc_function E R s GET_NUMBER_OF_LINKS params = Inr (IntReply (rpc_get_number_of_links s), s)"
| "rpc_function E R s GET_LINKS params = Inr (ArrayReply (rpc_get_links s), s)"
| "rpc_function E R s ADD_TARGET params = int_reply (rpc_add_target R s params)"
| "rpc_function E R s REMOVE_TARGET params = int_reply (rpc_remove_target s params)"
| "rpc_function E R s ADD_BACKEND params = int_reply (rpc_add_backend R s params)"
| "rpc_function E R s REMOVE_BACKEND params = int_reply (rpc_remove_backend s params)"
| "rpc_function E R s ADD_INTRA params = int_reply (rpc_add_intra R s params)"
| "rpc_function E R s REMOVE_INTRA params = int_reply (rpc_remove_intra E s params)"

text \<open>A call by name: the library answers a name it does not know itself, and nothing of the program runs.\<close>

definition rpc_call :: "env \<Rightarrow> rpc_env \<Rightarrow> hb_state \<Rightarrow> string \<Rightarrow> rpc_value list \<Rightarrow> (rpc_reply option \<times> hb_state) res" where
  "rpc_call E R s name params =
     (case map_of rpc_methods name of
        None \<Rightarrow> Inr (None, s)
      | Some f \<Rightarrow> rbind (rpc_function E R s f params) (\<lambda>(r, s). Inr (Some r, s)))"

section \<open>What a call does\<close>

lemma get_handler_None [simp]: "get_handler s None = Inl NullDeref"
  by (simp add: get_handler_def deref_opt_def)

lemma rpc_route_target:
  assumes "rpc_route R s p linkp macp srcipp = Inr (Some (t, s'))"
  shows "tg_front_handler t = None \<and> targets s' = targets s \<and> target_counter s' = target_counter s"
  using assms unfolding rpc_route_def by (auto simp: zero_target_def elim!: rbindE split: option.split_asm if_split_asm)

lemma rpc_add_target_eff:
  assumes "rpc_add_target R s params = Inr (n, s')" and "n \<noteq> 0"
  obtains t where "targets s' = g_tree_insert intcmp (targets s) (target_counter s') (st_next s)"
    "st_targets s' (st_next s) = Some t" "tg_front_handler t = None"
proof -
  let ?p = "st_next s" and ?s = "s\<lparr>st_next := st_next s + 1\<rparr>"
  from assms obtain t s1 where 1: "(case params of [linkp, macp, srcipp] \<Rightarrow> rpc_route R ?s ?p linkp macp srcipp
      | _ \<Rightarrow> Inr (Some (zero_target, ?s))) = Inr (Some (t, s1))"
    and 2: "rbind (add_target (put_target ?p t s1) (Some ?p)) (\<lambda>(ret, s).
       if ret = NOK then Inr (0, s\<lparr>st_targets := (st_targets s)(?p := None)\<rparr>)
       else rbind (get_target s ?p) (\<lambda>t. Inr (sint (ucast (tg_targetID t) :: u32), s))) = Inr (n, s')"
    unfolding rpc_add_target_def alloc_def Let_def prod.case
    by (elim rbindE) (simp split: option.split_asm prod.split_asm)
  have t: "tg_front_handler t = None \<and> targets s1 = targets s \<and> target_counter s1 = target_counter s"
    using 1 rpc_route_target [of R ?s ?p] by (auto simp: zero_target_def split: list.split_asm)
  have "s' = s1\<lparr>st_targets := (st_targets s1)(?p \<mapsto> t\<lparr>tg_targetID := target_counter s + 1\<rparr>), target_counter := target_counter s + 1,
      targets := g_tree_insert intcmp (targets s) (target_counter s + 1) ?p\<rparr>"
    using 2 assms(2) t
    by (auto simp: add_target_def put_target_def get_target_def Let_def elim!: rbindE split: if_split_asm)
  with t show thesis by (intro that [of "t\<lparr>tg_targetID := target_counter s + 1\<rparr>"]) simp_all
qed

text \<open>C39: A target that is added by remote control has no front handler, and nothing gives it one.  The search
  for the sender of a packet from inside faults as soon as it reaches the target, and so does the first packet of
  every connection that arrives on its uplink, a TCP SYN or a UDP datagram: the program is gone with the first frame.\<close>

theorem rpc_target_crashes:
  assumes "rpc_add_target R s params = Inr (n, s')" and "n \<noteq> 0" and "int_tree.ordered (targets s)"
  shows "\<exists>p. g_tree_lookup intcmp (targets s') (target_counter s') = Some p \<and>
    (\<forall>k ts. find_target s' k p ts = Inl NullDeref) \<and>
    (\<forall>E pkt now secs i. st_ifaces s' (pkt_in pkt) = Some i \<and> if_target i = Some p \<and> pkt_origin pkt = EXT \<and>
       (pkt_proto pkt = IPPROTO_TCP \<longrightarrow> pkt_l4 pkt + 14 \<le> pkt_flen pkt \<and> tcp_syn (pkt_FRAME pkt) (pkt_l4 pkt)) \<and>
       gint_of_double now = Inr secs \<longrightarrow>
       create_conn E s' pkt now = Inl NullDeref)"
proof -
  obtain t where t: "targets s' = g_tree_insert intcmp (targets s) (target_counter s') (st_next s)"
    "st_targets s' (st_next s) = Some t" "tg_front_handler t = None"
    using rpc_add_target_eff [OF assms(1,2)] .
  have "g_tree_lookup intcmp (targets s') (target_counter s') = Some (st_next s)"
    using int_tree.gt.lookup_insert_same [OF assms(3)] by (simp add: t)
  moreover have "find_target s' k (st_next s) ts = Inl NullDeref" for k ts
    by (simp add: find_target_def get_target_def t Let_def)
  moreover have "create_conn E s' pkt now = Inl NullDeref"
    if "st_ifaces s' (pkt_in pkt) = Some i" "if_target i = Some (st_next s)" "pkt_origin pkt = EXT"
      "pkt_proto pkt = IPPROTO_TCP \<longrightarrow> pkt_l4 pkt + 14 \<le> pkt_flen pkt \<and> tcp_syn (pkt_FRAME pkt) (pkt_l4 pkt)"
      "gint_of_double now = Inr secs" for E pkt now secs i
    using that by (simp add: create_conn_def get_iface_def create_at_def get_target_def t create_branch_def create_ext_def alloc_def
        Let_def set_conn_def fill_conn_def)
  ultimately show ?thesis by blast
qed

text \<open>A client whose library reads what it is given, and a call with seven parameters.\<close>

definition ex_rpc :: rpc_env where
  "ex_rpc = \<lparr>re_ip = (\<lambda>_. Some 0x0900000A), re_mac = (\<lambda>_. Some 9), re_or_split = (\<lambda>r. [r]), re_and_split = (\<lambda>r. [r]),
     re_modules = Map.empty\<rparr>"

definition ex_text :: "string \<Rightarrow> rpc_value" where
  "ex_text t = \<lparr>rv_string = Some t, rv_int = None, rv_i8 = None\<rparr>"

definition ex_number :: "int \<Rightarrow> rpc_value" where
  "ex_number n = \<lparr>rv_string = None, rv_int = Some n, rv_i8 = Some n\<rparr>"

definition ex_backend :: "rpc_value list" where
  "ex_backend = [ex_number 1, ex_text ''inside'', ex_text ''10.0.0.9'', ex_text ''02:00:00:00:00:0d'',
     ex_text ''255.255.255.0'', ex_number 0, ex_number 0]"

lemma ex_ordered: "int_tree.ordered (targets ex_state)" "int_tree.ordered (tg_back_handlers ex_target)"
  by (simp_all add: ex_state_def ex_target_def int_tree.ordered_def)

theorem rpc_target_crashes_witness:
  "\<exists>s' p. rpc_add_target ex_rpc (ex_state\<lparr>links := [''inside'' \<mapsto> 12]\<rparr>) [ex_text ''inside'', ex_text ''02:00:00:00:00:0d'', ex_text ''10.0.0.9'']
       = Inr (2, s') \<and>
     g_tree_lookup intcmp (targets s') (target_counter s') = Some p \<and> (\<forall>k ts. find_target s' k p ts = Inl NullDeref) \<and>
     create_conn ex_env s' (ex_pkt\<lparr>pkt_in := 12\<rparr>) 0 = Inl NullDeref"
proof -
  let ?s = "ex_state\<lparr>links := [''inside'' \<mapsto> 12]\<rparr>" and ?ps = "[ex_text ''inside'', ex_text ''02:00:00:00:00:0d'', ex_text ''10.0.0.9'']"
  let ?p = "ex_pkt\<lparr>pkt_in := 12\<rparr>"
  have "\<exists>s'. rpc_add_target ex_rpc ?s ?ps = Inr (2, s') \<and> st_ifaces s' 12 = Some (ex_downlink\<lparr>if_target := Some 100\<rparr>) \<and>
      g_tree_lookup intcmp (targets s') (target_counter s') = Some 100"
    by (simp add: rpc_add_target_def rpc_route_def alloc_def add_target_def get_target_def put_target_def get_iface_def Let_def zero_target_def
        ex_text_def ex_rpc_def) (simp add: ex_state_def intcmp_def)
  then obtain s' where r: "rpc_add_target ex_rpc ?s ?ps = Inr (2, s')" "st_ifaces s' 12 = Some (ex_downlink\<lparr>if_target := Some 100\<rparr>)"
    "g_tree_lookup intcmp (targets s') (target_counter s') = Some 100" by blast
  have o: "int_tree.ordered (targets ?s)" using ex_ordered(1) by simp
  have p: "pkt_origin ?p = EXT" "pkt_in ?p = 12" "pkt_l4 ?p + 14 \<le> pkt_flen ?p" "tcp_syn (pkt_FRAME ?p) (pkt_l4 ?p)"
    "gint_of_double 0 = Inr 0"
    by (simp_all add: ex_pkt_def zero_pkt_def ex_syn_at tcp_syn_def gint_of_double_def c_int_def int_ok_def)
  from rpc_target_crashes [OF r(1) _ o] r(3)
  have "(\<forall>k ts. find_target s' k 100 ts = Inl NullDeref) \<and> create_conn ex_env s' ?p 0 = Inl NullDeref"
    using p r(2) by auto
  with r(1,3) show ?thesis by blast
qed

text \<open>Adding a back handler by remote control leaves a freed handler in the tree of its target: the handler is
  entered under the next number, then the error exit frees it and reports 0.\<close>

theorem rpc_backend_dangling:
  assumes "rpc_add_backend R s params = Inr (n, s')" and "length params = 7"
    and "rpc_handler R (snd (alloc s)) ((!) params) = Inr (Some (p, h))"
    and "st_targets s p = Some t" and "int_tree.ordered (tg_back_handlers t)"
  shows "n = 0 \<and> (\<exists>t'. st_targets s' p = Some t' \<and> tg_back_handler_count t' = tg_back_handler_count t + 1 \<and>
    g_tree_lookup intcmp (tg_back_handlers t') (tg_back_handler_count t') = Some (st_next s) \<and>
    get_handler s' (Some (st_next s)) = Inl UseAfterFree)"
proof -
  have "g_tree_lookup intcmp (g_tree_insert intcmp (tg_back_handlers t) k q) k = Some q" for k q
    by (rule int_tree.gt.lookup_insert_same [OF assms(5)])
  then show ?thesis
    using assms(1-4) by (auto simp: rpc_add_backend_def alloc_def add_back_handler_def put_handler_def put_target_def get_target_def
        get_handler_def deref_opt_def deref_def free_handler_def guard_def Let_def elim!: rbindE)
qed

theorem rpc_backend_dangling_witness:
  "\<exists>s' t'. rpc_add_backend ex_rpc (ex_state\<lparr>links := [''inside'' \<mapsto> 12]\<rparr>) ex_backend = Inr (0, s') \<and> st_targets s' 50 = Some t' \<and>
     g_tree_lookup intcmp (tg_back_handlers t') 2 = Some 100 \<and> get_handler s' (Some 100) = Inl UseAfterFree"
proof -
  let ?s = "ex_state\<lparr>links := [''inside'' \<mapsto> 12]\<rparr>"
  have n: "st_next ?s = 100" "tg_back_handler_count ex_target = 1" "st_targets ?s 50 = Some ex_target" "length ex_backend = 7"
    by (simp_all add: ex_state_def ex_target_def ex_backend_def)
  have "\<exists>h. rpc_handler ex_rpc (snd (alloc ?s)) ((!) ex_backend) = Inr (Some (50, h))"
    by (simp add: rpc_handler_def alloc_def ex_backend_def ex_number_def ex_text_def ex_rpc_def DE_create_tree_def)
      (simp add: ex_state_def intcmp_def DE_create_tree_def)
  then obtain h where h: "rpc_handler ex_rpc (snd (alloc ?s)) ((!) ex_backend) = Inr (Some (50, h))" ..
  have "\<exists>m s'. rpc_add_backend ex_rpc ?s ex_backend = Inr (m, s')"
    using h n by (simp add: rpc_add_backend_def alloc_def add_back_handler_def put_handler_def put_target_def get_target_def
        get_handler_def free_handler_def Let_def)
  then obtain m s' where r: "rpc_add_backend ex_rpc ?s ex_backend = Inr (m, s')" by blast
  from rpc_backend_dangling [OF r n(4) h n(3) ex_ordered(2)] r n show ?thesis by auto
qed

end
