(* ===== verification/Config_Load.thy ===== *)
theory Config_Load
  imports Config_Parser Rpc_Server Honeybrid_Main
begin

text \<open>
  What the configuration does (the actions of \<open>config_rules.y\<close>): a statement fills the table of settings, defines a
  link or a module, or builds a target with its handlers.  The actions run as the parser reads; a file with a syntax
  error ends the program, so the actions are run on the tree of the whole file here.  The conversion of addresses and
  the regular expressions of the rules are the libraries' and are arguments.  Where two checks of one clause fail, which of
  them ends the program is not kept.

  The table of links frees an interface that is defined a second time under its name, together with the name, which
  remains the key of the table: \<open>ls_freed_tags\<close> are the names a lookup reads after they were freed.
\<close>

record load_env =
  ld_ip :: "string \<Rightarrow> u32 option"
  ld_mac :: "string \<Rightarrow> mac_t option"
  ld_ntoa :: "u32 \<Rightarrow> string"
  ld_or_split :: "string \<Rightarrow> string list"
  ld_and_split :: "string \<Rightarrow> string list"

record load_state =
  ls_hb :: hb_state
  ls_config :: config
  ls_modules :: "string \<rightharpoonup> config"
  ls_freed_tags :: "string set"

definition valid :: "'a option \<Rightarrow> 'a res" where
  "valid x = (case x of None \<Rightarrow> Inl ExitCall | Some y \<Rightarrow> Inr y)"

lemma valid_eq_Inr [rbind_simps]: "valid x = Inr y \<longleftrightarrow> x = Some y"
  by (cases x) (auto simp: valid_def)

section \<open>Equations\<close>

fun item_text :: "item \<Rightarrow> string" where
  "item_text (IWord w) = w"
| "item_text (INumber n) = dec_int n"
| "item_text (IExpr e) = e"
| "item_text IEq = ''=''"

text \<open>The words of a rule or a filter, with a blank before every one that does not come first.\<close>

definition equation_text :: "equation \<Rightarrow> string" where
  "equation_text e = foldl (\<lambda>t i. (if t \<noteq> [] then t @ '' '' else t) @ item_text i) [] e"

section \<open>Settings\<close>

fun load_parameter :: "load_env \<Rightarrow> config \<Rightarrow> string \<times> pvalue \<Rightarrow> config res" where
  "load_parameter L c (x, PWord w) = Inr (c(x \<mapsto> CfgString w))"
| "load_parameter L c (x, PExpr e) = Inr (c(x \<mapsto> CfgString e))"
| "load_parameter L c (x, PNumber n) = Inr (c(x \<mapsto> CfgInt n))"
| "load_parameter L c (x, PAddr e) = rbind (valid (ld_ip L e)) (\<lambda>a. Inr (c(x \<mapsto> CfgString (ld_ntoa L a))))"

fun load_parameters :: "load_env \<Rightarrow> config \<Rightarrow> (string \<times> pvalue) list \<Rightarrow> config res" where
  "load_parameters L c [] = Inr c"
| "load_parameters L c (p # ps) = rbind (load_parameter L c p) (\<lambda>c. load_parameters L c ps)"

section \<open>Links\<close>

definition zero_iface :: interface where
  "zero_iface = \<lparr>if_name = None, if_tag = [], if_filter = None, if_promisc = 0, if_ip = None, if_mac = 0, if_mtu = 0,
     if_target = None\<rparr>"

fun load_link_setting :: "interface \<Rightarrow> link_setting \<Rightarrow> interface res" where
  "load_link_setting i (LName x n) = (if x \<noteq> ''interface'' then Inl ExitCall else Inr (i\<lparr>if_name := Some n\<rparr>))"
| "load_link_setting i (LNumber x n) = (if x \<noteq> ''promisc'' then Inl ExitCall else Inr (i\<lparr>if_promisc := n\<rparr>))"
| "load_link_setting i (LFilter e) = Inr (i\<lparr>if_filter := Some (equation_text e)\<rparr>)"

fun load_link_settings :: "interface \<Rightarrow> link_setting list \<Rightarrow> interface res" where
  "load_link_settings i [] = Inr i"
| "load_link_settings i (l # ls) = rbind (load_link_setting i l) (\<lambda>i. load_link_settings i ls)"

definition link_lookup :: "load_state \<Rightarrow> string \<Rightarrow> ptr option res" where
  "link_lookup s tag = rbind (guard UseAfterFree (tag \<notin> ls_freed_tags s)) (\<lambda>_. Inr (links (ls_hb s) tag))"

definition load_link :: "load_state \<Rightarrow> string \<Rightarrow> link_setting list \<Rightarrow> load_state res" where
  "load_link s tag settings =
     (let (p, hb) = alloc (ls_hb s) in
      rbind (load_link_settings zero_iface settings) (\<lambda>i.
      rbind (link_lookup s tag) (\<lambda>old.
      let ifaces = (st_ifaces hb)(p \<mapsto> i\<lparr>if_tag := tag\<rparr>); hb = hb\<lparr>links := (links hb)(tag \<mapsto> p)\<rparr> in
      (case old of
         None \<Rightarrow> Inr (s\<lparr>ls_hb := hb\<lparr>st_ifaces := ifaces\<rparr>\<rparr>)
       | Some q \<Rightarrow> Inr (s\<lparr>ls_hb := hb\<lparr>st_ifaces := ifaces(q := None)\<rparr>, ls_freed_tags := insert tag (ls_freed_tags s)\<rparr>)))))"

section \<open>Modules\<close>

fun mvalue_cfg :: "mvalue \<Rightarrow> cfg_val" where
  "mvalue_cfg (MWord w) = CfgString w"
| "mvalue_cfg (MExpr e) = CfgString e"
| "mvalue_cfg (MNumber n) = CfgInt n"

definition module_table :: "(string \<times> mvalue) list \<Rightarrow> config" where
  "module_table ms = foldl (\<lambda>c (x, v). c(x \<mapsto> mvalue_cfg v)) Map.empty ms"

text \<open>A module with a backup: the key file takes the place of the name of the file in the table, which frees the
  name, and the name is then used to find the file.\<close>

definition load_module :: "load_state \<Rightarrow> string \<Rightarrow> (string \<times> mvalue) list \<Rightarrow> load_state res" where
  "load_module s name settings =
     (let c = module_table settings in
      rbind (guard ExitCall (c ''function'' \<noteq> None)) (\<lambda>_.
      rbind (guard UseAfterFree (c ''backup'' = None)) (\<lambda>_.
      Inr (s\<lparr>ls_modules := (ls_modules s)(name \<mapsto> c)\<rparr>))))"

section \<open>Targets\<close>

fun load_netmask :: "load_env \<Rightarrow> u32 option \<Rightarrow> string list \<Rightarrow> u32 option res" where
  "load_netmask L m [] = Inr m"
| "load_netmask L m (e # es) = rbind (valid (ld_ip L e)) (\<lambda>a. load_netmask L (Some a) es)"

definition load_rule :: "load_env \<Rightarrow> load_state \<Rightarrow> equation \<Rightarrow> node option res" where
  "load_rule L s e = DE_create_tree (ld_or_split L) (ld_and_split L) (ls_modules s) (Some (equation_text e))"

text \<open>A handler from its place: the addresses are read first, then the link is looked up and the rule is built.\<close>

definition load_place :: "load_env \<Rightarrow> load_state \<Rightarrow> place \<Rightarrow> handler res" where
  "load_place L s pl =
     rbind (valid (ld_ip L (pl_ip pl))) (\<lambda>ip.
     rbind (valid (ld_mac L (pl_mac pl))) (\<lambda>mac.
     rbind (load_netmask L None (pl_netmasks pl)) (\<lambda>netmask.
     rbind (link_lookup s (pl_link pl)) (\<lambda>i.
     rbind (valid i) (\<lambda>i.
     rbind (case pl_rule pl of None \<Rightarrow> Inr None | Some e \<Rightarrow> load_rule L s e) (\<lambda>rule.
     Inr (zero_handler\<lparr>hd_iface := Some i, hd_ip := Some ip, hd_mac := Some mac, hd_netmask := netmask,
       hd_vlan := htons (word_of_int (if pl_vlans pl = [] then 0 else last (pl_vlans pl)) AND 0x0FFF), hd_rule := rule\<rparr>)))))))"

definition new_handler :: "load_state \<Rightarrow> handler \<Rightarrow> ptr \<times> hb_state" where
  "new_handler s h = (let (q, hb) = alloc (ls_hb s) in (q, put_handler q h hb))"

definition load_tree :: "load_env \<Rightarrow> load_state \<Rightarrow> ptr \<Rightarrow> equation \<Rightarrow> (node option \<Rightarrow> target \<Rightarrow> target) \<Rightarrow> load_state res" where
  "load_tree L s p e f =
     rbind (load_rule L s e) (\<lambda>n.
     rbind (get_target (ls_hb s) p) (\<lambda>t.
     Inr (s\<lparr>ls_hb := put_target p (f n t) (ls_hb s)\<rparr>)))"

text \<open>A back handler with a rule takes a number here and another one in \<open>add_back_handler\<close>.\<close>

fun load_clause :: "env \<Rightarrow> load_env \<Rightarrow> load_state \<Rightarrow> ptr \<Rightarrow> clause \<Rightarrow> load_state res" where
  "load_clause E L s p (Frontend pl) =
     rbind (load_place L s pl) (\<lambda>h.
     rbind (get_target (ls_hb s) p) (\<lambda>t.
     let (q, hb) = new_handler s h in
     Inr (s\<lparr>ls_hb := put_target p (t\<lparr>tg_front_handler := Some q\<rparr>) hb\<rparr>)))"
| "load_clause E L s p (Backpick e) = load_tree L s p e (\<lambda>n t. t\<lparr>tg_back_picker := n\<rparr>)"
| "load_clause E L s p (Backend pl) =
     rbind (load_place L s pl) (\<lambda>h.
     rbind (get_target (ls_hb s) p) (\<lambda>t.
     let (q, hb) = new_handler s h in
     rbind (if pl_rule pl = None
            then rbind (guard ExitCall (tg_back_picker t \<noteq> None)) (\<lambda>_. Inr hb)
            else Inr (put_target p (t\<lparr>tg_back_handler_count := tg_back_handler_count t + 1\<rparr>) hb)) (\<lambda>hb.
     rbind (add_back_handler hb (Some p) (Some q)) (\<lambda>(_, hb).
     Inr (s\<lparr>ls_hb := hb\<rparr>)))))"
| "load_clause E L s p (Internal ip pl) =
     rbind (valid (ld_ip L ip)) (\<lambda>ip.
     rbind (load_place L s pl) (\<lambda>h.
     let (q, hb) = new_handler s (h\<lparr>hd_exclusive := 1\<rparr>) in
     rbind (add_intra_handler E hb (Some p) ip (Some q)) (\<lambda>(_, hb).
     Inr (s\<lparr>ls_hb := hb\<rparr>))))"
| "load_clause E L s p (Internet e) = load_tree L s p e (\<lambda>n t. t\<lparr>tg_control_rule := n\<rparr>)"
| "load_clause E L s p (Intralan e) = load_tree L s p e (\<lambda>n t. t\<lparr>tg_intra_rule := n\<rparr>)"

fun load_clauses :: "env \<Rightarrow> load_env \<Rightarrow> load_state \<Rightarrow> ptr \<Rightarrow> clause list \<Rightarrow> load_state res" where
  "load_clauses E L s p [] = Inr s"
| "load_clauses E L s p (c # cs) = rbind (load_clause E L s p c) (\<lambda>s. load_clauses E L s p cs)"

text \<open>The uplink of a target: the address of the interface is copied before the interface has one.\<close>

fun load_route :: "load_env \<Rightarrow> load_state \<Rightarrow> ptr \<Rightarrow> route option \<Rightarrow> hb_state res" where
  "load_route L s p None = Inr (ls_hb s)"
| "load_route L s p (Some (Route l mac src)) =
     rbind (valid (ld_mac L mac)) (\<lambda>mac.
     rbind (case src of None \<Rightarrow> Inr None | Some e \<Rightarrow> rbind (valid (ld_ip L e)) (\<lambda>a. Inr (Some a))) (\<lambda>src.
     rbind (link_lookup s l) (\<lambda>i.
     rbind (valid i) (\<lambda>i.
     rbind (get_iface (ls_hb s) (Some i)) (\<lambda>ifc.
     rbind (get_target (ls_hb s) p) (\<lambda>t.
     Inr (put_target p (t\<lparr>tg_default_route := Some i, tg_default_route_ip := (case src of None \<Rightarrow> if_ip ifc | Some a \<Rightarrow> Some a),
                          tg_default_route_mac := Some mac\<rparr>)
            ((ls_hb s)\<lparr>st_ifaces := (st_ifaces (ls_hb s))(i \<mapsto> ifc\<lparr>if_target := Some p\<rparr>)\<rparr>))))))))"

definition load_target :: "env \<Rightarrow> load_env \<Rightarrow> load_state \<Rightarrow> route option \<Rightarrow> clause list \<Rightarrow> load_state res" where
  "load_target E L s rt cs =
     (let (p, hb) = alloc (ls_hb s) in
      rbind (load_clauses E L (s\<lparr>ls_hb := put_target p zero_target hb\<rparr>) p cs) (\<lambda>s.
      rbind (load_route L s p rt) (\<lambda>hb.
      rbind (add_target hb (Some p)) (\<lambda>(_, hb).
      Inr (s\<lparr>ls_hb := hb\<rparr>)))))"

section \<open>The whole file\<close>

fun load_statement :: "env \<Rightarrow> load_env \<Rightarrow> load_state \<Rightarrow> statement \<Rightarrow> load_state res" where
  "load_statement E L s (SConfig ps) = rbind (load_parameters L (ls_config s) ps) (\<lambda>c. Inr (s\<lparr>ls_config := c\<rparr>))"
| "load_statement E L s (SLink tag ls) = load_link s tag ls"
| "load_statement E L s (SModule name ms) = load_module s name ms"
| "load_statement E L s (STarget r cs) = load_target E L s r cs"

fun load_statements :: "env \<Rightarrow> load_env \<Rightarrow> load_state \<Rightarrow> statement list \<Rightarrow> load_state res" where
  "load_statements E L s [] = Inr s"
| "load_statements E L s (x # xs) = rbind (load_statement E L s x) (\<lambda>s. load_statements E L s xs)"

text \<open>The file is \<open>None\<close> when it cannot be opened.\<close>

definition init_parser :: "env \<Rightarrow> load_env \<Rightarrow> load_state \<Rightarrow> string option \<Rightarrow> load_state res" where
  "init_parser E L s file =
     rbind (valid file) (\<lambda>text.
     rbind (valid (yyparse (yylex text))) (\<lambda>ss.
     load_statements E L s ss))"

text \<open>The tables are made and the settings read, then the file is loaded.\<close>

definition load_start :: "config \<Rightarrow> hb_state \<Rightarrow> load_state" where
  "load_start config hb = \<lparr>ls_hb = hb, ls_config = config, ls_modules = Map.empty, ls_freed_tags = {}\<rparr>"

definition startup :: "env \<Rightarrow> load_env \<Rightarrow> hb_state \<Rightarrow> string option \<Rightarrow> load_state res" where
  "startup E L s0 file = rbind (init_variables s0) (\<lambda>(config, hb). init_parser E L (load_start config hb) file)"

end
