(* ===== verification/Engine_Run.thy ===== *)
theory Engine_Run
  imports Engine_Invariant Config_Load
begin

text \<open>
  The program as a transition system on the shared state: one step is one frame in a decision thread, one sweep of the
  cleaning thread, one capture, one pass of the saving thread or one change by the management functions.  The
  invariant \<open>engine_ok\<close> (consistent trees, connections the engine can work on, no mutex held) holds in every
  state that is reached while no rule uses the module that redirects DNS (\<open>reachable_under no_dns_rules\<close>); the last
  section shows what that module leaves behind.
\<close>

section \<open>One frame\<close>

text \<open>A new connection is filed under the next free address; unless a HIH opened it, it is fit for the engine.\<close>

lemma create_branch_fit:
  assumes "create_branch E s pkt p t hs is c = Inr (OK, c', s')" and "cn_initiator c = pkt_origin pkt"
    and "hih_redirected_int_key (cn_hih c) = None" and "pkt_origin pkt \<noteq> HIH"
  shows "fit c'"
proof -
  have ext: "fit c'" if "create_ext s pkt p t c = Inr (OK, c', s')" "pkt_origin pkt = EXT"
    using that assms(2,3) by (auto simp: create_ext_def Let_def fit_def split: prod.split_asm elim!: rbindE)
  have lih: "fit c'" if "create_lih E s pkt p t c = Inr (OK, c', s')"
    using that unfolding create_lih_def
    by (auto simp: Let_def fit_def undecided_def insert_outgoing_def pin_or_default_def split: prod.split_asm if_split_asm option.split_asm elim!: rbindE)
  have intra: "fit c'" if "create_intra E s pkt p t hs is c = Inr (OK, c', s')"
    using that unfolding create_intra_def
    by (auto simp: Let_def fit_def undecided_def split: prod.split_asm if_split_asm option.split_asm elim!: rbindE)
  show ?thesis using assms(1,4) ext lih intra unfolding create_branch_def by (cases "pkt_origin pkt") simp_all
qed

lemma create_at_conns:
  assumes "create_at E s pkt now target hs is = Inr (r, pkt', s')" and "fresh_ok s"
  shows "pkt_origin pkt' = pkt_origin pkt"
    "if r = OK then pkt_conn pkt' = Some (st_next s) \<and>
        (\<exists>c. st_conns s' = (st_conns s)(st_next s \<mapsto> c) \<and> (pkt_origin pkt \<noteq> HIH \<longrightarrow> fit c))
     else st_conns s' = st_conns s"
proof -
  let ?p = "st_next s"
  obtain t c0 x where f: "fill_conn target pkt now (ucast (c_id s + 1)) = Inr c0"
    and x: "create_branch E (set_conn ?p c0 (s\<lparr>st_next := ?p + 1, c_id := c_id s + 1\<rparr>)) pkt ?p t hs is c0 = Inr x"
    "(case x of (result, c, s) \<Rightarrow> if result = OK then Inr (OK, pkt\<lparr>pkt_conn := Some ?p\<rparr>, set_conn ?p c s)
      else rbind (free_conn (set_conn ?p c s) ?p) (\<lambda>s. Inr (NOK, pkt, s))) = Inr (r, pkt', s')"
    using assms(1) unfolding create_at_def alloc_def Let_def prod.case by (elim rbindE) simp
  let ?s1 = "set_conn ?p c0 (s\<lparr>st_next := ?p + 1, c_id := c_id s + 1\<rparr>)"
  obtain r1 c1 s2 where y: "x = (r1, c1, s2)" by (cases x)
  have i: "cn_initiator c0 = pkt_origin pkt" "hih_redirected_int_key (cn_hih c0) = None"
    using f by (auto simp: fill_conn_def Let_def zero_conn_def zero_hih_def elim!: rbindE)
  note b = x(1) [unfolded y]
  have "entered ?s1 ?p c1 s2" by (rule create_branch_entered(1) [OF b i(1)])
  then have e: "st_conns s2 = (st_conns s)(?p \<mapsto> c0)" by (auto simp: entered_def same_conns_def set_conn_def)
  have n: "st_conns s ?p = None" using assms(2) by (simp add: fresh_ok_def)
  show "pkt_origin pkt' = pkt_origin pkt" using x(2) by (auto simp: y elim!: rbindE split: if_split_asm)
  show "if r = OK then pkt_conn pkt' = Some ?p \<and>
        (\<exists>c. st_conns s' = (st_conns s)(?p \<mapsto> c) \<and> (pkt_origin pkt \<noteq> HIH \<longrightarrow> fit c))
     else st_conns s' = st_conns s"
  proof (cases r1)
    case OK
    then show ?thesis using x(2) e create_branch_fit [OF b [unfolded OK] i] by (auto simp: y set_conn_def)
  next
    case NOK
    then have f: "free_conn (set_conn ?p c1 s2) ?p = Inr s'" "r = NOK" using x(2) by (auto simp: y elim!: rbindE)
    have "st_conns s' = (st_conns s2)(?p := None)"
      using f(1) unfolding free_conn_def by (auto elim!: rbindE dest!: pin_quiet simp: quiet_def same_conns_def set_conn_def)
    with f(2) e n show ?thesis by auto
  qed
qed

lemma create_conn_conns:
  assumes "create_conn E s pkt now = Inr (r, pkt', s')" and "fresh_ok s"
  shows "if r = OK then pkt_conn pkt' = Some (st_next s) \<and>
        (\<exists>c. st_conns s' = (st_conns s)(st_next s \<mapsto> c) \<and> (pkt_origin pkt' \<noteq> HIH \<longrightarrow> fit c))
     else st_conns s' = st_conns s"
proof -
  from assms(1) consider "r = NOK" "s' = s" | pkt1 t hs isr where "create_at E s pkt1 now t hs isr = Inr (r, pkt', s')"
    unfolding create_conn_def by (auto elim!: rbindE split: if_split_asm option.split_asm bool.split_asm)
  then show ?thesis
  proof cases
    case (2 pkt1 t hs isr)
    from create_at_conns [OF 2 assms(2)] show ?thesis by simp
  qed simp
qed

text \<open>What \<open>init_conn\<close> gives the packet: a live connection, fit for the engine unless the HIH just opened it;
  no other connection changes.\<close>

lemma init_conn_conns:
  assumes "init_conn E s pkt = Inr (r, pkt', s')" and "fresh_ok s" and "\<forall>p c. st_conns s p = Some c \<longrightarrow> fit c"
  shows "if r = OK then \<exists>p c. pkt_conn pkt' = Some p \<and> st_conns s' = (st_conns s)(p \<mapsto> c) \<and> (pkt_origin pkt' \<noteq> HIH \<longrightarrow> fit c)
     else st_conns s' = st_conns s"
proof -
  from assms(1) obtain x s1 where l: "conn_lookup s pkt = Inr (x, s1)"
    and d: "(case x of None \<Rightarrow> create_conn E s1 pkt (microtime E)
      | Some (p, pkt) \<Rightarrow> rbind (get_conn s1 p) (\<lambda>c. rbind (update_conn pkt p c (microtime E)) (\<lambda>(pkt, c).
          Inr (OK, pkt, set_conn p c s1)))) = Inr (r, pkt', s')"
    unfolding init_conn_def by (elim rbindE) (auto split: prod.split_asm)
  show ?thesis
  proof (cases x)
    case None
    then have "s1 = s" using l unfolding conn_lookup_def by (auto elim!: rbindE split: option.split_asm)
    with d None create_conn_conns [OF _ assms(2)] show ?thesis by (fastforce split: if_split_asm)
  next
    case (Some y)
    obtain p q where y: "y = (p, q)" by (cases y)
    have "lock_conn s p = Inr s1" using l Some y unfolding conn_lookup_def by (auto elim!: rbindE split: option.split_asm)
    then obtain c where c: "st_conns s p = Some c" "s1 = set_conn p (c\<lparr>cn_locked := True\<rparr>) s"
      unfolding lock_conn_def by (auto simp: get_conn_def deref_eq_Inr elim!: rbindE)
    obtain c' where u: "update_conn q p (c\<lparr>cn_locked := True\<rparr>) (microtime E) = Inr (pkt', c')"
      and r: "r = OK" "s' = set_conn p c' s1"
      using d Some y c by (auto simp: get_conn_def set_conn_def elim!: rbindE)
    have "fit c' = fit c" using u
      by (intro fit_same) (auto simp: update_conn_def Let_def same_identity_def elim!: rbindE)
    moreover have "pkt_conn pkt' = Some p" using u by (auto simp: update_conn_def Let_def elim!: rbindE)
    ultimately have "r = OK \<and> pkt_conn pkt' = Some p \<and> s' = set_conn p c' s1" "fit c' = fit c" using r by simp_all
    with c assms(3) show ?thesis by (auto simp: set_conn_def)
  qed
qed

text \<open>Creating a connection leaves the targets and the handlers alone.\<close>

lemma same_config_refl [simp]: "same_config s s"
  by (simp add: same_config_def)

lemma same_config_trans: "same_config a b \<Longrightarrow> same_config b c \<Longrightarrow> same_config a c"
  by (simp add: same_config_def)

lemma pin_config:
  "new_pin_key s k = (r, s') \<Longrightarrow> same_config s s'" "free_pin_key s r = Inr s' \<Longrightarrow> same_config s s'"
  "pin_count_add s q d = Inr s' \<Longrightarrow> same_config s s'" "new_pin s r ip = (q, s') \<Longrightarrow> same_config s s'"
  "free_pin_key_opt s ro = Inr s' \<Longrightarrow> same_config s s'"
  by (auto simp: new_pin_key_def free_pin_key_def free_pin_key_opt_def pin_count_add_def new_pin_def alloc_def same_config_def
      elim!: rbindE split: option.split_asm)

lemmas heap_defs = new_pin_key_def new_pin_def alloc_def same_config_def

lemma pin_or_default_config: "pin_or_default s tree k t c = Inr (ip, c', s') \<Longrightarrow> same_config s s'"
  by (auto simp: pin_or_default_def heap_defs elim!: rbindE split: option.split_asm dest!: pin_config(2,3))

lemma intra_pin_config: "intra_pin s pkt ih c = Inr (ok, c', s') \<Longrightarrow> same_config s s'"
  by (auto simp: intra_pin_def heap_defs elim!: rbindE split: option.split_asm if_split_asm dest!: pin_config(2,3))

lemma create_ext_config: "create_ext s pkt p t c = Inr (r, c', s') \<Longrightarrow> same_config s s'"
  by (auto simp: create_ext_def Let_def heap_defs elim!: rbindE dest!: hold_comm_pin_config)

lemma outgoing_config:
  assumes "pin_or_default s tree k t c = Inr (ip, c1, s1)" and "insert_outgoing s1 pkt p vid ip c1 = (c', s')"
  shows "same_config s s'"
  using pin_or_default_config [OF assms(1)] assms(2) by (auto simp: insert_outgoing_def Let_def same_config_def)

lemma create_lih_config:
  assumes "create_lih E s pkt p t c = Inr (r, c', s')"
  shows "same_config s s'"
proof -
  from assms consider "s' = s"
    | k ip c1 s1 vid where "pin_or_default s (comm_pin_tree s) k t (c\<lparr>cn_state := CONTROL, cn_destination := EXT\<rparr>) = Inr (ip, c1, s1)"
        "insert_outgoing s1 pkt p vid ip c1 = (c', s')"
    by (auto simp: create_lih_def Let_def rbind_simps split: if_splits prod.splits)
  then show ?thesis using outgoing_config by cases auto
qed

lemma create_hih_ext_config:
  assumes "create_hih_ext s pkt p t bh c = Inr (r, c', s')"
  shows "same_config s s'"
proof -
  from assms obtain tree k ip c1 s1 vid where 1: "pin_or_default s tree k t c = Inr (ip, c1, s1)"
    "insert_outgoing s1 pkt p vid ip c1 = (c', s')"
    by (auto simp: create_hih_ext_def Let_def rbind_simps split: if_splits prod.splits)
  then show ?thesis by (rule outgoing_config)
qed

lemma create_hih_intra_config: "create_hih_intra s pkt p bh c = Inr (r, c', s') \<Longrightarrow> same_config s s'"
  by (auto simp: create_hih_intra_def Let_def elim!: rbindE split: if_split_asm dest!: intra_pin_config)
    (auto simp: same_config_def)

lemma create_hih_config: "create_hih E s pkt p t hs c = Inr (r, c', s') \<Longrightarrow> same_config s s'"
  by (auto simp: create_hih_def Let_def elim!: rbindE split: option.split_asm hih_dest.split_asm if_split_asm
      dest: create_hih_ext_config create_hih_intra_config)

lemma create_intra_config: "create_intra E s pkt p t hs is c = Inr (r, c', s') \<Longrightarrow> same_config s s'"
  by (auto simp: create_intra_def Let_def heap_defs elim!: rbindE split: option.split_asm if_split_asm dest!: pin_config(3))

lemma create_branch_config: "create_branch E s pkt p t hs is c = Inr (r, c', s') \<Longrightarrow> same_config s s'"
  by (auto simp: create_branch_def split: role_t.split_asm
      dest: create_ext_config create_lih_config create_hih_config create_intra_config)

lemma free_conn_config: "free_conn s p = Inr s' \<Longrightarrow> same_config s s'"
  by (auto simp: free_conn_def elim!: rbindE dest!: pin_config(5)) (auto simp: same_config_def)

lemma create_at_config: "create_at E s pkt now target hs is = Inr (r, pkt', s') \<Longrightarrow> same_config s s'"
  unfolding create_at_def alloc_def Let_def prod.case
  by (elim rbindE) (auto elim!: rbindE split: if_split_asm dest!: create_branch_config free_conn_config simp: same_config_def set_conn_def)

lemma create_conn_config: "create_conn E s pkt now = Inr (r, pkt', s') \<Longrightarrow> same_config s s'"
  unfolding create_conn_def
  by (auto elim!: rbindE split: if_split_asm option.split_asm bool.split_asm dest: create_at_config)

lemma conn_lookup_config: "conn_lookup s pkt = Inr (x, s') \<Longrightarrow> same_config s s'"
  by (auto simp: conn_lookup_def lock_conn_def same_config_def set_conn_def elim!: rbindE split: option.split_asm)

lemma init_conn_config: "init_conn E s pkt = Inr (r, pkt', s') \<Longrightarrow> same_config s s'"
  unfolding init_conn_def
  by (auto elim!: rbindE split: option.split_asm dest!: create_conn_config conn_lookup_config
      simp: same_config_def set_conn_def)

section \<open>The program as a transition system\<close>

text \<open>Between two steps every connection is fit and no mutex of a connection is held.\<close>

definition engine_ok :: "hb_state \<Rightarrow> bool" where
  "engine_ok s \<longleftrightarrow> conns_ok s \<and> fresh_ok s \<and> (\<forall>p c. st_conns s p = Some c \<longrightarrow> fit c \<and> \<not> cn_locked c)"

lemma engine_ok_quiet: "quiet s s' \<Longrightarrow> engine_ok s \<Longrightarrow> engine_ok s'"
  using conns_ok_quiet by (auto simp: engine_ok_def quiet_def same_conns_def)

lemma handle_conn_ok:
  assumes "handle_packet E s p pkt = Inr s1" and "upd_conn s1 p (\<lambda>c. c\<lparr>cn_locked := False\<rparr>) = Inr s'"
    and "pkt_conn pkt = Some p" and c: "st_conns s p = Some c" and ok: "conns_ok s" "fresh_ok s" "no_dns_rules s"
    and "pkt_origin pkt \<noteq> HIH \<longrightarrow> fit c"
    and others: "\<forall>q d. q \<noteq> p \<longrightarrow> st_conns s q = Some d \<longrightarrow> fit d \<and> \<not> cn_locked d"
  shows "engine_ok s'"
proof -
  from handle_packet_good [OF assms(1,3) c ok assms(8)] obtain c1 where
    1: "conns_ok s1" "fresh_ok s1" "st_conns s1 = (st_conns s)(p \<mapsto> c1)" "fit c1" by (auto simp: good_def)
  have t: "touched s1 p c1 s' (c1\<lparr>cn_locked := False\<rparr>)"
    using upd_conn_touched [OF assms(2), of c1] 1(3) by (simp add: same_identity_def)
  have "fit (c1\<lparr>cn_locked := False\<rparr>)" using 1(4) by (simp add: fit_def undecided_def)
  with touched_ok [OF t 1(1,2)] touched_conn [OF t] 1(3) others show ?thesis
    unfolding engine_ok_def by auto
qed

lemma serve_pkt_ok:
  assumes "serve_pkt E s pkt = Inr s'" and "engine_ok s" and "no_dns_rules s"
  shows "engine_ok s'"
proof -
  have e: "conns_ok s" "fresh_ok s" "\<forall>p c. st_conns s p = Some c \<longrightarrow> fit c" using assms(2) by (simp_all add: engine_ok_def)
  from assms(1) obtain r pkt' s1 where i: "init_conn E s pkt = Inr (r, pkt', s1)"
    and d: "(if r = NOK then Inr s1 else rbind (nonnull (pkt_conn pkt')) (\<lambda>p. rbind (handle_packet E s1 p pkt') (\<lambda>s.
        upd_conn s p (\<lambda>c. c\<lparr>cn_locked := False\<rparr>)))) = Inr s'"
    unfolding serve_pkt_def by (auto elim!: rbindE)
  note ok = init_conn_ok [OF i e(1,2)] and c = init_conn_conns [OF i e(2,3)]
  show ?thesis
  proof (cases r)
    case NOK
    then show ?thesis using d ok c assms(2) by (simp add: engine_ok_def)
  next
    case OK
    with d obtain p s2 where p: "pkt_conn pkt' = Some p" "handle_packet E s1 p pkt' = Inr s2"
        "upd_conn s2 p (\<lambda>c. c\<lparr>cn_locked := False\<rparr>) = Inr s'"
      by (auto simp: nonnull_eq_Inr elim!: rbindE)
    with c OK obtain c where c: "st_conns s1 = (st_conns s)(p \<mapsto> c)" "pkt_origin pkt' \<noteq> HIH \<longrightarrow> fit c" by auto
    have "no_dns_rules s1" using no_dns_config [OF init_conn_config [OF i]] assms(3) by simp
    then show ?thesis using ok c assms(2) by (intro handle_conn_ok [OF p(2,3,1)]) (simp_all add: engine_ok_def)
  qed
qed

lemma de_step_ok:
  assumes "de_step E s raw = Inr s'" and "engine_ok s" and "no_dns_rules s"
  shows "engine_ok s'"
proof -
  have "s' = s \<or> (\<exists>pkt. send_icmp_frag_needed E s pkt = Inr s') \<or> (\<exists>pkt. serve_pkt E s pkt = Inr s')"
    using assms(1) unfolding de_step_def by (auto elim!: rbindE split: option.split_asm if_split_asm)
  then show ?thesis
    using assms(2,3) serve_pkt_ok engine_ok_quiet sends_quiet send_icmp_sends by blast
qed

text \<open>What the threads, the parser of the configuration and the remote control do to the shared state: a frame is
  captured or dealt with, the cleaning thread sweeps, the memory of the modules is saved, a target or a handler is
  added; and anything else outside that leaves the connections alone.\<close>

inductive hb_step :: "hb_state \<Rightarrow> hb_state \<Rightarrow> bool" where
  frame: "de_step E s raw = Inr s' \<Longrightarrow> hb_step s s'"
| capture: "pcap_cb E s n i header packet = Inr (r, s') \<Longrightarrow> hb_step s s'"
| sweep: "clean E s configured = Inr s' \<Longrightarrow> hb_step s s'"
| backup: "save_backup_handler can_open s = (w, s') \<Longrightarrow> hb_step s s'"
| target: "add_target s t = Inr (r, s') \<Longrightarrow> hb_step s s'"
| back_handler: "add_back_handler s t h = Inr (r, s') \<Longrightarrow> hb_step s s'"
| intra_handler: "add_intra_handler E s t ip h = Inr (r, s') \<Longrightarrow> hb_step s s'"
| remote: "rpc_call E R s name params = Inr (r, s') \<Longrightarrow> hb_step s s'"
| configure: "quiet s s' \<Longrightarrow> hb_step s s'"

text \<open>A run begins with the configuration loaded.  \<open>reachable\<close> is what any run comes to, \<open>reachable_under P\<close> what a run
  comes to that keeps to states with \<open>P\<close>.\<close>

inductive reachable_under :: "(hb_state \<Rightarrow> bool) \<Rightarrow> hb_state \<Rightarrow> bool" for P where
  start: "startup E L s0 file = Inr ls \<Longrightarrow> st_conns s0 = Map.empty \<Longrightarrow> fresh_ok s0 \<Longrightarrow> P (ls_hb ls) \<Longrightarrow> reachable_under P (ls_hb ls)"
| step: "reachable_under P s \<Longrightarrow> hb_step s s' \<Longrightarrow> P s' \<Longrightarrow> reachable_under P s'"

definition reachable :: "hb_state \<Rightarrow> bool" where
  "reachable s \<longleftrightarrow> reachable_under (\<lambda>_. True) s"

lemma reachable_start:
  "startup E L s0 file = Inr ls \<Longrightarrow> st_conns s0 = Map.empty \<Longrightarrow> fresh_ok s0 \<Longrightarrow> reachable (ls_hb ls)"
  unfolding reachable_def by (rule reachable_under.start) simp_all

lemma reachable_step: "reachable s \<Longrightarrow> hb_step s s' \<Longrightarrow> reachable s'"
  unfolding reachable_def by (rule reachable_under.step) simp_all

lemma init_variables_ok:
  assumes "init_variables s0 = Inr (config, s)" and "st_conns s0 = Map.empty" and "fresh_ok s0"
  shows "engine_ok s"
  using assms by (auto simp: init_variables_def ICONFIG_def engine_ok_def conns_ok_def fresh_ok_def elim!: rbindE)

lemma pcap_cb_quiet: "pcap_cb E s n i header packet = Inr (r, s') \<Longrightarrow> quiet s s'"
  unfolding pcap_cb_def Let_def
  by (auto elim!: rbindE split: if_split_asm dest!: send_arp_reply_sends sends_quiet)

text \<open>The functions that change targets and handlers, and the actions of the configuration, leave connections, pins
  and settings alone.\<close>

definition apart :: "hb_state \<Rightarrow> hb_state \<Rightarrow> bool" where
  "apart s s' \<longleftrightarrow> same_conns s s' \<and> st_pins s' = st_pins s \<and> st_pin_keys s' = st_pin_keys s \<and> st_next s \<le> st_next s' \<and>
     max_packet_buffer s' = max_packet_buffer s \<and> deny_hih_init s' = deny_hih_init s \<and> reset_ext s' = reset_ext s \<and>
     exclusive_hih s' = exclusive_hih s \<and> broadcast_allowed s' = broadcast_allowed s"

lemma apart_quiet: "apart s s' \<Longrightarrow> quiet s s'"
  by (auto simp: apart_def quiet_def same_conns_def fresh_ok_def)

lemma apart_refl [simp]: "apart s s"
  by (simp add: apart_def)

lemma apart_trans [trans]: "apart a b \<Longrightarrow> apart b c \<Longrightarrow> apart a c"
  by (auto simp: apart_def same_conns_def)

lemma apart_upd [simp]:
  "apart s (s'\<lparr>st_targets := f\<rparr>) = apart s s'" "apart s (s'\<lparr>targets := t\<rparr>) = apart s s'" "apart s (s'\<lparr>st_ifaces := g\<rparr>) = apart s s'"
  "apart s (put_handler q h s') = apart s s'" "apart s (put_target p tg s') = apart s s'" "apart s (s'\<lparr>target_counter := n\<rparr>) = apart s s'"
  "apart (s\<lparr>targets := t\<rparr>) s' = apart s s'" "apart (put_target p tg s) s' = apart s s'" "apart (put_handler q h s) s' = apart s s'"
  by (auto simp: apart_def same_conns_def put_handler_def put_target_def)

lemma free_handler_apart: "free_handler s p = Inr s' \<Longrightarrow> apart s s'"
  by (auto simp: free_handler_def apart_def same_conns_def elim!: rbindE split: option.split_asm)

lemma free_handlers_apart: "free_handlers s ps = Inr s' \<Longrightarrow> apart s s'"
  by (induction ps arbitrary: s) (auto elim!: rbindE dest!: free_handler_apart intro: apart_trans)

lemma free_target_apart: "free_target s p = Inr s' \<Longrightarrow> apart s s'"
  unfolding free_target_def
  by (elim rbindE) (auto dest!: free_handler_apart free_handlers_apart intro: apart_trans)

lemma add_apart:
  "add_target s t = Inr (r, s') \<Longrightarrow> apart s s'" "add_back_handler s t h = Inr (r, s') \<Longrightarrow> apart s s'"
  "add_intra_handler E s t ip h = Inr (r, s') \<Longrightarrow> apart s s'"
  by (auto simp: add_target_def add_back_handler_def add_intra_handler_def Let_def elim!: rbindE split: option.split_asm if_split_asm)

lemma remove_apart:
  "remove_target s n = Inr (r, s') \<Longrightarrow> apart s s'" "remove_back_handler s p n = Inr (r, s') \<Longrightarrow> apart s s'"
  "remove_intra_handler E s p n = Inr (r, s') \<Longrightarrow> apart s s'"
  unfolding remove_target_def remove_back_handler_def remove_intra_handler_def Let_def
  by (auto elim!: rbindE split: option.split_asm dest!: free_target_apart free_handler_apart)
    (auto simp: apart_def same_conns_def)

lemma rpc_route_apart: "rpc_route R s p a b c = Inr (Some (t, s')) \<Longrightarrow> apart s s'"
  unfolding rpc_route_def by (auto elim!: rbindE split: option.split_asm if_split_asm)

lemma alloc_apart: "alloc s = (p, s') \<Longrightarrow> apart s s'"
  by (auto simp: alloc_def apart_def same_conns_def)

lemma rpc_apart:
  "rpc_add_target R s params = Inr (n, s') \<Longrightarrow> apart s s'" "rpc_remove_target s params = Inr (n, s') \<Longrightarrow> apart s s'"
  "rpc_add_backend R s params = Inr (n, s') \<Longrightarrow> apart s s'" "rpc_remove_backend s params = Inr (n, s') \<Longrightarrow> apart s s'"
  "rpc_add_intra R s params = Inr (n, s') \<Longrightarrow> apart s s'" "rpc_remove_intra E s params = Inr (n, s') \<Longrightarrow> apart s s'"
  subgoal
    by (auto simp: rpc_add_target_def Let_def elim!: rbindE split: prod.split_asm option.split_asm list.split_asm if_split_asm
        dest!: alloc_apart rpc_route_apart add_apart(1))
      (auto simp: apart_def same_conns_def)
  subgoal by (auto simp: rpc_remove_target_def Let_def elim!: rbindE split: if_split_asm dest!: remove_apart)
  subgoal
    by (auto simp: rpc_add_backend_def Let_def elim!: rbindE split: prod.split_asm option.split_asm if_split_asm
        dest!: alloc_apart add_apart(2) free_handler_apart)
      (auto simp: apart_def same_conns_def)
  subgoal by (auto simp: rpc_remove_backend_def Let_def elim!: rbindE split: if_split_asm option.split_asm dest!: remove_apart)
  subgoal
    by (auto simp: rpc_add_intra_def Let_def elim!: rbindE split: prod.split_asm option.split_asm if_split_asm dest!: alloc_apart)
  subgoal by (auto simp: rpc_remove_intra_def Let_def elim!: rbindE split: if_split_asm option.split_asm dest!: remove_apart)
  done

lemma load_parts_apart:
  "new_handler s h = (q, hb) \<Longrightarrow> apart (ls_hb s) hb"
  "load_tree L s p e f = Inr s' \<Longrightarrow> apart (ls_hb s) (ls_hb s')"
  "load_route L s p r = Inr hb \<Longrightarrow> apart (ls_hb s) hb"
  "load_link s tag ls = Inr s' \<Longrightarrow> apart (ls_hb s) (ls_hb s')"
  subgoal by (auto simp: new_handler_def dest: alloc_apart split: prod.split_asm)
  subgoal by (auto simp: load_tree_def elim!: rbindE)
  subgoal by (cases "(L, s, p, r)" rule: load_route.cases) (auto elim!: rbindE)
  subgoal by (auto simp: load_link_def alloc_def Let_def apart_def same_conns_def elim!: rbindE split: option.split_asm)
  done

lemma load_clause_apart: "load_clause E L s p c = Inr s' \<Longrightarrow> apart (ls_hb s) (ls_hb s')"
  by (cases c; auto elim!: rbindE split: prod.split_asm if_split_asm dest!: load_parts_apart(1,2) add_apart;
      blast intro: apart_trans)

lemma load_clauses_apart: "load_clauses E L s p cs = Inr s' \<Longrightarrow> apart (ls_hb s) (ls_hb s')"
  by (induction cs arbitrary: s) (auto elim!: rbindE dest!: load_clause_apart intro: apart_trans)

lemma load_statement_apart: "load_statement E L s x = Inr s' \<Longrightarrow> apart (ls_hb s) (ls_hb s')"
proof (cases x)
  case (STarget r cs)
  moreover assume "load_statement E L s x = Inr s'"
  ultimately show ?thesis
    by (auto simp: load_target_def split: prod.split_asm elim!: rbindE
        dest!: load_clauses_apart load_parts_apart(3) add_apart(1) alloc_apart) (blast intro: apart_trans)
qed (auto simp: load_module_def Let_def elim!: rbindE dest: load_parts_apart(4))

lemma load_statements_apart: "load_statements E L s xs = Inr s' \<Longrightarrow> apart (ls_hb s) (ls_hb s')"
  by (induction xs arbitrary: s) (auto elim!: rbindE dest!: load_statement_apart intro: apart_trans)

lemma init_parser_apart: "init_parser E L s file = Inr s' \<Longrightarrow> apart (ls_hb s) (ls_hb s')"
  by (auto simp: init_parser_def elim!: rbindE dest: load_statements_apart)

lemma rpc_call_apart:
  assumes "rpc_call E R s name params = Inr (r, s')"
  shows "apart s s'"
proof -
  from assms have "s' = s \<or> (\<exists>f x. rpc_function E R s f params = Inr (x, s'))"
    unfolding rpc_call_def by (auto elim!: rbindE split: option.split_asm)
  then show ?thesis
  proof (elim disjE exE)
    fix f x assume "rpc_function E R s f params = Inr (x, s')"
    then show ?thesis by (cases f) (auto simp: int_reply_def elim!: rbindE dest: rpc_apart)
  qed simp
qed

lemma clean_engine_ok:
  assumes "clean E s configured = Inr s'" and "engine_ok s"
  shows "engine_ok s'"
proof -
  from assms(1) obtain ps where "remove_all s ps (expiration_delay configured) = Inr s'"
    unfolding clean_def Let_def by (auto elim!: rbindE)
  from remove_all_ok [OF this] assms(2) show ?thesis by (auto simp: engine_ok_def)
qed

lemma hb_step_ok: "hb_step s s' \<Longrightarrow> engine_ok s \<Longrightarrow> no_dns_rules s \<Longrightarrow> engine_ok s'"
proof (induction rule: hb_step.induct)
  case (backup can_open s w s')
  then show ?case using engine_ok_quiet [of s s']
    by (auto simp: save_backup_handler_def quiet_def same_conns_def fresh_ok_def)
qed (blast intro: de_step_ok clean_engine_ok engine_ok_quiet dest: pcap_cb_quiet add_apart [THEN apart_quiet] rpc_call_apart [THEN apart_quiet])+

lemma startup_ok:
  assumes "startup E L s0 file = Inr ls" and "st_conns s0 = Map.empty" and "fresh_ok s0"
  shows "engine_ok (ls_hb ls)"
proof -
  from assms(1) obtain config hb where 1: "init_variables s0 = Inr (config, hb)" "init_parser E L (load_start config hb) file = Inr ls"
    by (auto simp: startup_def elim!: rbindE)
  have "apart hb (ls_hb ls)" using init_parser_apart [OF 1(2)] by (simp add: load_start_def)
  then show ?thesis using init_variables_ok [OF 1(1) assms(2,3)] engine_ok_quiet apart_quiet by blast
qed

lemma reachable_ok: "reachable_under no_dns_rules s \<Longrightarrow> engine_ok s \<and> no_dns_rules s"
  by (induction rule: reachable_under.induct) (use startup_ok hb_step_ok in blast)+

section \<open>The module that redirects DNS\<close>

lemma remove_keeps_intra:
  assumes "remove_conn s p delay = Inr s'" and "st_conns s p = Some c" and "\<not> cn_locked c"
    and "cn_initiator c = EXT \<or> cn_initiator c = LIH" and "cn_destination c = INTRA"
  shows "intra_tree1 s' = intra_tree1 s \<and> st_conns s' p = None"
proof -
  let ?s1 = "set_conn p (c\<lparr>cn_locked := True\<rparr>) s"
  from assms(1-3) obtain s2 s3 where 2: "remove_from_trees ?s1 c = Inr s2" and 3: "drop_target_pin s2 c = Inr s3"
    and 4: "free_conn (s3\<lparr>st_log := st_log s3 @ [c]\<rparr>) p = Inr s'"
    by (auto simp: remove_conn_def get_conn_def lock_conn_def elim!: rbindE)
  have "intra_tree1 s2 = intra_tree1 s"
    using 2 assms(4,5) unfolding remove_from_trees_def
    by (auto simp: set_conn_def quiet_def same_conns_def elim!: rbindE dest!: drop_quiet(1) split: if_split_asm)
  moreover have "intra_tree1 s3 = intra_tree1 s2" using drop_quiet(3) [OF 3] by (simp add: quiet_def same_conns_def)
  moreover have "intra_tree1 s' = intra_tree1 s3" "st_conns s' p = None"
    using 4 unfolding free_conn_def
    by (auto elim!: rbindE dest!: free_pin_key_opt_quiet simp: quiet_def same_conns_def)
  ultimately show ?thesis by simp
qed

lemma new_intra_apart: "new_intra_handler E s iface ip mac vlan = (q, s') \<Longrightarrow> apart s s'"
  by (auto simp: new_intra_handler_def alloc_def apart_def put_handler_def same_conns_def Let_def)

lemma switch_conn_to_intra_eff:
  assumes "switch_conn_to_intra s p q = Inr (r, s')" and "conn_tree.ordered (intra_tree1 s)" and "st_conns s p = Some c"
  obtains k c' where "conn_find (intra_tree1 s') k = Some p" "st_conns s' p = Some c'" "cn_initiator c' = cn_initiator c"
    "cn_destination c' = cn_destination c"
proof -
  from assms(1,3) obtain k c' where "intra_tree1 s' = conn_insert (intra_tree1 s) k p" "st_conns s' p = Some c'"
      "cn_initiator c' = cn_initiator c" "cn_destination c' = cn_destination c"
    unfolding switch_conn_to_intra_def Let_def by (auto simp: get_conn_def set_conn_def elim!: rbindE)
  with conn_find_insert [OF assms(2)] show thesis by (intro that [of k c']) simp_all
qed

text \<open>C29: A connection that a rule redirects to the DNS server is left behind in the trees of the INTRA network.  When an
  attacker or a LIH opened it, removing it takes it out of the trees its initiator has, frees it, and leaves the
  entry in the INTRA tree, which now leads to freed memory.\<close>

theorem dns_conn_dangling:
  assumes "mod_dns_control E s args = Inr (r, args', s1)" and "is_dns (ma_pkt args)" and "dns_query (ma_pkt args)"
    and "\<forall>k \<in> {''interface'', ''ip'', ''mac'', ''vlan_id''}. ma_config args k \<noteq> None"
    and "ma_conn s args = Inr (p, c)" and "cn_initiator c = EXT \<or> cn_initiator c = LIH" and "conn_tree.ordered (intra_tree1 s)"
    and "upd_conn s1 p (\<lambda>c. c\<lparr>cn_locked := False\<rparr>) = Inr s2" and "remove_conn s2 p delay = Inr s3"
  shows "\<exists>k. conn_find (intra_tree1 s3) k = Some p \<and> get_conn s3 p = Inl UseAfterFree"
proof -
  let ?c = "(switch_state c PROXY)\<lparr>cn_destination := INTRA\<rparr>"
  have c: "st_conns s p = Some c" using assms(5) by (auto simp: ma_conn_def get_conn_def deref_eq_Inr elim!: rbindE)
  from assms(1-5) have "\<exists>q sa r'. apart (set_conn p ?c s) sa \<and> switch_conn_to_intra sa p (Some q) = Inr (r', s1)"
    unfolding mod_dns_control_def Let_def
    by (auto elim!: rbindE split: option.split_asm prod.split_asm dest!: add_apart(3) new_intra_apart) (blast intro: apart_refl apart_trans)+
  then obtain q sa r' where a: "apart (set_conn p ?c s) sa" and sw: "switch_conn_to_intra sa p (Some q) = Inr (r', s1)" by blast
  have sa: "conn_tree.ordered (intra_tree1 sa)" "st_conns sa p = Some ?c"
    using a assms(7) by (simp_all add: apart_def same_conns_def set_conn_def)
  obtain k c' where k: "conn_find (intra_tree1 s1) k = Some p" "st_conns s1 p = Some c'" "cn_initiator c' = cn_initiator c" "cn_destination c' = INTRA"
    using switch_conn_to_intra_eff [OF sw sa] by (auto simp: switch_state_def)
  have s2: "s2 = set_conn p (c'\<lparr>cn_locked := False\<rparr>) s1" using assms(8) k(2) by (simp add: upd_conn_def get_conn_def)
  from remove_keeps_intra [OF assms(9), of "c'\<lparr>cn_locked := False\<rparr>"] k assms(6) show ?thesis
    by (auto simp: s2 set_conn_def get_conn_def deref_def)
qed

text \<open>A connection that the LIH of the scenario opened, and its DNS query under a rule with the module.\<close>

definition ex_dns_conn :: conn_struct where
  "ex_dns_conn = (zero_conn 50)\<lparr>cn_locked := True, cn_state := CONTROL, cn_protocol := 17, cn_initiator := LIH, cn_destination := EXT,
     cn_ext_key := Some (ext_key_of ex_pkt), cn_int_key := Some (reply_key_of ex_pkt 0x0200000A 0)\<rparr>"

definition ex_dns_state :: hb_state where
  "ex_dns_state = ex_state\<lparr>st_next := 101, links := [''inside'' \<mapsto> 12], st_conns := [100 \<mapsto> ex_dns_conn],
     int_tree1 := [(reply_key_of ex_pkt 0x0200000A 0, 100)], int_tree2 := [(ext_key_of ex_pkt, 100)]\<rparr>"

definition ex_dns_args :: mod_args where
  "ex_dns_args =
     \<lparr>ma_node = Node (Some MOD_DNS_CONTROL) [''interface'' \<mapsto> CfgString ''inside'', ''ip'' \<mapsto> CfgString ''10.0.0.9'',
          ''mac'' \<mapsto> CfgString ''02:00:00:00:00:0d'', ''vlan_id'' \<mapsto> CfgInt 0] [] [] None None,
      ma_pkt = ex_pkt\<lparr>pkt_FRAME := (pkt_FRAME ex_pkt)(27 := 17, 41 := 53), pkt_payload := 46, pkt_data := 12, pkt_conn := Some 100\<rparr>,
      ma_backend_test = 0, ma_backend_use = 0\<rparr>"

lemma ex_dns_query: "is_dns (ma_pkt ex_dns_args)" "dns_query (ma_pkt ex_dns_args)"
  by (simp_all add: is_dns_def dns_query_def ex_dns_args_def ex_pkt_def zero_pkt_def ex_syn_at frame_eval bits_def Let_def
      get16_def word_cat_eq ntohs_def)

theorem dns_conn_dangling_witness:
  "\<exists>s1 s2 s3 k. mod_dns_control ex_env ex_dns_state ex_dns_args = Inr (ACCEPT, ex_dns_args, s1) \<and>
     upd_conn s1 100 (\<lambda>c. c\<lparr>cn_locked := False\<rparr>) = Inr s2 \<and> remove_conn s2 100 120 = Inr s3 \<and>
     conn_find (intra_tree1 s3) k = Some 100 \<and> get_conn s3 100 = Inl UseAfterFree"
proof -
  have k: "conn_key_cmp (ext_key_of ex_pkt) (ext_key_of ex_pkt) = 0"
    "conn_key_cmp (reply_key_of ex_pkt 0x0200000A 0) (reply_key_of ex_pkt 0x0200000A 0) = 0"
    by (simp_all add: conn_tree.cmp_refl)
  have c: "ma_conn ex_dns_state ex_dns_args = Inr (100, ex_dns_conn)"
    by (simp add: ma_conn_def get_conn_def ex_dns_args_def ex_dns_state_def)
  have f: "pkt_payload (ma_pkt ex_dns_args) = 46" "pkt_flen (ma_pkt ex_dns_args) = 74"
    "ma_config ex_dns_args ''interface'' = Some (CfgString ''inside'')" "ma_config ex_dns_args ''ip'' = Some (CfgString ''10.0.0.9'')"
    "ma_config ex_dns_args ''mac'' = Some (CfgString ''02:00:00:00:00:0d'')" "ma_config ex_dns_args ''vlan_id'' = Some (CfgInt 0)"
    by (simp_all add: ex_dns_args_def ex_pkt_frame)
  have d: "cn_target ex_dns_conn = 50" "cn_ext_key ex_dns_conn = Some (ext_key_of ex_pkt)" "cn_initiator ex_dns_conn = LIH"
    "cn_int_key ex_dns_conn = Some (reply_key_of ex_pkt 0x0200000A 0)" "cn_pin_key ex_dns_conn = None"
    "hih_target_pin_key (cn_hih ex_dns_conn) = None"
    by (simp_all add: ex_dns_conn_def zero_conn_def zero_hih_def)
  have "\<exists>s1 c'. mod_dns_control ex_env ex_dns_state ex_dns_args = Inr (ACCEPT, ex_dns_args, s1) \<and> st_conns s1 100 = Some c' \<and>
      cn_initiator c' = LIH \<and> cn_destination c' = INTRA \<and> cn_pin_key c' = None \<and> hih_target_pin_key (cn_hih c') = None"
    using ex_dns_query
    by (simp add: mod_dns_control_def c f cfg_string_def cfg_int_def is_intra_ip_def Let_def d)
      (simp add: ex_target_def new_intra_handler_def alloc_def put_handler_def put_target_def add_intra_handler_def get_handler_def get_target_def
        switch_conn_to_intra_def get_conn_def set_conn_def conn_remove_def k d switch_state_def ex_state_def ex_dns_state_def
        cfg_string_def cfg_int_def Let_def)
  then obtain s1 c' where m: "mod_dns_control ex_env ex_dns_state ex_dns_args = Inr (ACCEPT, ex_dns_args, s1)" "st_conns s1 100 = Some c'"
    "cn_initiator c' = LIH" "cn_destination c' = INTRA" "cn_pin_key c' = None" "hih_target_pin_key (cn_hih c') = None" by blast
  let ?s2 = "set_conn 100 (c'\<lparr>cn_locked := False\<rparr>) s1"
  have u: "upd_conn s1 100 (\<lambda>c. c\<lparr>cn_locked := False\<rparr>) = Inr ?s2" using m(2) by (simp add: upd_conn_def get_conn_def)
  have "\<exists>s3. remove_conn ?s2 100 120 = Inr s3"
    by (simp add: remove_conn_def remove_from_trees_def lock_conn_def get_conn_def set_conn_def drop_target_pin_def drop_pin_def
        free_conn_def free_pin_key_opt_def m)
  then obtain s3 where r: "remove_conn ?s2 100 120 = Inr s3" ..
  have i: "cn_initiator ex_dns_conn = EXT \<or> cn_initiator ex_dns_conn = LIH" "conn_tree.ordered (intra_tree1 ex_dns_state)"
    by (simp_all add: d ex_dns_state_def ex_state_def)
  have "\<forall>k \<in> {''interface'', ''ip'', ''mac'', ''vlan_id''}. ma_config ex_dns_args k \<noteq> None" using f by simp
  from dns_conn_dangling [OF m(1) ex_dns_query this c i u r] m(1) u r show ?thesis by blast
qed

text \<open>The first SYN of the scenario, from the capture to the honeypot.\<close>

lemma ex_nat_sent:
  assumes "st_ifaces s 12 \<noteq> None"
  shows "\<exists>r q s'. nat_send ex_env s (ex_dnat\<lparr>pkt_conn := x\<rparr>) = Inr (r, q, s')"
proof -
  let ?p = "ex_dnat\<lparr>pkt_conn := x\<rparr>"
  have o: "pkt_out ?p = Some 12" by (simp add: ex_dnat_def nat_to_handler_def ex_front_def)
  have wf: "pkt_wf ?p" using ex_dnat_facts(1) pkt_wf_cong [of ?p ex_dnat] by simp
  have d: "dnat ?p" "\<not> is_vlan ?p" using ex_dnat_facts(3,4) by (simp_all add: dnat_def is_vlan_def)
  have r: "nat_ready s ?p"
    using ex_dnat_facts(2) o assms by (auto simp: nat_ready_def dnat_def snat_def get_iface_def)
  from nat_pkt_outcome(1) [OF wf r] d ex_dnat_facts(8) obtain q where q: "nat_pkt s ?p = Inr q" by auto
  have "pkt_rewr (NATBYTES ?p) ?p q" using nat_pkt_effect [OF q wf] d by blast
  moreover from this have "pkt_end q = 58" using ex_dnat_facts(7) by (simp add: pkt_rewr_def pkt_end_def)
  ultimately have "pkt_end q = 58" "pkt_flen q = 74" "pkt_out q = Some 12"
    using ex_dnat_facts(6) pkt_rewr_fields [of _ ?p q] o by simp_all
  with q send_pkt_total [of q 12 s] assms show ?thesis by (simp add: nat_send_def)
qed

lemma ex_served: "\<exists>s'. serve_pkt ex_env ex_state ex_pkt = Inr s' \<and> ext_tree1 s' = [(ext_key_of ex_pkt, 100)] \<and> same_config ex_state s'"
proof -
  have l: "lookup_trees ex_state ex_pkt = Inr None"
    by (simp add: lookup_trees_def conn_find_def ex_state_def ex_pkt_frame)
  have n: "gint_of_double (microtime ex_env) = Inr 1000"
    by (simp add: gint_of_double_def c_int_def int_ok_def microtime_def ex_env_def)
  have "\<exists>c s1. create_conn ex_env ex_state ex_pkt (microtime ex_env) = Inr (OK, ex_pkt\<lparr>pkt_conn := Some 100\<rparr>, s1) \<and>
     st_conns s1 100 = Some c \<and> cn_state c = INIT \<and> cn_target c = 50 \<and> ext_tree1 s1 = [(ext_key_of ex_pkt, 100)] \<and>
     same_config ex_state s1 \<and> cn_initiator c = EXT"
    by (simp add: create_conn_def create_at_def create_branch_def create_ext_def hold_comm_pin_def ex_pkt_def zero_pkt_def
      ex_syn_at tcp_syn_def get_iface_def get_target_def get_handler_def ex_target_def ex_front_def alloc_def
      new_pin_key_def new_pin_def pin_lookup_def set_conn_def Let_def ex_state_def ex_uplink_def fill_conn_def zero_conn_def
      ext_key_of_def same_config_def n)
  then obtain c s1 where c: "create_conn ex_env ex_state ex_pkt (microtime ex_env) = Inr (OK, ex_pkt\<lparr>pkt_conn := Some 100\<rparr>, s1)"
    "st_conns s1 100 = Some c" "cn_state c = INIT" "cn_target c = 50" "ext_tree1 s1 = [(ext_key_of ex_pkt, 100)]"
    "same_config ex_state s1" "cn_initiator c = EXT" by blast
  define s2 where "s2 = set_conn 100 (switch_state c DECISION) s1"
  have cfg: "get_target s2 50 = Inr ex_target" "get_handler s2 (Some 21) = Inr ex_front" "get_target s1 50 = Inr ex_target"
     "get_handler s1 (Some 21) = Inr ex_front" "st_ifaces s2 12 = Some ex_downlink"
    using c(6) by (simp_all add: s2_def set_conn_def same_config_def get_target_def get_handler_def)
  have d: "DE_process_packet ex_env s1 (ex_pkt\<lparr>pkt_conn := Some 100\<rparr>) = Inr (OK, s2)"
    using c cfg unfolding s2_def
    by (simp add: DE_process_packet_def get_conn_def de_init_def conn_front_handler_def get_decision_def de_outcome_def
        de_no_rule_def ex_target_def ex_front_def Let_def)
  let ?q = "nat_to_handler (ex_pkt\<lparr>pkt_conn := Some 100\<rparr>) ex_front LIH"
  have x: "?q = ex_dnat\<lparr>pkt_conn := Some 100\<rparr>" by (simp add: nat_to_handler_def ex_dnat_def)
  have "\<exists>r q s3. proxy_ext2int ex_env s2 (switch_state c DECISION) (ex_pkt\<lparr>pkt_conn := Some 100\<rparr>) = Inr (r, q, s3) \<and>
     sends s2 s3"
    using ex_nat_sent [of s2 "Some 100"] nat_send_sends [of ex_env s2 ?q] cfg c(4,7) x
    by (simp add: proxy_ext2int_def switch_state_def conn_front_handler_def) (simp add: ex_target_def, blast)
  then obtain r q s3 where p: "proxy_ext2int ex_env s2 (switch_state c DECISION) (ex_pkt\<lparr>pkt_conn := Some 100\<rparr>) = Inr (r, q, s3)"
    "sends s2 s3" by blast
  have 3: "st_conns s3 100 = Some (switch_state c DECISION)" "get_target s3 50 = Inr ex_target" "ext_tree1 s3 = ext_tree1 s1" "same_config ex_state s3"
    using p(2) cfg c(6) by (auto simp: sends_def s2_def set_conn_def get_target_def same_config_def)
  obtain rr c' x where st: "store_pkt s3 (switch_state c DECISION) q = (rr, c', x)" by (cases "store_pkt s3 (switch_state c DECISION) q")
  have "handle_packet ex_env s1 100 (ex_pkt\<lparr>pkt_conn := Some 100\<rparr>) = Inr (set_conn 100 c' s3)"
    using c 3 d p st ex_pkt_frame(5)
    by (simp add: handle_packet_def get_conn_def handle_ext_def decide_and_send_def send_on_def keep_pkt_def s2_def set_conn_def
       switch_state_def ex_target_def status_order)
  moreover have "same_config ex_state (s3\<lparr>st_conns := f\<rparr>)" for f using 3(4) by (simp add: same_config_def)
  ultimately show ?thesis using c l
    by (simp add: serve_pkt_def init_conn_def conn_lookup_def inside_def guard_def ex_pkt_frame upd_conn_def get_conn_def set_conn_def 3)
qed

end
