(* ===== verification/Config_Theorems.thy ===== *)
theory Config_Theorems
  imports Engine_Run
begin

text \<open>
  What a configuration leaves behind: the references a packet follows are live (\<open>wired\<close>), the back handlers of a target
  have the numbers the picking module can name or not, and the settings of \<open>init_variables\<close> are those of an empty file.
\<close>

section \<open>What a configuration leaves behind\<close>

text \<open>Every reference the packets will follow is live: the interface of a link; of a handler its interface, with an
  address and a hardware address; of a target its handlers and its uplink.\<close>

definition placed :: "hb_state \<Rightarrow> ptr \<Rightarrow> bool" where
  "placed s q \<longleftrightarrow> (\<exists>h i ifc. st_handlers s q = Some h \<and> hd_ip h \<noteq> None \<and> hd_mac h \<noteq> None \<and> hd_iface h = Some i \<and>
     st_ifaces s i = Some ifc)"

definition handlers_of :: "target \<Rightarrow> ptr set" where
  "handlers_of t = set_option (tg_front_handler t) \<union> snd ` set (tg_back_handlers t) \<union> snd ` set (tg_intra_handlers t)
     \<union> set (tg_intra_handlers_list t)"

definition target_wired :: "hb_state \<Rightarrow> target \<Rightarrow> bool" where
  "target_wired s t \<longleftrightarrow> (\<forall>q \<in> handlers_of t. placed s q) \<and>
     (\<forall>i. tg_default_route t = Some i \<longrightarrow> st_ifaces s i \<noteq> None \<and> tg_default_route_mac t \<noteq> None)"

definition wired :: "hb_state \<Rightarrow> bool" where
  "wired s \<longleftrightarrow> ran (links s) \<subseteq> dom (st_ifaces s) \<and> snd ` set (targets s) \<subseteq> dom (st_targets s) \<and>
     (\<forall>i ifc p. st_ifaces s i = Some ifc \<longrightarrow> if_target ifc = Some p \<longrightarrow> st_targets s p \<noteq> None) \<and>
     (\<forall>p t. st_targets s p = Some t \<longrightarrow> target_wired s t)"

lemma tree_values: "snd ` set (g_tree_insert cmp t k v) \<subseteq> insert v (snd ` set t)"
proof (induction t)
  case (Cons a t)
  then show ?case by (cases a) auto
qed simp

text \<open>Objects that are only added keep the references live.\<close>

definition extends :: "hb_state \<Rightarrow> hb_state \<Rightarrow> bool" where
  "extends s s' \<longleftrightarrow> dom (st_ifaces s) \<subseteq> dom (st_ifaces s') \<and> (\<forall>q. placed s q \<longrightarrow> placed s' q)"

lemma extends_target: "extends s s' \<Longrightarrow> target_wired s t \<Longrightarrow> target_wired s' t"
  unfolding extends_def target_wired_def by blast

lemma extends_put:
  "extends s (put_target p t s)" "placed (put_handler q h s) q \<Longrightarrow> extends s (put_handler q h s)"
  by (auto simp: extends_def placed_def put_target_def put_handler_def)

lemma placed_put_handler:
  "placed (put_handler q h s) q \<longleftrightarrow> hd_ip h \<noteq> None \<and> hd_mac h \<noteq> None \<and> (\<exists>i ifc. hd_iface h = Some i \<and> st_ifaces s i = Some ifc)"
  by (auto simp: placed_def put_handler_def)

lemma wired_put_target:
  assumes "wired s" and "target_wired s t"
  shows "wired (put_target p t s)"
proof -
  have "target_wired (put_target p t s) t'" if "target_wired s t'" for t'
    using extends_target [OF extends_put(1) that] .
  with assms show ?thesis by (auto simp: wired_def put_target_def)
qed

lemma wired_put_handler:
  assumes "wired s" and "placed (put_handler q h s) q"
  shows "wired (put_handler q h s)"
  using assms extends_target [OF extends_put(2) [OF assms(2)]] by (auto simp: wired_def put_handler_def)

lemma wired_irrelevant [simp]:
  "wired (s\<lparr>st_next := n\<rparr>) = wired s" "wired (s\<lparr>target_counter := m\<rparr>) = wired s"
  "target_wired (s\<lparr>target_counter := m\<rparr>) t = target_wired s t" "target_wired s (t\<lparr>tg_targetID := m\<rparr>) = target_wired s t"
  by (simp_all add: wired_def target_wired_def placed_def handlers_of_def)

lemma wired_targets: "wired s \<Longrightarrow> snd ` set T \<subseteq> dom (st_targets s) \<Longrightarrow> wired (s\<lparr>targets := T\<rparr>)"
  by (simp add: wired_def target_wired_def placed_def)

lemma wired_target: "wired s \<Longrightarrow> get_target s p = Inr t \<Longrightarrow> target_wired s t"
  by (auto simp: wired_def get_target_def deref_eq_Inr)

lemma wired_add_target:
  assumes "add_target s (Some p) = Inr (r, s')" and "wired s"
  shows "wired s'"
proof -
  let ?n = "target_counter s + 1"
  from assms(1) obtain t where t: "get_target s p = Inr t" by (auto simp: add_target_def elim!: rbindE)
  let ?s = "put_target p (t\<lparr>tg_targetID := ?n\<rparr>) (s\<lparr>target_counter := ?n\<rparr>)"
  have w: "wired ?s" using assms(2) wired_target [OF assms(2) t] by (simp add: wired_put_target)
  have "s' = ?s \<or> s' = ?s\<lparr>targets := g_tree_insert intcmp (targets ?s) ?n p\<rparr>"
    using assms(1) t by (auto simp: add_target_def Let_def split: if_split_asm)
  moreover have "snd ` set (g_tree_insert intcmp (targets ?s) ?n p) \<subseteq> dom (st_targets ?s)"
    by (rule order_trans [OF tree_values]) (use assms(2) in \<open>auto simp: wired_def put_target_def\<close>)
  ultimately show ?thesis using w wired_targets by auto
qed

lemma wired_add_handler:
  assumes "wired s" and "placed s q" and "get_target s p = Inr t" and "handlers_of t' \<subseteq> insert q (handlers_of t)"
    and "tg_default_route t' = tg_default_route t" "tg_default_route_mac t' = tg_default_route_mac t"
  shows "wired (put_target p t' s)"
  using assms wired_target [OF assms(1,3)] by (intro wired_put_target) (auto simp: target_wired_def)

lemma wired_add_back_handler:
  assumes "add_back_handler s (Some p) (Some q) = Inr (r, s')" and "wired s" and "placed s q"
  shows "wired s'"
proof -
  from assms(1) obtain t h where t: "get_target s p = Inr t" "st_handlers s q = Some h"
    by (auto simp: add_back_handler_def get_handler_def deref_eq_Inr elim!: rbindE)
  let ?n = "tg_back_handler_count t + 1"
  let ?t = "t\<lparr>tg_back_handler_count := ?n, tg_back_handlers := g_tree_insert intcmp (tg_back_handlers t) ?n q\<rparr>"
  have s': "s' = put_handler q (h\<lparr>hd_ID := ?n\<rparr>) (put_target p ?t s)"
    using assms(1) t by (simp add: add_back_handler_def get_handler_def Let_def)
  have "wired (put_target p ?t s)" using tree_values [of intcmp "tg_back_handlers t" ?n q]
    by (intro wired_add_handler [OF assms(2,3) t(1)]) (auto simp: handlers_of_def)
  with assms(3) t show ?thesis unfolding s' by (intro wired_put_handler) (auto simp: placed_def put_handler_def put_target_def)
qed

lemma wired_add_intra_handler:
  assumes "add_intra_handler E s (Some p) ip (Some q) = Inr (r, s')" and "wired s" and "placed s q"
  shows "wired s'"
proof (cases "s' = s")
  case False
  with assms(1) obtain t h where t: "get_target s p = Inr t" "st_handlers s q = Some h"
    by (auto simp: add_intra_handler_def get_handler_def deref_eq_Inr elim!: rbindE split: if_split_asm)
  let ?t = "t\<lparr>tg_intra_handlers_list := tg_intra_handlers_list t @ [q],
    tg_intra_handlers := g_tree_insert (ev_addr_cmp E) (tg_intra_handlers t) ip q\<rparr>"
  have s': "s' = put_handler q (h\<lparr>hd_intra_target_ips := hd_intra_target_ips h @ [ip]\<rparr>) (put_target p ?t s)"
    using assms(1) t False by (auto simp: add_intra_handler_def get_handler_def split: if_split_asm)
  have "wired (put_target p ?t s)" using tree_values [of "ev_addr_cmp E" "tg_intra_handlers t" ip q]
    by (intro wired_add_handler [OF assms(2,3) t(1)]) (auto simp: handlers_of_def)
  with assms(3) t show ?thesis unfolding s' by (intro wired_put_handler) (auto simp: placed_def put_handler_def put_target_def)
qed (use assms in simp)

lemma wired_link: "wired hb \<Longrightarrow> links hb tag = Some i \<Longrightarrow> \<exists>ifc. st_ifaces hb i = Some ifc"
  unfolding wired_def by (blast intro: ranI)

lemma load_place_ok:
  assumes "load_place L s pl = Inr h" and "wired (ls_hb s)"
  shows "hd_ip h \<noteq> None" "hd_mac h \<noteq> None" "\<exists>i ifc. hd_iface h = Some i \<and> st_ifaces (ls_hb s) i = Some ifc"
  using assms
  by (auto simp: load_place_def link_lookup_def valid_eq_Inr dest: wired_link elim!: rbindE)

lemma new_handler_wired:
  assumes "new_handler s h = (q, hb)" and "wired (ls_hb s)" and "hd_ip h \<noteq> None" "hd_mac h \<noteq> None"
    and "\<exists>i ifc. hd_iface h = Some i \<and> st_ifaces (ls_hb s) i = Some ifc"
  shows "wired hb" "placed hb q" "st_targets hb = st_targets (ls_hb s)"
proof -
  have hb: "hb = put_handler q h ((ls_hb s)\<lparr>st_next := st_next (ls_hb s) + 1\<rparr>)"
    using assms(1) by (auto simp: new_handler_def alloc_def)
  with assms(3-) show p: "placed hb q" by (auto simp: placed_put_handler)
  show "wired hb" using assms(2) p unfolding hb by (intro wired_put_handler) simp_all
  show "st_targets hb = st_targets (ls_hb s)" by (simp add: hb put_handler_def)
qed

lemma load_tree_wired:
  assumes "load_tree L s p e f = Inr s'" and "wired (ls_hb s)"
    and "\<And>n t. handlers_of (f n t) = handlers_of t \<and> tg_default_route (f n t) = tg_default_route t \<and>
      tg_default_route_mac (f n t) = tg_default_route_mac t"
  shows "wired (ls_hb s')"
proof -
  from assms(1) obtain n t where t: "get_target (ls_hb s) p = Inr t" "s' = s\<lparr>ls_hb := put_target p (f n t) (ls_hb s)\<rparr>"
    by (auto simp: load_tree_def elim!: rbindE)
  then show ?thesis using assms(2,3) wired_target [OF assms(2) t(1)] by (auto simp: target_wired_def intro: wired_put_target)
qed

lemma get_target_same: "st_targets hb = st_targets hb' \<Longrightarrow> get_target hb p = get_target hb' p"
  by (simp add: get_target_def)

lemma load_frontend_wired:
  assumes "load_clause E L s p (Frontend pl) = Inr s'" and "wired (ls_hb s)"
  shows "wired (ls_hb s')"
proof -
  from assms(1) obtain h t q hb where h: "load_place L s pl = Inr h" and t: "get_target (ls_hb s) p = Inr t"
    and n: "new_handler s h = (q, hb)" and s': "s' = s\<lparr>ls_hb := put_target p (t\<lparr>tg_front_handler := Some q\<rparr>) hb\<rparr>"
    by (auto elim!: rbindE split: prod.split_asm)
  note w = new_handler_wired [OF n assms(2) load_place_ok [OF h assms(2)]]
  have "get_target hb p = Inr t" using t get_target_same [OF w(3)] by simp
  from wired_add_handler [OF w(1,2) this, of "t\<lparr>tg_front_handler := Some q\<rparr>"] show ?thesis by (auto simp: s' handlers_of_def)
qed

lemma load_backend_wired:
  assumes "load_clause E L s p (Backend pl) = Inr s'" and "wired (ls_hb s)"
  shows "wired (ls_hb s')"
proof -
  from assms(1) obtain h t q hb hb1 r where h: "load_place L s pl = Inr h" and t: "get_target (ls_hb s) p = Inr t"
    and n: "new_handler s h = (q, hb)" and s': "add_back_handler hb1 (Some p) (Some q) = Inr (r, ls_hb s')"
    and hb1: "hb1 = hb \<or> hb1 = put_target p (t\<lparr>tg_back_handler_count := tg_back_handler_count t + 1\<rparr>) hb"
    by (auto elim!: rbindE split: prod.split_asm if_split_asm)
  note w = new_handler_wired [OF n assms(2) load_place_ok [OF h assms(2)]]
  have t': "get_target hb p = Inr t" using t get_target_same [OF w(3)] by simp
  have "wired hb1" "placed hb1 q"
    using hb1 w(1,2) wired_add_handler [OF w(1,2) t', of "t\<lparr>tg_back_handler_count := tg_back_handler_count t + 1\<rparr>"]
    by (auto simp: handlers_of_def placed_def put_target_def)
  then show ?thesis by (rule wired_add_back_handler [OF s'])
qed

lemma load_internal_wired:
  assumes "load_clause E L s p (Internal ip pl) = Inr s'" and "wired (ls_hb s)"
  shows "wired (ls_hb s')"
proof -
  from assms(1) obtain h q hb r a where h: "load_place L s pl = Inr h"
    and n: "new_handler s (h\<lparr>hd_exclusive := 1\<rparr>) = (q, hb)" and s': "add_intra_handler E hb (Some p) a (Some q) = Inr (r, ls_hb s')"
    by (auto elim!: rbindE split: prod.split_asm)
  have "wired hb" "placed hb q"
    using new_handler_wired [OF n assms(2)] load_place_ok [OF h assms(2)] by simp_all
  then show ?thesis by (rule wired_add_intra_handler [OF s'])
qed

text \<open>The clauses that only set a rule of the target.\<close>

definition keeps_handlers :: "(node option \<Rightarrow> target \<Rightarrow> target) \<Rightarrow> bool" where
  "keeps_handlers f \<longleftrightarrow> (\<forall>n t. tg_front_handler (f n t) = tg_front_handler t \<and> tg_back_handlers (f n t) = tg_back_handlers t \<and>
     tg_intra_handlers (f n t) = tg_intra_handlers t \<and> tg_intra_handlers_list (f n t) = tg_intra_handlers_list t \<and>
     tg_default_route (f n t) = tg_default_route t \<and> tg_default_route_mac (f n t) = tg_default_route_mac t)"

lemma load_clause_cases:
  assumes "load_clause E L s p c = Inr s'"
  obtains (Front) pl where "c = Frontend pl" | (Back) pl where "c = Backend pl" | (Intra) ip pl where "c = Internal ip pl"
    | (Tree) e f where "load_tree L s p e f = Inr s'" "keeps_handlers f"
  using assms by (cases c) (auto simp: keeps_handlers_def)

lemma load_clause_wired:
  assumes "load_clause E L s p c = Inr s'" and "wired (ls_hb s)"
  shows "wired (ls_hb s')"
  using assms(1)
proof (cases rule: load_clause_cases)
  case (Tree e f)
  show ?thesis by (rule load_tree_wired [OF Tree(1) assms(2)]) (use Tree(2) in \<open>simp add: keeps_handlers_def handlers_of_def\<close>)
qed (use assms load_frontend_wired load_backend_wired load_internal_wired in blast)+

lemma load_clauses_wired: "load_clauses E L s p cs = Inr s' \<Longrightarrow> wired (ls_hb s) \<Longrightarrow> wired (ls_hb s')"
  by (induction cs arbitrary: s) (auto elim!: rbindE dest: load_clause_wired)

lemma load_route_wired:
  assumes "load_route L s p r = Inr hb" and "wired (ls_hb s)"
  shows "wired hb"
proof (cases r)
  case (Some x)
  obtain l mac src where x: "x = Route l mac src" by (cases x)
  from assms(1) Some x obtain m a i ifc t where i: "st_ifaces (ls_hb s) i = Some ifc" and t: "get_target (ls_hb s) p = Inr t"
    and hb: "hb = put_target p (t\<lparr>tg_default_route := Some i, tg_default_route_ip := a, tg_default_route_mac := Some m\<rparr>)
      ((ls_hb s)\<lparr>st_ifaces := (st_ifaces (ls_hb s))(i \<mapsto> ifc\<lparr>if_target := Some p\<rparr>)\<rparr>)"
    by (auto simp: get_iface_def deref_eq_Inr elim!: rbindE)
  let ?s = "(ls_hb s)\<lparr>st_ifaces := (st_ifaces (ls_hb s))(i \<mapsto> ifc\<lparr>if_target := Some p\<rparr>)\<rparr>"
  have e: "extends (ls_hb s) ?s" using i by (auto simp: extends_def placed_def) metis
  have "wired ?s" using assms(2) t extends_target [OF e] by (auto simp: wired_def get_target_def deref_eq_Inr)
  moreover have "target_wired ?s t" using extends_target [OF e wired_target [OF assms(2) t]] .
  ultimately show ?thesis unfolding hb by (intro wired_put_target) (auto simp: target_wired_def handlers_of_def)
qed (use assms in simp)

lemma load_target_wired:
  assumes "load_target E L s r cs = Inr s'" and "wired (ls_hb s)"
  shows "wired (ls_hb s')"
proof -
  from assms(1) obtain p hb0 s1 hb x where a: "alloc (ls_hb s) = (p, hb0)"
    and c: "load_clauses E L (s\<lparr>ls_hb := put_target p zero_target hb0\<rparr>) p cs = Inr s1"
    and r: "load_route L s1 p r = Inr hb" and t: "add_target hb (Some p) = Inr (x, ls_hb s')"
    by (auto simp: load_target_def elim!: rbindE split: prod.split_asm)
  have "wired (put_target p zero_target hb0)" using a assms(2)
    by (intro wired_put_target) (auto simp: alloc_def target_wired_def handlers_of_def zero_target_def)
  with load_clauses_wired [OF c] load_route_wired [OF r] wired_add_target [OF t] show ?thesis by simp
qed

lemma load_link_settings_target: "load_link_settings i ls = Inr i' \<Longrightarrow> if_target i' = if_target i"
proof (induction ls arbitrary: i)
  case (Cons l ls)
  then show ?case by (cases l) (auto elim!: rbindE split: if_split_asm)
qed simp

text \<open>A link defined once only adds an interface.\<close>

lemma load_link_wired:
  assumes "load_link s tag ls = Inr s'" and "wired (ls_hb s)" and "links (ls_hb s) tag = None"
  shows "wired (ls_hb s')" "links (ls_hb s') = (links (ls_hb s))(tag \<mapsto> st_next (ls_hb s))"
    "ls_freed_tags s' = ls_freed_tags s"
proof -
  let ?hb = "ls_hb s" let ?p = "st_next ?hb"
  from assms(1,3) obtain i where i: "load_link_settings zero_iface ls = Inr i"
    and s': "s' = s\<lparr>ls_hb := ?hb\<lparr>st_next := ?p + 1, links := (links ?hb)(tag \<mapsto> ?p),
      st_ifaces := (st_ifaces ?hb)(?p \<mapsto> i\<lparr>if_tag := tag\<rparr>)\<rparr>\<rparr>"
    by (auto simp: load_link_def link_lookup_def alloc_def Let_def elim!: rbindE)
  have e: "extends ?hb (ls_hb s')" by (auto simp: s' extends_def placed_def) metis
  have "if_target i = None" using load_link_settings_target [OF i] by (simp add: zero_iface_def)
  with assms(2) extends_target [OF e] show "wired (ls_hb s')"
    by (auto simp: s' wired_def ran_def)
  show "links (ls_hb s') = (links ?hb)(tag \<mapsto> ?p)" "ls_freed_tags s' = ls_freed_tags s" by (simp_all add: s')
qed


text \<open>The names of the links, in the order they are defined.\<close>

fun link_names :: "statement list \<Rightarrow> string list" where
  "link_names [] = []"
| "link_names (SLink tag _ # xs) = tag # link_names xs"
| "link_names (_ # xs) = link_names xs"

text \<open>Nothing but a link changes the table of links.\<close>

definition links_kept :: "load_state \<Rightarrow> load_state \<Rightarrow> bool" where
  "links_kept s s' \<longleftrightarrow> links (ls_hb s') = links (ls_hb s) \<and> ls_freed_tags s' = ls_freed_tags s"

lemma add_links:
  "add_target hb t = Inr (r, hb') \<Longrightarrow> links hb' = links hb \<and> st_ifaces hb' = st_ifaces hb" "add_back_handler hb t h = Inr (r, hb') \<Longrightarrow> links hb' = links hb \<and> st_ifaces hb' = st_ifaces hb"
  "add_intra_handler E hb t ip h = Inr (r, hb') \<Longrightarrow> links hb' = links hb \<and> st_ifaces hb' = st_ifaces hb"
  by (auto simp: add_target_def add_back_handler_def add_intra_handler_def Let_def put_target_def put_handler_def
      elim!: rbindE split: option.split_asm if_split_asm)

lemma load_parts_links:
  "new_handler s h = (q, hb) \<Longrightarrow> links hb = links (ls_hb s) \<and> st_ifaces hb = st_ifaces (ls_hb s)" "load_tree L s p e f = Inr s' \<Longrightarrow> links_kept s s'"
  "load_route L s p r = Inr hb \<Longrightarrow> links hb = links (ls_hb s)"
  subgoal by (auto simp: new_handler_def alloc_def put_handler_def)
  subgoal by (auto simp: load_tree_def links_kept_def put_target_def elim!: rbindE)
  subgoal by (cases "(L, s, p, r)" rule: load_route.cases) (auto simp: put_target_def elim!: rbindE)
  done

lemma load_clause_links: "load_clause E L s p c = Inr s' \<Longrightarrow> links_kept s s'"
  by (cases c; auto simp: links_kept_def put_target_def elim!: rbindE split: prod.split_asm if_split_asm
      dest!: add_links load_parts_links(1); (drule load_parts_links(2))?; auto simp: links_kept_def)

lemma load_clauses_links: "load_clauses E L s p cs = Inr s' \<Longrightarrow> links_kept s s'"
  by (induction cs arbitrary: s) (auto simp: links_kept_def elim!: rbindE dest!: load_clause_links)

lemma load_statement_links:
  assumes "load_statement E L s x = Inr s'" and "link_names [x] = []"
  shows "links_kept s s'"
proof (cases x)
  case (STarget r cs)
  with assms(1) show ?thesis
    by (auto simp: load_target_def alloc_def links_kept_def put_target_def elim!: rbindE
        dest!: load_clauses_links load_parts_links(3) add_links(1))
qed (use assms in \<open>auto simp: links_kept_def load_module_def Let_def elim!: rbindE\<close>)

lemma load_statements_wired:
  "load_statements E L s xs = Inr s' \<Longrightarrow> wired (ls_hb s) \<Longrightarrow> distinct (link_names xs) \<Longrightarrow>
     set (link_names xs) \<inter> dom (links (ls_hb s)) = {} \<Longrightarrow> wired (ls_hb s') \<and> ls_freed_tags s' = ls_freed_tags s"
proof (induction xs arbitrary: s)
  case (Cons x xs)
  from Cons.prems(1) obtain s1 where 1: "load_statement E L s x = Inr s1" "load_statements E L s1 xs = Inr s'"
    by (auto elim!: rbindE)
  have "wired (ls_hb s1) \<and> ls_freed_tags s1 = ls_freed_tags s \<and> set (link_names xs) \<inter> dom (links (ls_hb s1)) = {} \<and>
      distinct (link_names xs)"
  proof (cases x)
    case (SLink tag ls)
    with 1(1) Cons.prems load_link_wired [of s tag ls s1] show ?thesis by (auto split: if_split_asm)
  next
    case (STarget r cs)
    with 1(1) Cons.prems load_target_wired [of E L s r cs s1] load_statement_links [OF 1(1)] show ?thesis by (auto simp: links_kept_def)
  qed (use 1(1) Cons.prems load_statement_links [OF 1(1)] in \<open>auto simp: links_kept_def load_module_def Let_def elim!: rbindE\<close>)
  with Cons.IH [OF 1(2)] show ?case by simp
qed simp

section \<open>The numbers of the back handlers\<close>

fun backend_numbers :: "u64 \<Rightarrow> clause list \<Rightarrow> u64 list" where
  "backend_numbers n [] = []"
| "backend_numbers n (Backend pl # cs) =
     (let m = (if pl_rule pl = None then n + 1 else n + 2) in m # backend_numbers m cs)"
| "backend_numbers n (_ # cs) = backend_numbers n cs"

lemma tree_front: "\<forall>k' \<in> fst ` set t. cmp k k' < 0 \<Longrightarrow> g_tree_insert cmp t k v = (k, v) # t"
  by (cases "(cmp, t, k, v)" rule: g_tree_insert.cases) auto

lemma add_back_handler_numbers:
  assumes "add_back_handler s (Some p) (Some q) = Inr (r, s')" and "st_targets s p = Some t"
  shows "\<exists>t'. st_targets s' p = Some t' \<and> tg_back_handler_count t' = tg_back_handler_count t + 1 \<and>
    tg_back_handlers t' = g_tree_insert intcmp (tg_back_handlers t) (tg_back_handler_count t + 1) q"
  using assms
  by (auto simp: add_back_handler_def get_target_def Let_def put_target_def put_handler_def elim!: rbindE)

lemma load_backend_numbers:
  assumes "load_clause E L s p (Backend pl) = Inr s'" and "st_targets (ls_hb s) p = Some t"
  shows "\<exists>t' q. st_targets (ls_hb s') p = Some t' \<and>
    tg_back_handler_count t' = tg_back_handler_count t + (if pl_rule pl = None then 1 else 2) \<and>
    tg_back_handlers t' = g_tree_insert intcmp (tg_back_handlers t) (tg_back_handler_count t') q"
proof -
  from assms(1) obtain h q hb hb1 r where n: "new_handler s h = (q, hb)"
    and a: "add_back_handler hb1 (Some p) (Some q) = Inr (r, ls_hb s')"
    and hb1: "hb1 = (if pl_rule pl = None then hb else put_target p (t\<lparr>tg_back_handler_count := tg_back_handler_count t + 1\<rparr>) hb)"
    using assms(2) by (auto simp: get_target_def elim!: rbindE split: prod.split_asm if_split_asm)
  have "st_targets hb p = Some t" using n assms(2) by (auto simp: new_handler_def alloc_def put_handler_def)
  then obtain t1 where t1: "st_targets hb1 p = Some t1" "tg_back_handlers t1 = tg_back_handlers t"
    "tg_back_handler_count t1 = tg_back_handler_count t + (if pl_rule pl = None then 0 else 1)"
    using hb1 by (cases "pl_rule pl") (auto simp: put_target_def)
  from add_back_handler_numbers [OF a t1(1)] t1(2,3) show ?thesis by (auto simp: add.assoc)
qed

lemma load_clause_numbers:
  assumes "load_clause E L s p c = Inr s'" and "st_targets (ls_hb s) p = Some t" and "backend_numbers 0 [c] = []"
  shows "\<exists>t'. st_targets (ls_hb s') p = Some t' \<and> tg_back_handler_count t' = tg_back_handler_count t \<and>
    tg_back_handlers t' = tg_back_handlers t"
proof (cases c)
  case (Internal ip pl)
  with assms show ?thesis
  by (auto simp: new_handler_def alloc_def add_intra_handler_def get_target_def get_handler_def deref_eq_Inr
      put_target_def put_handler_def elim!: rbindE split: if_split_asm)
qed (use assms in \<open>auto simp: load_tree_def new_handler_def alloc_def get_target_def deref_eq_Inr put_target_def put_handler_def Let_def
  elim!: rbindE\<close>)

lemma intcmp_less: "unat a < unat b \<Longrightarrow> unat b < 2 ^ 32 \<Longrightarrow> intcmp b a < 0"
  by (auto simp: intcmp_def word_less_nat_alt unsigned_ucast_eq take_bit_nat_eq_self dest!: arg_cong [where f = unat])

lemma load_clauses_numbers:
  assumes "load_clauses E L s p cs = Inr s'" and "st_targets (ls_hb s) p = Some t"
    and "\<forall>k \<in> fst ` set (tg_back_handlers t). unat k \<le> unat (tg_back_handler_count t)"
    and "unat (tg_back_handler_count t) + 2 * length cs < 2 ^ 32" and "int_tree.ordered (tg_back_handlers t)"
  shows "\<exists>t'. st_targets (ls_hb s') p = Some t' \<and> int_tree.ordered (tg_back_handlers t') \<and>
    map fst (tg_back_handlers t') = rev (backend_numbers (tg_back_handler_count t) cs) @ map fst (tg_back_handlers t)"
  using assms
proof (induction cs arbitrary: s t)
  case (Cons c cs)
  from Cons.prems(1) obtain s1 where 1: "load_clause E L s p c = Inr s1" "load_clauses E L s1 p cs = Inr s'"
    by (auto elim!: rbindE)
  let ?n = "tg_back_handler_count t"
  show ?case
  proof (cases "\<exists>pl. c = Backend pl")
    case True
    then obtain pl where c: "c = Backend pl" by blast
    let ?d = "if pl_rule pl = None then 1 else 2"
    from load_backend_numbers [OF 1(1) [unfolded c] Cons.prems(2)] obtain t1 q where t1: "st_targets (ls_hb s1) p = Some t1"
      "tg_back_handler_count t1 = ?n + ?d" "tg_back_handlers t1 = g_tree_insert intcmp (tg_back_handlers t) (?n + ?d) q"
      by auto
    have d: "unat (?n + ?d) = unat ?n + unat (?d :: u64)" "unat ?n < unat (?n + ?d)"
      using Cons.prems(4) by (auto simp: unat_word_ariths)
    have "unat (?n + ?d) < 2 ^ 32" using d(1) Cons.prems(4) by (auto split: if_splits)
    with d(2) Cons.prems(3) have f: "tg_back_handlers t1 = (?n + ?d, q) # tg_back_handlers t"
      unfolding t1(3) by (intro tree_front) (auto intro!: intcmp_less)
    have "\<forall>k \<in> fst ` set (tg_back_handlers t1). unat k \<le> unat (tg_back_handler_count t1)"
      using Cons.prems(3) d(2) unfolding f t1(2) by fastforce
    moreover have "unat (tg_back_handler_count t1) + 2 * length cs < 2 ^ 32"
      using Cons.prems(4) d(1) unfolding t1(2) by (auto split: if_splits)
    moreover have "int_tree.ordered (tg_back_handlers t1)" using Cons.prems(5) unfolding t1(3) by (rule int_tree.ordered_insert)
    ultimately show ?thesis using Cons.IH [OF 1(2) t1(1)] c f t1(2) by (auto simp: Let_def)
  next
    case False
    then have b: "backend_numbers n (c # cs) = backend_numbers n cs" "backend_numbers 0 [c] = []" for n by (cases c; auto)+
    from load_clause_numbers [OF 1(1) Cons.prems(2) b(2)] obtain t1 where "st_targets (ls_hb s1) p = Some t1"
      "tg_back_handler_count t1 = ?n" "tg_back_handlers t1 = tg_back_handlers t" by auto
    with Cons.IH [OF 1(2), of t1] Cons.prems b(1) show ?thesis by simp
  qed
qed simp

lemma add_target_numbers:
  "add_target hb (Some p) = Inr (x, hb') \<Longrightarrow> st_targets hb p = Some t \<Longrightarrow> st_targets hb' p = Some (t\<lparr>tg_targetID := target_counter hb + 1\<rparr>)"
  by (auto simp: add_target_def get_target_def put_target_def Let_def split: if_split_asm)

lemma load_target_numbers:
  assumes "load_target E L s r cs = Inr s'" and "length cs < 2 ^ 30" and "st_targets (ls_hb s') (st_next (ls_hb s)) = Some t"
  shows "map fst (tg_back_handlers t) = rev (backend_numbers 0 cs)" "int_tree.ordered (tg_back_handlers t)"
proof -
  let ?p = "st_next (ls_hb s)"
  from assms(1) obtain hb0 s1 hb x where hb0: "hb0 = put_target ?p zero_target ((ls_hb s)\<lparr>st_next := ?p + 1\<rparr>)"
    and c: "load_clauses E L (s\<lparr>ls_hb := hb0\<rparr>) ?p cs = Inr s1"
    and r: "load_route L s1 ?p r = Inr hb" and a: "add_target hb (Some ?p) = Inr (x, ls_hb s')"
    by (auto simp: load_target_def alloc_def elim!: rbindE)
  have z: "st_targets hb0 ?p = Some zero_target" by (simp add: hb0 put_target_def)
  from load_clauses_numbers [OF c, of zero_target] z assms(2) obtain t1 where
    t1: "st_targets (ls_hb s1) ?p = Some t1" "map fst (tg_back_handlers t1) = rev (backend_numbers 0 cs)"
      "int_tree.ordered (tg_back_handlers t1)"
    by (auto simp: zero_target_def)
  obtain t2 where t2: "st_targets hb ?p = Some t2" "tg_back_handlers t2 = tg_back_handlers t1"
    using r t1(1) by (cases "(L, s1, ?p, r)" rule: load_route.cases)
      (auto simp: get_target_def put_target_def elim!: rbindE)
  have "tg_back_handlers t = tg_back_handlers t2"
    using add_target_numbers [OF a t2(1)] assms(3) by simp
  with t1 t2 show "map fst (tg_back_handlers t) = rev (backend_numbers 0 cs)" "int_tree.ordered (tg_back_handlers t)" by simp_all
qed

fun backends :: "clause list \<Rightarrow> place list" where
  "backends [] = []"
| "backends (Backend pl # cs) = pl # backends cs"
| "backends (_ # cs) = backends cs"

lemma backends_length: "length (backends cs) \<le> length cs"
  by (induction cs rule: backends.induct) auto

lemma numbers_plain:
  "list_all (\<lambda>pl. pl_rule pl = None) (backends cs) \<Longrightarrow> backend_numbers n cs = map (\<lambda>i. n + word_of_nat (Suc i)) [0..<length (backends cs)]"
proof (induction n cs rule: backend_numbers.induct)
  case (2 n pl cs)
  then show ?case by (simp add: Let_def upt_conv_Cons map_Suc_upt [symmetric] ac_simps del: upt_Suc)
qed auto

lemma numbers_ruled:
  "list_all (\<lambda>pl. pl_rule pl \<noteq> None) (backends cs) \<Longrightarrow> backend_numbers n cs = map (\<lambda>i. n + word_of_nat (2 * Suc i)) [0..<length (backends cs)]"
proof (induction n cs rule: backend_numbers.induct)
  case (2 n pl cs)
  then show ?case by (simp add: Let_def upt_conv_Cons map_Suc_upt [symmetric] ac_simps del: upt_Suc)
qed auto

lemma loaded_numbers:
  assumes "load_target E L s r cs = Inr s'" and "length cs < 2 ^ 30" and "st_targets (ls_hb s') (st_next (ls_hb s)) = Some t"
  shows "list_all (\<lambda>pl. pl_rule pl = None) (backends cs) \<Longrightarrow>
      map fst (tg_back_handlers t) = rev (map (\<lambda>i. word_of_nat (Suc i)) [0..<length (tg_back_handlers t)])"
    "list_all (\<lambda>pl. pl_rule pl \<noteq> None) (backends cs) \<Longrightarrow>
      map fst (tg_back_handlers t) = rev (map (\<lambda>i. word_of_nat (2 * Suc i)) [0..<length (tg_back_handlers t)])"
    "length (tg_back_handlers t) < 2 ^ 30"
proof -
  note n = load_target_numbers(1) [OF assms] 
  have l: "length (backend_numbers m cs) = length (backends cs)" for m
    by (induction m cs rule: backend_numbers.induct) (auto simp: Let_def)
  from arg_cong [OF n, of length] l have k: "length (tg_back_handlers t) = length (backends cs)" by simp
  with assms(2) backends_length [of cs] show "length (tg_back_handlers t) < 2 ^ 30" by simp
  show "list_all (\<lambda>pl. pl_rule pl = None) (backends cs) \<Longrightarrow>
      map fst (tg_back_handlers t) = rev (map (\<lambda>i. word_of_nat (Suc i)) [0..<length (tg_back_handlers t)])"
    unfolding n k by (simp add: numbers_plain)
  show "list_all (\<lambda>pl. pl_rule pl \<noteq> None) (backends cs) \<Longrightarrow>
      map fst (tg_back_handlers t) = rev (map (\<lambda>i. word_of_nat (2 * Suc i)) [0..<length (tg_back_handlers t)])"
    unfolding n k by (simp add: numbers_ruled)
qed


lemma unat_ucast_small: "k < 2 ^ 32 \<Longrightarrow> unat (ucast (word_of_nat k :: u64) :: u32) = k"
  by (simp add: unsigned_ucast_eq unat_of_nat take_bit_nat_eq_self)

lemma ruled_odd:
  assumes "map fst t = rev (map (\<lambda>i. word_of_nat (2 * Suc i)) [0..<length t])" and "length t < 2 ^ 30"
    and "odd k" and "k < 2 ^ 32"
  shows "g_tree_lookup intcmp t (word_of_nat k) = None"
proof (cases "g_tree_lookup intcmp t (word_of_nat k)")
  case (Some v)
  then obtain k' where k': "intcmp (word_of_nat k) k' = 0" "(k', v) \<in> set t" by (blast dest: int_tree.lookup_mem)
  from k'(2) have "k' \<in> set (map fst t)" by force
  then obtain i where i: "i < length t" "k' = word_of_nat (2 * Suc i)" unfolding assms(1) by auto
  have "unat (ucast (word_of_nat k :: u64) :: u32) = unat (ucast (word_of_nat (2 * Suc i) :: u64) :: u32)"
    using k'(1) i(2) by (simp only: intcmp_0)
  moreover have "2 * Suc i < 2 ^ 32" using i(1) assms(2) by simp
  ultimately have "k = 2 * Suc i" using assms(4) by (simp only: unat_ucast_small)
  with assms(3) show ?thesis by simp
qed simp

section \<open>A configuration\<close>

definition ex_load_env :: load_env where
  "ex_load_env = \<lparr>ld_ip = (\<lambda>_. Some 7), ld_mac = (\<lambda>_. Some 2), ld_ntoa = (\<lambda>_. ''7.0.0.0''), ld_or_split = (\<lambda>x. [x]),
     ld_and_split = (\<lambda>x. [x])\<rparr>"

definition ex_place :: "equation option \<Rightarrow> place" where
  "ex_place e = Place ''up'' ''7.0.0.0'' ''02:00'' [] [] e"

definition ex_clauses :: "equation option \<Rightarrow> clause list" where
  "ex_clauses e = [Frontend (ex_place None), Backpick [IWord ''pick''], Backend (ex_place e), Backend (ex_place e)]"

definition ex_statements :: "equation option \<Rightarrow> statement list" where
  "ex_statements e = [SConfig [(''output'', PNumber 2), (''decision_threads'', PNumber 4), (''exec_directory'', PExpr ''/var/run'')],
     SLink ''up'' [LName ''interface'' ''eth0''], SModule ''pick'' [(''function'', MWord ''backpick_random'')],
     STarget (Some (Route ''up'' ''02:01'' None)) (ex_clauses e)]"

definition ex_start :: load_state where
  "ex_start = \<lparr>ls_hb = ex_state\<lparr>st_ifaces := Map.empty, st_handlers := Map.empty, st_targets := Map.empty, targets := [],
     links := Map.empty, target_counter := 0\<rparr>, ls_config = Map.empty, ls_modules = Map.empty, ls_freed_tags = {}\<rparr>"

definition ex_linked :: load_state where
  "ex_linked = ex_start\<lparr>ls_hb := (ls_hb ex_start)\<lparr>st_next := 101, st_ifaces := [100 \<mapsto> zero_iface\<lparr>if_name := Some ''eth0'', if_tag := ''up''\<rparr>],
     links := [''up'' \<mapsto> 100]\<rparr>, ls_modules := [''pick'' \<mapsto> [''function'' \<mapsto> CfgString ''backpick_random'']]\<rparr>"

lemma ex_subtree: "DE_build_subtree (\<lambda>x. [x]) modules e = make_node modules e None"
  unfolding DE_build_subtree_def by (subst build_subtree.simps) simp

definition ex_picker :: node where
  "ex_picker = Node (Some MOD_BACKPICK_RANDOM) [''function'' \<mapsto> CfgString ''backpick_random''] ''pick'' ''backpick_random'' None None"

lemma ex_load_rule:
  assumes "ls_modules s = ls_modules ex_linked"
  shows "load_rule ex_load_env s [IWord ''pick''] = Inr (Some ex_picker)"
  using assms
  by (simp add: ex_linked_def ex_load_env_def load_rule_def DE_create_tree_def ex_subtree make_node_def ex_picker_def
      cfg_string_def get_module_def module_definitions_def equation_text_def)

definition ex_handler :: "node option \<Rightarrow> handler" where
  "ex_handler n = zero_handler\<lparr>hd_iface := Some 100, hd_ip := Some 7, hd_mac := Some 2, hd_rule := n\<rparr>"

lemma ex_load_place:
  assumes "ls_modules s = ls_modules ex_linked" and "ls_freed_tags s = {}" and "links (ls_hb s) ''up'' = Some 100"
  shows "load_place ex_load_env s (ex_place None) = Inr (ex_handler None)"
    "load_place ex_load_env s (ex_place (Some [IWord ''pick''])) = Inr (ex_handler (Some ex_picker))"
  using assms ex_load_rule [OF assms(1)]
  by (simp_all add: load_place_def ex_place_def valid_def link_lookup_def guard_def ex_handler_def zero_handler_def)
    (simp_all add: ex_load_env_def ntohs_def)


lemma ex_place_rule [simp]: "pl_rule (ex_place e) = e"
  by (simp add: ex_place_def)

lemmas ex_load_simps = load_target_def ex_clauses_def alloc_def new_handler_def get_target_def put_target_def put_handler_def
  load_tree_def ex_load_place ex_load_rule zero_target_def add_back_handler_def get_handler_def get_iface_def Let_def guard_def
  link_lookup_def add_target_def intcmp_def

lemma ex_load_target:
  assumes "ls_modules s = ls_modules ex_linked" and "ls_freed_tags s = {}" and "links (ls_hb s) ''up'' = Some 100"
    and "st_ifaces (ls_hb s) 100 = Some i" and "st_next (ls_hb s) = 101" and "e = None \<or> e = Some [IWord ''pick'']"
  shows "\<exists>s' t. load_target ex_env ex_load_env s (Some (Route ''up'' ''02:01'' None)) (ex_clauses e) = Inr s' \<and>
     st_targets (ls_hb s') 101 = Some t \<and> tg_back_picker t = Some ex_picker \<and> length (tg_back_handlers t) = 2"
  using assms(6)
proof
  have v: "valid (Some x) = Inr x" for x :: 'a by (simp add: valid_def)
  have m: "ld_mac ex_load_env x = Some 2" for x by (simp add: ex_load_env_def)
  show ?thesis if "e = None" using assms(1-5) unfolding that by (simp add: ex_load_simps valid_def m)
  show ?thesis if "e = Some [IWord ''pick'']" using assms(1-5) unfolding that by (simp add: ex_load_simps valid_def m)
qed

lemma ex_linked_simps:
  "ls_freed_tags ex_linked = {}" "links (ls_hb ex_linked) ''up'' = Some 100" "st_next (ls_hb ex_linked) = 101"
  "\<exists>i. st_ifaces (ls_hb ex_linked) 100 = Some i" "wired (ls_hb ex_linked)"
  by (simp_all add: ex_linked_def ex_start_def wired_def zero_iface_def ran_def)

section \<open>Theorems\<close>

text \<open>The settings after the start are those of an empty table.\<close>

lemma startup_settings:
  assumes "startup E L s0 file = Inr ls"
  shows "max_packet_buffer (ls_hb ls) = -1" "deny_hih_init (ls_hb ls) = 0" "reset_ext (ls_hb ls) = 0"
    "exclusive_hih (ls_hb ls) = 0" "\<not> broadcast_allowed (ls_hb ls)"
proof -
  from assms obtain config hb where i: "init_variables s0 = Inr (config, hb)" "init_parser E L (load_start config hb) file = Inr ls"
    by (auto simp: startup_def elim!: rbindE)
  have "apart hb (ls_hb ls)" using init_parser_apart [OF i(2)] by (simp add: load_start_def)
  moreover have "max_packet_buffer hb = -1" "deny_hih_init hb = 0" "reset_ext hb = 0" "exclusive_hih hb = 0" "\<not> broadcast_allowed hb"
    using i(1) by (auto simp: init_variables_def ICONFIG_def Let_def)
  ultimately show "max_packet_buffer (ls_hb ls) = -1" "deny_hih_init (ls_hb ls) = 0" "reset_ext (ls_hb ls) = 0"
    "exclusive_hih (ls_hb ls) = 0" "\<not> broadcast_allowed (ls_hb ls)" by (simp_all add: apart_def)
qed

text \<open>C17: A configuration that is written out as text, token by token, is read back by the scanner and the parser as the
  same configuration, as long as its words are no keywords, its numbers fit, and no value looks like a comment.\<close>

theorem configuration_reads_back:
  assumes "list_all token_ok (tokens_configuration ss)"
  shows "yyparse (yylex (text_of (tokens_configuration ss))) = Some ss"
  using lex_text_of [OF assms] yyparse_complete by simp

lemma ex_statements_ok: "list_all token_ok (tokens_configuration (ex_statements None))"
  by (simp add: tokens_configuration_def ex_statements_def ex_clauses_def ex_place_def token_ok_def reserved_def
      is_word_def is_expr_def is_letter_def is_digit_def tokens_module_setting_def tokens_parameter_def)

theorem configuration_reads_back_witness:
  "yyparse (yylex (text_of (tokens_configuration (ex_statements None)))) = Some (ex_statements None)"
  by (rule configuration_reads_back [OF ex_statements_ok])

text \<open>After the file is loaded every reference of the configuration is live, if no link is defined twice.\<close>

lemma startup_wired:
  assumes "startup E L s0 (Some file) = Inr ls" and "yyparse (yylex file) = Some ss" and "distinct (link_names ss)"
    and "st_ifaces s0 = Map.empty" and "st_targets s0 = Map.empty"
  shows "wired (ls_hb ls) \<and> ls_freed_tags ls = {}"
proof -
  from assms(1,2) obtain config hb where i: "init_variables s0 = Inr (config, hb)"
    and l: "load_statements E L (load_start config hb) ss = Inr ls"
    by (auto simp: startup_def init_parser_def valid_def elim!: rbindE)
  have "wired hb" "links hb = Map.empty"
    using i assms(4,5) by (auto simp: init_variables_def ICONFIG_def Let_def wired_def)
  with load_statements_wired [OF l] assms(3) show ?thesis by (simp add: load_start_def)
qed

definition ex_file :: string where
  "ex_file = text_of (tokens_configuration (ex_statements None))"

lemma ex_file_parses: "yyparse (yylex ex_file) = Some (ex_statements None)"
  unfolding ex_file_def lex_text_of [OF ex_statements_ok] by (rule yyparse_complete)

text \<open>A target leaves the settings alone, and of an interface all but its target.\<close>

lemma load_clause_hb: "load_clause E L s p c = Inr s' \<Longrightarrow> ls_config s' = ls_config s \<and> st_ifaces (ls_hb s') = st_ifaces (ls_hb s)"
  by (cases c; auto simp: load_tree_def put_target_def elim!: rbindE split: prod.split_asm if_split_asm
      dest!: add_links load_parts_links(1))

lemma load_clauses_hb: "load_clauses E L s p cs = Inr s' \<Longrightarrow> ls_config s' = ls_config s \<and> st_ifaces (ls_hb s') = st_ifaces (ls_hb s)"
  by (induction cs arbitrary: s) (auto elim!: rbindE dest!: load_clause_hb)

lemma load_target_config: "load_target E L s r cs = Inr s' \<Longrightarrow> ls_config s' = ls_config s"
  by (auto simp: load_target_def elim!: rbindE split: prod.split_asm dest!: load_clauses_hb)

lemma load_target_iface:
  assumes "load_target E L s r cs = Inr s'" and "st_ifaces (ls_hb s) i = Some x"
  shows "\<exists>y. st_ifaces (ls_hb s') i = Some (x\<lparr>if_target := y\<rparr>)"
proof -
  from assms(1) obtain p hb0 s1 hb z where a: "alloc (ls_hb s) = (p, hb0)"
    and c: "load_clauses E L (s\<lparr>ls_hb := put_target p zero_target hb0\<rparr>) p cs = Inr s1"
    and r: "load_route L s1 p r = Inr hb" and t: "add_target hb (Some p) = Inr (z, ls_hb s')"
    by (auto simp: load_target_def elim!: rbindE split: prod.split_asm)
  have 1: "st_ifaces (ls_hb s1) i = Some x" using a load_clauses_hb [OF c] assms(2) by (auto simp: alloc_def put_target_def)
  have same: "x = x\<lparr>if_target := if_target x\<rparr>" by simp
  from r 1 have "st_ifaces hb i = Some x \<or> (\<exists>y. st_ifaces hb i = Some (x\<lparr>if_target := y\<rparr>))"
    by (cases "(L, s1, p, r)" rule: load_route.cases) (auto simp: put_target_def get_iface_def deref_eq_Inr elim!: rbindE split: if_split_asm)
  then show ?thesis using add_links(1) [OF t] same by metis
qed

lemma ex_startup: "\<exists>ls. startup ex_env ex_load_env (ls_hb ex_start) (Some ex_file) = Inr ls \<and> links (ls_hb ls) = [''up'' \<mapsto> 100] \<and>
  ls_config ls = [''output'' \<mapsto> CfgInt 2, ''decision_threads'' \<mapsto> CfgInt 4, ''exec_directory'' \<mapsto> CfgString ''/var/run''] \<and>
  (\<exists>i. st_ifaces (ls_hb ls) 100 = Some i \<and> if_name i = Some ''eth0'' \<and> if_filter i = None)"
proof -
  obtain config hb where i: "init_variables (ls_hb ex_start) = Inr (config, hb)" "st_next hb = 100" "links hb = Map.empty"
    by (simp add: init_variables_def ICONFIG_def Let_def ex_start_def ex_state_def)
  define c where "c = config(''output'' \<mapsto> CfgInt 2, ''decision_threads'' \<mapsto> CfgInt 4, ''exec_directory'' \<mapsto> CfgString ''/var/run'')"
  define s where "s = (load_start c hb)\<lparr>ls_hb := hb\<lparr>st_next := 101, links := [''up'' \<mapsto> 100],
    st_ifaces := (st_ifaces hb)(100 \<mapsto> zero_iface\<lparr>if_name := Some ''eth0'', if_tag := ''up''\<rparr>)\<rparr>,
    ls_modules := [''pick'' \<mapsto> [''function'' \<mapsto> CfgString ''backpick_random'']]\<rparr>"
  have "load_statements ex_env ex_load_env (load_start config hb) (ex_statements None) =
      rbind (load_target ex_env ex_load_env s (Some (Route ''up'' ''02:01'' None)) (ex_clauses None)) Inr"
    using i by (simp add: ex_statements_def load_link_def link_lookup_def alloc_def load_start_def guard_def Let_def load_module_def
        module_table_def zero_iface_def s_def c_def)
  moreover obtain s' where t: "load_target ex_env ex_load_env s (Some (Route ''up'' ''02:01'' None)) (ex_clauses None) = Inr s'"
    using ex_load_target [of s _ None] by (auto simp: s_def load_start_def ex_linked_def ex_start_def)
  moreover have "links_kept s s'"
    using load_statement_links [of ex_env ex_load_env s "STarget (Some (Route ''up'' ''02:01'' None)) (ex_clauses None)" s'] t by simp
  then have "links (ls_hb s') = [''up'' \<mapsto> 100]" by (simp add: links_kept_def s_def)
  moreover have "ls_config s' = c" using load_target_config [OF t] by (simp add: s_def load_start_def)
  moreover have "\<exists>i. st_ifaces (ls_hb s') 100 = Some i \<and> if_name i = Some ''eth0'' \<and> if_filter i = None"
    using load_target_iface [OF t, of 100] by (auto simp: s_def zero_iface_def)
  moreover have "config = Map.empty" using i(1) by (auto simp: init_variables_def ICONFIG_def Let_def)
  ultimately show ?thesis by (simp add: startup_def i init_parser_def valid_def ex_file_parses c_def)
qed

text \<open>C18: The module that picks a back handler at random always names one of the target, with a live interface and
  addresses, when the back handlers were configured without rules: they have the numbers 1 to n.\<close>

theorem backpick_placed:
  assumes "load_target E L s r cs = Inr s'" and "wired (ls_hb s)" and "length cs < 2 ^ 30"
    and "list_all (\<lambda>pl. pl_rule pl = None) (backends cs)"
    and "st_targets (ls_hb s') (st_next (ls_hb s)) = Some t" and "tg_back_handlers t \<noteq> []"
    and "ma_conn hb args = Inr (p, c)" and "st_targets hb (cn_target c) = Some t"
  shows "\<exists>args' hb' q. mod_backpick_random E hb args = Inr (ACCEPT, args', hb') \<and>
    g_tree_lookup intcmp (tg_back_handlers t) (ma_backend_use args') = Some q \<and> placed (ls_hb s') q"
proof -
  let ?n = "length (tg_back_handlers t)"
  let ?i = "ev_rand E (st_rand hb) mod ?n"
  have i: "?i < ?n" using assms(6) by simp
  then have "word_of_nat (Suc ?i) \<in> set (map fst (tg_back_handlers t))"
    unfolding loaded_numbers(1) [OF assms(1,3,5,4)] set_rev set_map by (intro imageI) simp
  then obtain q where q: "(word_of_nat (Suc ?i), q) \<in> set (tg_back_handlers t)" by auto
  then have "q \<in> handlers_of t" unfolding handlers_of_def by (auto intro: image_eqI [where x = "(word_of_nat (Suc ?i), q)"])
  moreover have "target_wired (ls_hb s') t" using load_target_wired [OF assms(1,2)] assms(5) by (simp add: wired_def)
  ultimately have "placed (ls_hb s') q" by (simp add: target_wired_def)
  moreover have "g_tree_lookup intcmp (tg_back_handlers t) (word_of_nat (Suc ?i)) = Some q"
    using int_tree.mem_lookup [OF load_target_numbers(2) [OF assms(1,3,5)] q] .
  ultimately show ?thesis using assms(6-8) by (simp add: mod_backpick_random_def get_target_def Let_def)
qed

theorem backpick_placed_witness:
  "\<exists>s' t hb args' hb' q. load_target ex_env ex_load_env ex_linked (Some (Route ''up'' ''02:01'' None)) (ex_clauses None) = Inr s' \<and>
     st_targets (ls_hb s') 101 = Some t \<and>
     mod_backpick_random ex_env hb (ex_args MOD_BACKPICK_RANDOM Map.empty) = Inr (ACCEPT, args', hb') \<and>
     g_tree_lookup intcmp (tg_back_handlers t) (ma_backend_use args') = Some q \<and> placed (ls_hb s') q"
proof -
  obtain i where i: "st_ifaces (ls_hb ex_linked) 100 = Some i" using ex_linked_simps(4) ..
  obtain s' t where l: "load_target ex_env ex_load_env ex_linked (Some (Route ''up'' ''02:01'' None)) (ex_clauses None) = Inr s'"
    and t: "st_targets (ls_hb s') (st_next (ls_hb ex_linked)) = Some t" "length (tg_back_handlers t) = 2"
    using ex_load_target [OF _ ex_linked_simps(1,2) i ex_linked_simps(3), of None] by (auto simp: ex_linked_simps)
  have c: "length (ex_clauses None) < 2 ^ 30" "list_all (\<lambda>pl. pl_rule pl = None) (backends (ex_clauses None))" "tg_back_handlers t \<noteq> []"
    using t(2) by (auto simp: ex_clauses_def)
  let ?hb = "(ls_hb s')\<lparr>st_conns := [100 \<mapsto> zero_conn 101]\<rparr>"
  have m: "ma_conn ?hb (ex_args MOD_BACKPICK_RANDOM Map.empty) = Inr (100, zero_conn 101)"
    by (simp add: ma_conn_def get_conn_def ex_args_def)
  have "st_targets ?hb (cn_target (zero_conn 101)) = Some t" using t(1) by (simp add: zero_conn_def ex_linked_simps)
  from backpick_placed [OF l ex_linked_simps(5) c(1,2) t(1) c(3) m this] l t(1) show ?thesis by (auto simp: ex_linked_simps)
qed

text \<open>C35: Back handlers that were configured with rules have the numbers 2, 4 and so on, as each takes two.  The module
  that picks one at random names a number from 1 to n: for an odd one there is no handler, and the decision reads
  through a null pointer.\<close>

theorem ruled_backends_crash:
  assumes "load_target E L s r cs = Inr s'" and "length cs < 2 ^ 30"
    and "list_all (\<lambda>pl. pl_rule pl \<noteq> None) (backends cs)"
    and "st_targets (ls_hb s') (st_next (ls_hb s)) = Some t" and "tg_back_handlers t \<noteq> []"
    and "tg_back_picker t = Some (Node (Some MOD_BACKPICK_RANDOM) cfg name f None None)"
    and "pkt_conn pkt = Some p" and "st_conns hb p = Some c" and "cn_state c = DECISION" and "st_targets hb (cn_target c) = Some t"
    and "even (ev_rand E (st_rand hb) mod length (tg_back_handlers t))"
  shows "DE_process_packet E hb pkt = Inl NullDeref"
proof -
  let ?n = "length (tg_back_handlers t)"
  let ?i = "ev_rand E (st_rand hb) mod ?n"
  have l: "?n < 2 ^ 30" by (rule loaded_numbers(3) [OF assms(1,2,4)])
  have "?i < ?n" using assms(5) by simp
  with l have k: "Suc ?i < 2 ^ 32" by simp
  have 0: "word_of_nat (Suc ?i) \<noteq> (0 :: u64)" using k by (simp only: word_of_nat_eq_0_iff) (auto dest: dvd_imp_le)
  have "g_tree_lookup intcmp (tg_back_handlers t) (word_of_nat (Suc ?i)) = None"
    by (rule ruled_odd [OF loaded_numbers(2) [OF assms(1,2,4,3)] l _ k]) (use assms(11) in simp)
  with 0 assms(5-10) show ?thesis
    by (simp add: DE_process_packet_def de_decision_def get_decision_def decide_def run_module_def mod_backpick_random_def
        ma_conn_def get_defs set_conn_def Let_def)
qed

theorem ruled_backends_crash_witness:
  "\<exists>s' t hb. load_target ex_env ex_load_env ex_linked (Some (Route ''up'' ''02:01'' None)) (ex_clauses (Some [IWord ''pick''])) = Inr s' \<and>
     st_targets (ls_hb s') 101 = Some t \<and> st_targets hb 101 = Some t \<and>
     DE_process_packet (ex_env\<lparr>ev_rand := \<lambda>_. 4\<rparr>) hb (ex_pkt\<lparr>pkt_conn := Some 100\<rparr>) = Inl NullDeref"
proof -
  let ?E = "ex_env\<lparr>ev_rand := \<lambda>_. 4\<rparr>" and ?r = "Some (Route ''up'' ''02:01'' None)" and ?cs = "ex_clauses (Some [IWord ''pick''])"
  obtain i where i: "st_ifaces (ls_hb ex_linked) 100 = Some i" using ex_linked_simps(4) ..
  obtain s' t where l: "load_target ex_env ex_load_env ex_linked ?r ?cs = Inr s'"
    and t: "st_targets (ls_hb s') (st_next (ls_hb ex_linked)) = Some t" "length (tg_back_handlers t) = 2" "tg_back_picker t = Some ex_picker"
    using ex_load_target [OF _ ex_linked_simps(1,2) i ex_linked_simps(3), of "Some [IWord ''pick'']"] by (auto simp: ex_linked_simps)
  have c: "length ?cs < 2 ^ 30" "list_all (\<lambda>pl. pl_rule pl \<noteq> None) (backends ?cs)" "tg_back_handlers t \<noteq> []"
    using t(2) by (auto simp: ex_clauses_def)
  let ?c = "(zero_conn 101)\<lparr>cn_state := DECISION\<rparr>"
  let ?hb = "(ls_hb s')\<lparr>st_conns := [100 \<mapsto> ?c]\<rparr>"
  have "load_target ?E ex_load_env ex_linked ?r ?cs = Inr s'" using l by (simp add: load_target_def ex_clauses_def)
  then have "DE_process_packet ?E ?hb (ex_pkt\<lparr>pkt_conn := Some 100\<rparr>) = Inl NullDeref"
    by (rule ruled_backends_crash [OF _ c(1,2) t(1) c(3) t(3) [unfolded ex_picker_def], where p = 100 and c = ?c])
      (use t in \<open>simp_all add: zero_conn_def ex_linked_simps\<close>)
  moreover have "st_targets ?hb 101 = Some t" using t(1) by (simp add: ex_linked_simps)
  ultimately show ?thesis using l t(1) by (metis ex_linked_simps(3))
qed

end
