(* ===== verification/Log.thy ===== *)
theory Log
  imports Honeybrid_Main
begin

text \<open>
  The log (\<open>log.c\<close>, with the tables of names of \<open>constants.c\<close>): what is written when a connection ends, in the
  three formats, the rotation of the log file, and the messages of the program about itself.  The state of the log
  is a record of its own: the time of the last rotation, the file, standard output, the statements sent to the
  database and the live text buffers.  \<open>remove_conn\<close> of the model keeps the connection it logs in \<open>st_log\<close>;
  \<open>connection_log\<close> says what is written for it.  The answers of the operating system and of the database are in a
  record of the environment.
\<close>

section \<open>Tables of names (constants.c)\<close>

definition lookup_proto :: "byte \<Rightarrow> string" where
  "lookup_proto proto =
     (if proto = IPPROTO_TCP then ''TCP'' else if proto = IPPROTO_UDP then ''UDP'' else ''Unsupported protocol'')"

fun lookup_role :: "role_t \<Rightarrow> string" where
  "lookup_role EXT = ''[EXT] External''"
| "lookup_role INT_ROLE = ''[INT] Internal - Either LIH or HIH''"
| "lookup_role LIH = ''[LIH] Low-interaction honeypot''"
| "lookup_role HIH = ''[HIH] High-interaction honeypot''"
| "lookup_role INTRA = ''[INTRA] Internal target''"

fun lookup_state :: "conn_status_t \<Rightarrow> string" where
  "lookup_state INVALID = ''UNKNOWN''"
| "lookup_state INIT = ''INIT''"
| "lookup_state DECISION = ''DECISION''"
| "lookup_state REPLAY = ''REPLAY''"
| "lookup_state FORWARD = ''FORWARD''"
| "lookup_state PROXY = ''PROXY''"
| "lookup_state DROP = ''DROP''"
| "lookup_state CONTROL = ''CONTROL''"

fun lookup_result :: "mod_result_t \<Rightarrow> string" where
  "lookup_result DEFER = ''DEFER''"
| "lookup_result ACCEPT = ''ACCEPT''"
| "lookup_result REJECT = ''REJECT''"

section \<open>Numbers, addresses and times as text\<close>

text \<open>A number filled up with zeros (\<open>%02d\<close>, \<open>%.6d\<close>) or blanks (\<open>%5u\<close>) to a width.\<close>

definition dec_pad :: "char \<Rightarrow> nat \<Rightarrow> nat \<Rightarrow> string" where
  "dec_pad c w n = replicate (w - length (dec_nat n)) c @ dec_nat n"

text \<open>\<open>%.3f\<close> of a number of seconds that is given in microseconds.\<close>

definition round_ms :: "nat \<Rightarrow> nat" where
  "round_ms us =
     (let q = us div 1000; r = us mod 1000 in if 500 < r \<or> r = 500 \<and> odd q then q + 1 else q)"

definition fmt3 :: "int \<Rightarrow> string" where
  "fmt3 us =
     (let ms = round_ms (nat \<bar>us\<bar>) in
      (if us < 0 then ''-'' else '''') @ dec_nat (ms div 1000) @ ''.'' @ dec_pad CHR ''0'' 3 (ms mod 1000))"

text \<open>Broken-down local time, and the time of day as \<open>now\<close>, \<open>honeylog\<close> and \<open>create_conn\<close> print it.\<close>

record tm =
  tm_year :: int
  tm_mon :: nat
  tm_mday :: nat
  tm_hour :: nat
  tm_min :: nat
  tm_sec :: nat

definition now_str :: "tm \<Rightarrow> nat \<Rightarrow> string" where
  "now_str t usec =
     dec_int (1900 + tm_year t) @ ''-'' @ dec_pad CHR ''0'' 2 (1 + tm_mon t) @ ''-'' @ dec_pad CHR ''0'' 2 (tm_mday t) @ '' '' @
     dec_pad CHR ''0'' 2 (tm_hour t) @ '':'' @ dec_pad CHR ''0'' 2 (tm_min t) @ '':'' @ dec_pad CHR ''0'' 2 (tm_sec t) @ ''.'' @
     dec_pad CHR ''0'' 6 usec"

section \<open>State and environment of the log\<close>

text \<open>\<open>lg_mysql\<close> is the handle of the database: NULL, live, or closed and freed.\<close>

datatype mysql_handle = NoHandle | Live | Closed

record log_state =
  lg_last_rotation :: u64
  lg_logfd :: bool
  lg_level :: nat
  lg_blocks :: "nat set"
  lg_next :: nat
  lg_stdout :: string
  lg_file :: string
  lg_rotated :: "(string \<times> string) list"
  lg_mysql :: mysql_handle
  lg_queries :: "string list"

record log_env =
  le_tm :: "tm option"
  le_usec :: nat
  le_chdir_log :: bool
  le_chdir_exec :: bool
  le_rename :: bool
  le_fopen :: bool
  le_connect :: bool
  le_ping :: bool

definition new_block :: "log_state \<Rightarrow> nat \<times> log_state" where
  "new_block s = (lg_next s, s\<lparr>lg_next := lg_next s + 1, lg_blocks := insert (lg_next s) (lg_blocks s)\<rparr>)"

definition free_block :: "log_state \<Rightarrow> nat \<Rightarrow> log_state res" where
  "free_block s b = rbind (guard DoubleFree (b \<in> lg_blocks s)) (\<lambda>_. Inr (s\<lparr>lg_blocks := lg_blocks s - {b}\<rparr>))"

definition g_print :: "string \<Rightarrow> log_state \<Rightarrow> log_state" where
  "g_print t s = s\<lparr>lg_stdout := lg_stdout s @ t\<rparr>"

text \<open>A setting the program cannot do without.\<close>

definition config_required :: "config \<Rightarrow> string \<Rightarrow> cfg_val res" where
  "config_required cfg k = (case cfg k of None \<Rightarrow> Inl ExitCall | Some v \<Rightarrow> Inr v)"

section \<open>Messages of the program (honeylog)\<close>

abbreviation (input) LOG_MED :: nat where "LOG_MED \<equiv> 2"
abbreviation (input) LOG_HIGH :: nat where "LOG_HIGH \<equiv> 3"
abbreviation (input) LOG_ALL :: nat where "LOG_ALL \<equiv> 4"
abbreviation (input) LOG_LOG :: nat where "LOG_LOG \<equiv> 7"

text \<open>A message is a constant text or a buffer; a buffer is freed, printed or not.\<close>

definition honeylog ::
  "log_env \<Rightarrow> log_state \<Rightarrow> string option \<Rightarrow> (nat \<times> string) option \<Rightarrow> nat \<Rightarrow> nat \<Rightarrow> (status_t \<times> log_state) res" where
  "honeylog L s sdata ddata level eid =
     (if lg_level s < level then
        (case ddata of
           None \<Rightarrow> Inr (OK, s)
         | Some (b, _) \<Rightarrow> rbind (free_block s b) (\<lambda>s. Inr (OK, s)))
      else
        (case le_tm L of
           None \<Rightarrow> Inr (NOK, s)
         | Some tm \<Rightarrow>
             let header = now_str tm (le_usec L) @ '';id:'' @ dec_pad CHR '' '' 5 eid @ '';'' in
             (case (sdata, ddata) of
                (Some t, None) \<Rightarrow> Inr (OK, g_print (header @ t) s)
              | (None, Some (b, t)) \<Rightarrow>
                  rbind (guard UseAfterFree (b \<in> lg_blocks s)) (\<lambda>_.
                  rbind (free_block (g_print (header @ t) s) b) (\<lambda>s. Inr (OK, s)))
              | _ \<Rightarrow> Inr (OK, g_print (header @ ''honeylog(): Incorrect event!!'' @ [CHR 0x0A]) s))))"

text \<open>The macro \<open>L\<close> takes every result but 0 for an error, and \<open>OK\<close> is 1.\<close>

definition log_L ::
  "log_env \<Rightarrow> log_state \<Rightarrow> string option \<Rightarrow> (nat \<times> string) option \<Rightarrow> nat \<Rightarrow> nat \<Rightarrow> log_state res" where
  "log_L L s sdata ddata level eid =
     rbind (honeylog L s sdata ddata level eid) (\<lambda>(r, s).
     Inr (if r \<noteq> NOK then g_print (''******LOG ENGINE ERROR******'' @ [CHR 0x0A]) s else s))"

section \<open>Rotation of the log file (rotate_connection_log)\<close>

definition tm_stamp :: "tm \<Rightarrow> u64" where
  "tm_stamp t = word_of_int (tm_year t * 1000000 + int ((1 + tm_mon t) * 10000 + tm_mday t * 100 + tm_hour t))"

abbreviation (input) rcl :: "string \<Rightarrow> string" where
  "rcl t \<equiv> ''rotate_connection_log()'' @ [CHR 0x09] @ t @ [CHR 0x0A]"

definition rotated_name :: "string \<Rightarrow> tm \<Rightarrow> string" where
  "rotated_name f t =
     f @ ''.'' @ dec_int (1900 + tm_year t) @ dec_pad CHR ''0'' 2 (1 + tm_mon t) @ dec_pad CHR ''0'' 2 (tm_mday t) @ ''_'' @
     dec_pad CHR ''0'' 2 (tm_hour t) @ dec_pad CHR ''0'' 2 (tm_min t)"

text \<open>The file is closed, moved aside and opened again.  The buffer of the first message has 512 bytes.\<close>

definition move_log :: "log_env \<Rightarrow> config \<Rightarrow> log_state \<Rightarrow> tm \<Rightarrow> log_state res" where
  "move_log L cfg s t =
     rbind (guard NullDeref (lg_logfd s)) (\<lambda>_.
     rbind (config_required cfg ''log_file'') (\<lambda>v.
     rbind (cfg_string v) (\<lambda>logfile_name.
     let new_name = rotated_name logfile_name t;
         text = rcl (''Rotating log file from '' @ logfile_name @ '' to '' @ new_name);
         (b, s) = new_block (s\<lparr>lg_logfd := False\<rparr>) in
     rbind (guard OutOfBounds (length text < 512)) (\<lambda>_.
     rbind (log_L L s None (Some (b, text)) LOG_HIGH LOG_LOG) (\<lambda>s.
     rbind (config_required cfg ''log_directory'') (\<lambda>_.
     rbind (guard ExitCall (le_chdir_log L)) (\<lambda>_.
     rbind (if le_rename L then Inr (s\<lparr>lg_rotated := lg_rotated s @ [(new_name, lg_file s)], lg_file := []\<rparr>)
            else log_L L s (Some (rcl ''ERROR: can't rename log file!'')) None LOG_MED LOG_LOG) (\<lambda>s.
     rbind (config_required cfg ''exec_directory'') (\<lambda>_.
     rbind (guard ExitCall (le_chdir_exec L)) (\<lambda>_.
     Inr (s\<lparr>lg_logfd := le_fopen L\<rparr>)))))))))))"

definition rotate_connection_log :: "log_env \<Rightarrow> config \<Rightarrow> log_state \<Rightarrow> int \<Rightarrow> log_state res" where
  "rotate_connection_log L cfg s signal_nb =
     rbind (log_L L s (Some (rcl ''Called'')) None LOG_ALL LOG_LOG) (\<lambda>s.
     (case le_tm L of
        None \<Rightarrow> Inr s
      | Some t \<Rightarrow>
          let timestamp = tm_stamp t in
          if lg_last_rotation s = 0 then
            let (b, s) = new_block (s\<lparr>lg_last_rotation := timestamp\<rparr>) in
            log_L L s None (Some (b, rcl (''last_rotation initialized to '' @ dec_nat (unat timestamp)))) 4 LOG_LOG
          else if lg_last_rotation s < timestamp \<or> 0 < signal_nb then
            rbind (log_L L s (Some (rcl (if 0 < signal_nb then ''SIGUSR1 received, rotating log...''
                                         else ''Time to rotate the log...''))) None LOG_MED LOG_LOG) (\<lambda>s.
            rbind (move_log L cfg s t) (\<lambda>s.
            let (b, s) = new_block (s\<lparr>lg_last_rotation := timestamp\<rparr>) in
            rbind (log_L L s None (Some (b, rcl (''Log file re-opened. last_rotation updated to '' @ dec_nat (unat timestamp))))
                     LOG_HIGH LOG_LOG) (\<lambda>s.
            free_block s b)))
          else Inr s))"

section \<open>A connection in the log (connection_log)\<close>

text \<open>One round of the loop over the states: the duration, what is printed, and the time the next round counts from.\<close>

definition status_info :: "conn_struct \<Rightarrow> conn_status_t \<Rightarrow> int \<Rightarrow> int \<times> string \<times> int" where
  "status_info c i lasttime =
     (if i \<le> cn_state c then
        let (duration, lasttime) = (if 0 < cn_stat_time c i then (cn_stat_time c i - lasttime, cn_stat_time c i) else (0, lasttime));
            counts = dec_int (sint (cn_stat_packet c i)) @ ''|'' @ dec_int (sint (cn_stat_byte c i)) in
        (duration,
         if i = REPLAY \<and> 0 < cn_replay_problem c then
           fmt3 duration @ ''|'' @ counts @ ''|error:'' @ dec_int (sint (cn_replay_problem c))
         else if i = DECISION then fmt3 duration @ ''|'' @ cn_decision_rule c
         else fmt3 duration @ ''|'' @ counts,
         lasttime)
      else (0, if i = REPLAY then ''.|.|.|.'' else if i = DECISION then ''.|.'' else ''.|.|.'', lasttime))"

fun status_loop :: "conn_struct \<Rightarrow> conn_status_t list \<Rightarrow> int \<Rightarrow> (int \<times> string) list \<times> int" where
  "status_loop c [] lasttime = ([], lasttime)"
| "status_loop c (i # sts) lasttime =
     (let (duration, text, lasttime) = status_info c i lasttime; (rest, lasttime) = status_loop c sts lasttime
      in ((duration, text) # rest, lasttime))"

definition logged_states :: "conn_status_t list" where
  "logged_states = [INIT, DECISION, REPLAY, FORWARD, PROXY]"

definition status_texts :: "conn_struct \<Rightarrow> string list" where
  "status_texts c = map snd (fst (status_loop c logged_states (cn_start_microtime c)))"

definition total_duration :: "conn_struct \<Rightarrow> int" where
  "total_duration c = snd (status_loop c logged_states (cn_start_microtime c)) - cn_start_microtime c"

text \<open>
  A line of values separated by commas.  No part of the program hangs data of its own on a connection, so the last
  value is a dash.  \<open>start\<close> is the text of the time the connection began.
\<close>

definition csv_fields :: "string \<Rightarrow> conn_struct \<Rightarrow> string list" where
  "csv_fields start c =
     [start, fmt3 (total_duration c), lookup_proto (cn_protocol c),
      inet_ntop (cn_first_pkt_src_ip c), dec_nat (unat (ntohs (cn_first_pkt_src_port c))),
      inet_ntop (cn_first_pkt_dst_ip c), dec_nat (unat (ntohs (cn_first_pkt_dst_port c))),
      dec_int (sint (cn_total_packet c)), dec_int (sint (cn_total_byte c)), lookup_state (cn_state c), dec_int (sint (cn_id c))]
     @ status_texts c @ [''-'']"

fun join :: "string \<Rightarrow> string list \<Rightarrow> string" where
  "join sep [] = []"
| "join sep [x] = x"
| "join sep (x # y # xs) = x @ sep @ join sep (y # xs)"

definition log_csv :: "string \<Rightarrow> conn_struct \<Rightarrow> string" where
  "log_csv start c = join '','' (csv_fields start c) @ [CHR 0x0A]"

definition log_std :: "string \<Rightarrow> conn_struct \<Rightarrow> string" where
  "log_std start c =
     start @ '' '' @ fmt3 (total_duration c) @ '' '' @ lookup_proto (cn_protocol c) @ '' '' @
     inet_ntop (cn_first_pkt_src_ip c) @ '':'' @ dec_nat (unat (ntohs (cn_first_pkt_src_port c))) @ '' -> '' @
     inet_ntop (cn_first_pkt_dst_ip c) @ '':'' @ dec_nat (unat (ntohs (cn_first_pkt_dst_port c))) @ '' '' @
     dec_int (sint (cn_total_packet c)) @ '' '' @ dec_int (sint (cn_total_byte c)) @ '' '' @ lookup_state (cn_state c) @ '' ** '' @
     dec_int (sint (cn_id c)) @ '' '' @ join '' '' (status_texts c) @ '' [-]'' @ [CHR 0x0A]"

subsection \<open>The database\<close>

definition mysql_insert :: "conn_struct \<Rightarrow> string" where
  "mysql_insert c =
     (let q = (\<lambda>t. [CHR 0x27] @ t @ [CHR 0x27]) in
      ''INSERT INTO honeybrid VALUES ('' @ q '''' @ '','' @
      fmt3 (cn_start_microtime c) @ '', '' @ fmt3 (total_duration c) @ '','' @
      q (lookup_proto (cn_protocol c)) @ '', '' @ q (inet_ntop (cn_first_pkt_src_ip c)) @ '', '' @
      q (dec_nat (unat (ntohs (cn_first_pkt_src_port c)))) @ '','' @
      q (inet_ntop (cn_first_pkt_dst_ip c)) @ '', '' @ q (dec_nat (unat (ntohs (cn_first_pkt_dst_port c)))) @ '', '' @
      dec_int (sint (cn_total_packet c)) @ '','' @ dec_int (sint (cn_total_byte c)) @ '', '' @
      q (lookup_state (cn_state c)) @ '', '' @ dec_int (sint (cn_id c)) @ '','' @
      join '', '' (map q (take 3 (status_texts c))) @ '','' @ join '', '' (map q (drop 3 (status_texts c))) @ '',-);'')"

text \<open>The result is 0 (\<open>NOK\<close>) when there is a connection.\<close>

definition init_mysql_log :: "log_env \<Rightarrow> config \<Rightarrow> log_state \<Rightarrow> (status_t \<times> log_state) res" where
  "init_mysql_log L cfg s =
     (case lg_mysql s of
        NoHandle \<Rightarrow>
          rbind (config_required cfg ''mysql_host'') (\<lambda>_.
          rbind (config_required cfg ''mysql_user'') (\<lambda>_.
          rbind (config_required cfg ''mysql_password'') (\<lambda>_.
          rbind (config_required cfg ''mysql_db'') (\<lambda>_.
          rbind (config_required cfg ''mysql_port'') (\<lambda>_.
          Inr (if le_connect L then NOK else OK, s\<lparr>lg_mysql := Live\<rparr>))))))
      | Live \<Rightarrow> Inr (if le_ping L then (NOK, s) else (OK, s\<lparr>lg_mysql := Closed\<rparr>))
      | Closed \<Rightarrow> Inl UseAfterFree)"

definition log_mysql :: "log_env \<Rightarrow> config \<Rightarrow> log_state \<Rightarrow> conn_struct \<Rightarrow> log_state res" where
  "log_mysql L cfg s c =
     rbind (init_mysql_log L cfg s) (\<lambda>(r, s).
     Inr (if r = NOK then s\<lparr>lg_queries := lg_queries s @ [mysql_insert c]\<rparr> else s))"

subsection \<open>Where a connection is written\<close>

definition to_output :: "int \<Rightarrow> output_t" where
  "to_output n = (if n = 1 then OUTPUT_SYSLOG else if n = 2 then OUTPUT_STDOUT else if n = 3 then OUTPUT_LOGFILES
     else if n = 4 then OUTPUT_MYSQL else OUTPUT_INVALID)"

definition write_line :: "output_t \<Rightarrow> string \<Rightarrow> log_state \<Rightarrow> log_state res" where
  "write_line output line s =
     (if output = OUTPUT_STDOUT then Inr (g_print line s)
      else rbind (guard NullDeref (lg_logfd s)) (\<lambda>_. Inr (s\<lparr>lg_file := lg_file s @ line\<rparr>)))"

definition connection_log :: "log_env \<Rightarrow> config \<Rightarrow> log_state \<Rightarrow> string \<Rightarrow> conn_struct \<Rightarrow> log_state res" where
  "connection_log L cfg s start c =
     rbind (ICONFIG cfg ''log_rotation'') (\<lambda>rotation.
     rbind (if rotation \<noteq> 0 then rotate_connection_log L cfg s 0 else Inr s) (\<lambda>s.
     rbind (config_required cfg ''output'') (\<lambda>v.
     rbind (cfg_int v) (\<lambda>n.
     let output = to_output n in
     if output = OUTPUT_MYSQL then log_mysql L cfg s c
     else if output = OUTPUT_STDOUT \<or> output = OUTPUT_LOGFILES then
       rbind (case cfg ''log_format'' of
                None \<Rightarrow> Inr False
              | Some f \<Rightarrow> rbind (cfg_string f) (\<lambda>f. Inr (f = ''csv''))) (\<lambda>csv.
       write_line output (if csv then log_csv start c else log_std start c) s)
     else Inr s))))"

text \<open>The file is opened at the start when the output goes to files; at the end it is closed.\<close>

definition open_connection_log :: "log_env \<Rightarrow> config \<Rightarrow> log_state \<Rightarrow> log_state res" where
  "open_connection_log L cfg s =
     rbind (config_required cfg ''log_directory'') (\<lambda>_.
     rbind (guard ExitCall (le_chdir_log L)) (\<lambda>_.
     rbind (config_required cfg ''log_file'') (\<lambda>_.
     rbind (guard ExitCall (le_fopen L)) (\<lambda>_.
     rbind (config_required cfg ''exec_directory'') (\<lambda>_.
     Inr (s\<lparr>lg_logfd := True\<rparr>))))))"

definition close_connection_log :: "log_state \<Rightarrow> log_state res" where
  "close_connection_log s = rbind (guard NullDeref (lg_logfd s)) (\<lambda>_. Inr (s\<lparr>lg_logfd := False\<rparr>))"

section \<open>What the lines say\<close>

subsection \<open>Durations\<close>

lemma status_info_last: "status_info c i l = (d, tx, l') \<Longrightarrow> l' = l + d"
  by (auto simp: status_info_def Let_def split: if_split_asm)

lemma status_loop_sum: "status_loop c sts l = (xs, l') \<Longrightarrow> sum_list (map fst xs) = l' - l"
proof (induction sts arbitrary: l xs l')
  case (Cons i sts)
  then show ?case by (auto simp: Let_def split: prod.split_asm dest!: status_info_last)
qed simp

definition ex_logged :: conn_struct where
  "ex_logged = (zero_conn 50)\<lparr>cn_protocol := 6, cn_state := REPLAY, cn_id := 7, cn_start_microtime := 1000000,
     cn_stat_time := (\<lambda>_. 0)(INIT := 1500000, DECISION := 1500500, REPLAY := 3000000),
     cn_stat_packet := (\<lambda>_. 2), cn_total_packet := 6, cn_first_pkt_src_ip := 0x070000C0, cn_first_pkt_dst_ip := 0x010000C6,
     cn_first_pkt_src_port := 0x3930, cn_first_pkt_dst_port := 0x5000\<rparr>"

subsection \<open>Reading a line back\<close>

fun split_on :: "char \<Rightarrow> string \<Rightarrow> string list" where
  "split_on c [] = [[]]"
| "split_on c (x # xs) =
     (if x = c then [] # split_on c xs else (case split_on c xs of [] \<Rightarrow> [[x]] | y # ys \<Rightarrow> (x # y) # ys))"

definition inet_pton :: "string \<Rightarrow> u32 option" where
  "inet_pton t =
     (case map digits_val (split_on CHR ''.'' t) of
        [a, b, c, d] \<Rightarrow> Some (of_nat a OR push_bit 8 (of_nat b) OR push_bit 16 (of_nat c) OR push_bit 24 (of_nat d))
      | _ \<Rightarrow> None)"

lemma split_on_free: "c \<notin> set x \<Longrightarrow> split_on c x = [x]"
  by (induction x) auto

lemma split_on_append: "c \<notin> set x \<Longrightarrow> split_on c (x @ c # r) = x # split_on c r"
  by (induction x) auto

lemma split_join: "xs \<noteq> [] \<Longrightarrow> \<forall>x \<in> set xs. c \<notin> set x \<Longrightarrow> split_on c (join [c] xs) = xs"
  by (induction "[c]" xs rule: join.induct) (simp_all add: split_on_free split_on_append)

lemma dec_nat_free: "\<not> is_digit ch \<Longrightarrow> ch \<notin> set (dec_nat n)"
  using dec_nat_digits by blast

lemma free_text:
  assumes "\<not> is_digit ch" and "ch \<noteq> CHR ''-''"
  shows "ch \<notin> set (dec_int i)" "w = CHR ''0'' \<Longrightarrow> ch \<notin> set (dec_pad w n k)"
    "ch \<noteq> CHR ''.'' \<Longrightarrow> ch \<notin> set (fmt3 us)" "ch \<noteq> CHR ''.'' \<Longrightarrow> ch \<notin> set (inet_ntop a)"
  using assms dec_nat_free [OF assms(1)]
  by (auto simp: dec_int_def dec_pad_def fmt3_def inet_ntop_def Let_def is_digit_def)

lemma digit_comma [simp]: "\<not> is_digit CHR '',''" "\<not> is_digit CHR ''.''"
  by (simp_all add: is_digit_def)

lemma now_str_free: "CHR '','' \<notin> set (now_str t usec)"
  by (simp add: now_str_def free_text)

lemma status_info_free:
  assumes "CHR '','' \<notin> set (cn_decision_rule c)"
  shows "CHR '','' \<notin> set (fst (snd (status_info c i l)))"
  using assms by (auto simp: status_info_def Let_def free_text split: prod.split)

lemma status_texts_free:
  assumes "CHR '','' \<notin> set (cn_decision_rule c)"
  shows "\<forall>x \<in> set (status_texts c). CHR '','' \<notin> set x"
proof -
  have "\<forall>x \<in> set (map snd (fst (status_loop c sts l))). CHR '','' \<notin> set x" for sts l
  proof (induction sts arbitrary: l)
    case (Cons i sts)
    obtain d tx l1 where r: "status_info c i l = (d, tx, l1)" by (cases "status_info c i l")
    then have "CHR '','' \<notin> set tx" using status_info_free [OF assms, of i l] by simp
    with Cons.IH [of l1] r show ?case by (simp add: Let_def split: prod.split)
  qed simp
  then show ?thesis by (simp add: status_texts_def)
qed

lemma lookup_free: "CHR '','' \<notin> set (lookup_proto p)" "CHR '','' \<notin> set (lookup_state st)"
  by (simp add: lookup_proto_def) (cases st; simp)

lemma length_status_texts: "length (status_texts c) = 5"
  by (simp add: status_texts_def logged_states_def Let_def split: prod.split)

lemma inet_pton_ntop: "inet_pton (inet_ntop a) = Some a"
proof -
  let ?b = "\<lambda>k. dec_nat (unat (take_bit 8 (drop_bit (8 * k) a)))"
  have "split_on CHR ''.'' (inet_ntop a) = [?b 0, ?b 1, ?b 2, ?b 3]"
    by (simp add: inet_ntop_def Let_def split_on_append split_on_free dec_nat_free)
  moreover have "take_bit 8 a OR push_bit 8 (take_bit 8 (drop_bit 8 a)) OR push_bit 16 (take_bit 8 (drop_bit 16 a)) OR
      push_bit 24 (take_bit 8 (drop_bit 24 a)) = a"
    (is "?l = a")
  proof (rule bit_word_eqI)
    fix n assume "n < LENGTH(32)"
    then consider "n < 8" | "8 \<le> n" "n < 16" | "16 \<le> n" "n < 24" | "24 \<le> n" "n < 32" by fastforce
    then show "bit ?l n = bit a n" by cases (auto simp: bit_simps)
  qed
  ultimately show ?thesis by (simp add: inet_pton_def)
qed

lemma atoi_port: "atoi (dec_nat (unat (p :: u16))) = int (unat p)"
proof -
  have "uint p < 65536" using unsigned_less [of p] by simp
  then have "int_ok (uint p)" "min (2 ^ 63 - 1) (uint p) = uint p" by (simp_all add: int_ok_def order_trans [OF _ unsigned_greater_eq])
  then show ?thesis by (simp add: atoi_digits)
qed

lemma int_ok_sint: "int_ok (sint (w :: u32))"
  using sint_greater_eq [of w] sint_less [of w] by (simp add: int_ok_def)

lemma csv_line:
  assumes "CHR '','' \<notin> set (cn_decision_rule c)"
  shows "split_on CHR '','' (butlast (log_csv (now_str t usec) c)) = csv_fields (now_str t usec) c"
proof -
  let ?fs = "csv_fields (now_str t usec) c"
  have "split_on CHR '','' (join [CHR '',''] ?fs) = ?fs"
    using status_texts_free [OF assms]
    by (intro split_join) (auto simp: csv_fields_def free_text dec_nat_free now_str_free lookup_free)
  then show ?thesis by (simp add: log_csv_def)
qed

text \<open>C30: A line of the log in the format with commas can be read back: it has seventeen values, and the addresses,
  the ports, the counters and the number of the connection are those of the connection, as long as the text of the
  rule has no comma.\<close>

theorem log_csv_reads_back:
  assumes "CHR '','' \<notin> set (cn_decision_rule c)"
  shows "let fs = split_on CHR '','' (butlast (log_csv (now_str t usec) c)) in
    length fs = 17 \<and> fs ! 0 = now_str t usec \<and> fs ! 2 = lookup_proto (cn_protocol c) \<and>
    inet_pton (fs ! 3) = Some (cn_first_pkt_src_ip c) \<and> atoi (fs ! 4) = int (unat (ntohs (cn_first_pkt_src_port c))) \<and>
    inet_pton (fs ! 5) = Some (cn_first_pkt_dst_ip c) \<and> atoi (fs ! 6) = int (unat (ntohs (cn_first_pkt_dst_port c))) \<and>
    atoi (fs ! 7) = sint (cn_total_packet c) \<and> atoi (fs ! 8) = sint (cn_total_byte c) \<and>
    fs ! 9 = lookup_state (cn_state c) \<and> atoi (fs ! 10) = sint (cn_id c) \<and> take 5 (drop 11 fs) = status_texts c"
  by (simp add: csv_line [OF assms] csv_fields_def length_status_texts inet_pton_ntop atoi_port int_ok_sint Let_def)

theorem log_csv_reads_back_witness:
  "let fs = split_on CHR '','' (butlast (log_csv (now_str \<lparr>tm_year = 114, tm_mon = 5, tm_mday = 1, tm_hour = 12, tm_min = 0, tm_sec = 9\<rparr> 42) ex_logged)) in
     length fs = 17 \<and> inet_pton (fs ! 3) = Some 0x070000C0 \<and> atoi (fs ! 7) = 6 \<and> atoi (fs ! 10) = 7"
  using log_csv_reads_back [of ex_logged "\<lparr>tm_year = 114, tm_mon = 5, tm_mday = 1, tm_hour = 12, tm_min = 0, tm_sec = 9\<rparr>" 42]
  by (simp add: ex_logged_def zero_conn_def Let_def)

subsection \<open>The durations of a line\<close>

text \<open>The milliseconds a value of the line begins with: what stands before the first bar, if it is a number.\<close>

definition ms_of :: "string \<Rightarrow> int" where
  "ms_of x =
     (let u = takeWhile (\<lambda>ch. ch \<noteq> CHR ''|'') x; (sgn, v) = (if u \<noteq> [] \<and> hd u = CHR ''-'' then (-1, tl u) else (1, u)) in
      case split_on CHR ''.'' v of [a, b] \<Rightarrow> sgn * (1000 * int (digits_val a) + int (digits_val b)) | _ \<Rightarrow> 0)"

lemma digits_val_pad [simp]: "digits_val (dec_pad CHR ''0'' w n) = n"
proof -
  have "foldl (\<lambda>n c. 10 * n + (of_char c - 48)) 0 (replicate k CHR ''0'') = (0 :: nat)" for k by (induction k) simp_all
  then show ?thesis using digits_val_dec_nat [of n] by (simp add: digits_val_def dec_pad_def)
qed

lemma int_thousands: "1000 * int (n div 1000) + int (n mod 1000) = int n"
  by (metis mult_div_mod_eq of_nat_add of_nat_mult of_nat_numeral)

lemma ms_of_fmt3:
  assumes "r = [] \<or> hd r = CHR ''|''"
  shows "ms_of (fmt3 us @ r) = (if us < 0 then -1 else 1) * int (round_ms (nat \<bar>us\<bar>))"
proof -
  let ?ms = "round_ms (nat \<bar>us\<bar>)"
  let ?v = "dec_nat (?ms div 1000) @ ''.'' @ dec_pad CHR ''0'' 3 (?ms mod 1000)"
  have bar: "CHR ''|'' \<notin> set (fmt3 us)" by (rule free_text(3)) (simp_all add: is_digit_def)
  have "takeWhile (\<lambda>ch. ch \<noteq> CHR ''|'') r = []" using assms by (cases r) auto
  then have 1: "takeWhile (\<lambda>ch. ch \<noteq> CHR ''|'') (fmt3 us @ r) = fmt3 us"
    using bar by (subst takeWhile_append2) auto
  have 2: "split_on CHR ''.'' ?v = [dec_nat (?ms div 1000), dec_pad CHR ''0'' 3 (?ms mod 1000)]"
    by (simp add: split_on_append split_on_free dec_nat_free free_text(2))
  obtain ch u where ch: "dec_nat (?ms div 1000) = ch # u" "ch \<noteq> CHR ''-''"
    using dec_nat_Cons [of "?ms div 1000"] digit_not_special by blast
  have "(if fmt3 us \<noteq> [] \<and> hd (fmt3 us) = CHR ''-'' then (-1, tl (fmt3 us)) else (1, fmt3 us)) = ((if us < 0 then -1 else 1) :: int, ?v)"
    using ch by (simp add: fmt3_def Let_def)
  with 1 2 show ?thesis by (simp add: ms_of_def Let_def int_thousands)
qed

lemma round_ms_near: "\<bar>1000 * int (round_ms us) - int us\<bar> \<le> 500"
proof -
  define q r where "q = us div 1000" and "r = us mod 1000"
  then have "int us = 1000 * int q + int r" "r < 1000" using int_thousands [of us] by simp_all
  moreover have "round_ms us = (if 500 < r \<or> r = 500 \<and> odd q then q + 1 else q)" by (simp add: round_ms_def Let_def q_def r_def)
  ultimately show ?thesis by (auto split: if_split)
qed

lemma ms_of_near:
  assumes "r = [] \<or> hd r = CHR ''|''"
  shows "\<bar>1000 * ms_of (fmt3 us @ r) - us\<bar> \<le> 500"
  using round_ms_near [of "nat \<bar>us\<bar>"] unfolding ms_of_fmt3 [OF assms] by (cases "us < 0") auto

lemma status_info_ms: "status_info c i l = (d, tx, l') \<Longrightarrow> \<bar>1000 * ms_of tx - d\<bar> \<le> 500"
proof -
  have "ms_of ''.|.|.|.'' = 0" "ms_of ''.|.'' = 0" "ms_of ''.|.|.'' = 0" by (simp_all add: ms_of_def digits_val_def)
  moreover have "ms_of (fmt3 0 @ CHR ''|'' # r) = 0" for r by (simp add: ms_of_fmt3 round_ms_def)
  ultimately show "status_info c i l = (d, tx, l') \<Longrightarrow> \<bar>1000 * ms_of tx - d\<bar> \<le> 500"
    using ms_of_near unfolding status_info_def Let_def by (auto split: if_split_asm)
qed

lemma status_loop_ms:
  "status_loop c sts l = (xs, l') \<Longrightarrow> \<bar>1000 * sum_list (map ms_of (map snd xs)) - sum_list (map fst xs)\<bar> \<le> 500 * int (length sts)"
proof (induction sts arbitrary: l xs l')
  case (Cons i sts)
  obtain d tx l1 ys where r: "status_info c i l = (d, tx, l1)" "status_loop c sts l1 = (ys, l')" "xs = (d, tx) # ys"
    using Cons.prems by (auto simp: Let_def split: prod.split_asm)
  from Cons.IH [OF r(2)] status_info_ms [OF r(1)] show ?case unfolding r(3) by (simp add: algebra_simps)
qed simp

text \<open>C31: The durations printed in a line of the log agree with one another: each is rounded to a millisecond, and the
  sum of the five that are printed for the states differs from the printed total by at most three milliseconds,
  whatever the order of the times of the states.\<close>

theorem durations_add_up:
  assumes "CHR '','' \<notin> set (cn_decision_rule c)"
  shows "let fs = split_on CHR '','' (butlast (log_csv (now_str t usec) c)) in
    \<bar>sum_list (map ms_of (take 5 (drop 11 fs))) - ms_of (fs ! 1)\<bar> \<le> 3"
proof -
  obtain xs l where s: "status_loop c logged_states (cn_start_microtime c) = (xs, l)" by fastforce
  have "\<bar>1000 * sum_list (map ms_of (status_texts c)) - (l - cn_start_microtime c)\<bar> \<le> 2500"
    using status_loop_ms [OF s] status_loop_sum [OF s] s by (simp add: status_texts_def logged_states_def)
  moreover have "\<bar>1000 * ms_of (fmt3 (l - cn_start_microtime c)) - (l - cn_start_microtime c)\<bar> \<le> 500"
    using ms_of_near [of "[]"] by simp
  ultimately have "\<bar>sum_list (map ms_of (status_texts c)) - ms_of (fmt3 (total_duration c))\<bar> \<le> 3"
    unfolding total_duration_def s by simp
  then show ?thesis using csv_line [OF assms] by (simp add: csv_fields_def length_status_texts Let_def)
qed

theorem durations_add_up_witness:
  "let fs = split_on CHR '','' (butlast (log_csv (now_str \<lparr>tm_year = 114, tm_mon = 5, tm_mday = 1, tm_hour = 12, tm_min = 0, tm_sec = 9\<rparr> 42) ex_logged)) in
     map ms_of (take 5 (drop 11 fs)) = [500, 0, 1500, 0, 0] \<and> ms_of (fs ! 1) \<in> {1997..2003}"
proof -
  let ?t = "\<lparr>tm_year = 114, tm_mon = 5, tm_mday = 1, tm_hour = 12, tm_min = 0, tm_sec = 9\<rparr>"
  have n: "CHR '','' \<notin> set (cn_decision_rule ex_logged)" by (simp add: ex_logged_def zero_conn_def)
  have "map ms_of (status_texts ex_logged) = [500, 0, 1500, 0, 0]"
    by (simp add: status_texts_def logged_states_def status_info_def ex_logged_def status_order Let_def ms_of_fmt3 round_ms_def)
      (simp add: ms_of_def digits_val_def)
  then have m: "map ms_of (take 5 (drop 11 (split_on CHR '','' (butlast (log_csv (now_str ?t 42) ex_logged))))) = [500, 0, 1500, 0, 0]"
    using csv_line [OF n, of ?t 42] by (simp add: csv_fields_def length_status_texts)
  then show ?thesis using durations_add_up [OF n, of ?t 42] unfolding Let_def by auto
qed

section \<open>What goes wrong\<close>

lemma log_L_text:
  assumes "le_tm L = Some t"
  obtains out where "log_L L s (Some x) None lv i = Inr (s\<lparr>lg_stdout := out\<rparr>)"
  using assms by (cases "lg_level s < lv") (simp_all add: log_L_def honeylog_def g_print_def Let_def)

lemma log_L_buffer:
  assumes "le_tm L = Some t" and "b \<in> lg_blocks s"
  obtains out where "log_L L s None (Some (b, x)) lv i = Inr (s\<lparr>lg_blocks := lg_blocks s - {b}, lg_stdout := out\<rparr>)"
  using assms by (cases "lg_level s < lv") (simp_all add: log_L_def honeylog_def g_print_def free_block_def Let_def)

lemma move_log_ok:
  assumes "le_tm L = Some t" and "lg_logfd s" and "cfg ''log_file'' = Some (CfgString f)"
    and "length f + length (rotated_name f t) < 440" and "cfg ''log_directory'' \<noteq> None" and "cfg ''exec_directory'' \<noteq> None"
    and "le_chdir_log L" and "le_chdir_exec L" and "le_rename L"
  shows "\<exists>s'. move_log L cfg s t = Inr s'"
proof -
  let ?s = "s\<lparr>lg_logfd := False, lg_next := lg_next s + 1, lg_blocks := insert (lg_next s) (lg_blocks s)\<rparr>"
  obtain out where "log_L L ?s None (Some (lg_next s, rcl (''Rotating log file from '' @ f @ '' to '' @ rotated_name f t))) LOG_HIGH LOG_LOG =
      Inr (?s\<lparr>lg_blocks := lg_blocks ?s - {lg_next s}, lg_stdout := out\<rparr>)"
    by (rule log_L_buffer [OF assms(1), of "lg_next s" ?s]) (simp, rule that)
  with assms show ?thesis by (auto simp: move_log_def new_block_def config_required_def cfg_string_def Let_def)
qed

text \<open>C32: Every rotation of the log ends the program: the last message is in a buffer that the logging function
  frees, and the buffer is freed once more.\<close>

theorem rotation_double_free:
  assumes "le_tm L = Some t" and "lg_last_rotation s \<noteq> 0" and "lg_last_rotation s < tm_stamp t \<or> 0 < signal_nb"
    and "lg_logfd s" and "cfg ''log_file'' = Some (CfgString f)" and "length f + length (rotated_name f t) < 440"
    and "cfg ''log_directory'' \<noteq> None" and "cfg ''exec_directory'' \<noteq> None" and "le_chdir_log L" and "le_chdir_exec L" and "le_rename L"
  shows "rotate_connection_log L cfg s signal_nb = Inl DoubleFree"
proof -
  obtain o1 where 1: "log_L L s (Some (rcl ''Called'')) None LOG_ALL LOG_LOG = Inr (s\<lparr>lg_stdout := o1\<rparr>)"
    by (rule log_L_text [OF assms(1)])
  let ?s1 = "s\<lparr>lg_stdout := o1\<rparr>"
  have 3: "rbind (log_L L (snd (new_block s2)) None (Some (fst (new_block s2), x)) LOG_HIGH LOG_LOG) (\<lambda>s. free_block s (fst (new_block s2)))
      = Inl DoubleFree" for s2 x
    by (rule log_L_buffer [OF assms(1), of "fst (new_block s2)" "snd (new_block s2)" x LOG_HIGH LOG_LOG])
      (simp_all add: new_block_def free_block_def)
  have 2: "rbind (log_L L ?s1 (Some x) None LOG_MED LOG_LOG) (\<lambda>s. rbind (move_log L cfg s t) (\<lambda>_. Inl DoubleFree)) = (Inl DoubleFree :: log_state res)" for x
  proof -
    obtain out where out: "log_L L ?s1 (Some x) None LOG_MED LOG_LOG = Inr (?s1\<lparr>lg_stdout := out\<rparr>)"
      by (rule log_L_text [OF assms(1)])
    have "lg_logfd (?s1\<lparr>lg_stdout := out\<rparr>)" using assms(4) by simp
    from move_log_ok [OF assms(1) this assms(5-)] out show ?thesis by auto
  qed
  show ?thesis
    unfolding rotate_connection_log_def 1 rbind_Inr using assms(1-3) 3 2 by (simp add: Let_def case_prod_beta)
qed

definition ex_log_env :: log_env where
  "ex_log_env = \<lparr>le_tm = Some \<lparr>tm_year = 114, tm_mon = 5, tm_mday = 1, tm_hour = 12, tm_min = 0, tm_sec = 9\<rparr>, le_usec = 42, le_chdir_log = True,
     le_chdir_exec = True, le_rename = True, le_fopen = True, le_connect = True, le_ping = False\<rparr>"

definition ex_log :: log_state where
  "ex_log = \<lparr>lg_last_rotation = 114060111, lg_logfd = True, lg_level = 0, lg_blocks = {}, lg_next = 0, lg_stdout = [], lg_file = [],
     lg_rotated = [], lg_mysql = Live, lg_queries = []\<rparr>"

theorem rotation_double_free_witness:
  "connection_log ex_log_env [''log_rotation'' \<mapsto> CfgInt 1, ''output'' \<mapsto> CfgInt 3, ''log_file'' \<mapsto> CfgString ''h.log'',
     ''log_directory'' \<mapsto> CfgString ''/l'', ''exec_directory'' \<mapsto> CfgString ''/e''] ex_log '''' ex_logged = Inl DoubleFree"
proof -
  let ?cfg = "[''log_rotation'' \<mapsto> CfgInt 1, ''output'' \<mapsto> CfgInt 3, ''log_file'' \<mapsto> CfgString ''h.log'',
     ''log_directory'' \<mapsto> CfgString ''/l'', ''exec_directory'' \<mapsto> CfgString ''/e'']"
  have "rotate_connection_log ex_log_env ?cfg ex_log 0 = Inl DoubleFree"
    by (rule rotation_double_free [where f = "''h.log''" and t = "the (le_tm ex_log_env)"])
      (simp_all add: ex_log_env_def ex_log_def tm_stamp_def rotated_name_def dec_int_def dec_pad_def dec_nat.simps)
  then show ?thesis by (simp add: connection_log_def ICONFIG_def cfg_int_def)
qed

text \<open>Once the connection to the database is lost the handle is closed and kept: the connection that is logged
  next reads freed memory.\<close>

theorem mysql_lost_crash:
  assumes "lg_mysql s = Live" and "\<not> le_ping L"
  shows "\<exists>s'. log_mysql L cfg s c = Inr s' \<and> lg_queries s' = lg_queries s \<and>
    (\<forall>L' cfg' c'. log_mysql L' cfg' s' c' = Inl UseAfterFree)"
  using assms by (simp add: log_mysql_def init_mysql_log_def)

theorem mysql_lost_crash_witness:
  "\<exists>s'. log_mysql ex_log_env Map.empty ex_log ex_logged = Inr s' \<and> log_mysql ex_log_env Map.empty s' ex_logged = Inl UseAfterFree"
  using mysql_lost_crash [of ex_log ex_log_env Map.empty ex_logged] by (fastforce simp: ex_log_def ex_log_env_def)

end
