(* ===== verification/Startup.thy ===== *)
theory Startup
  imports Config_Theorems Log
begin

text \<open>
  Start and end of the program (\<open>honeybrid.c\<close>: \<open>main\<close>, \<open>init_syslog\<close>, \<open>init_signal\<close>, \<open>init_pcap\<close>, \<open>wait_pcap\<close>,
  \<open>close_thread\<close>, \<open>close_hash\<close>, \<open>close_all\<close>; \<open>netcode.c\<close>: \<open>set_iface_info\<close>).  What the kernel and the capture library
  answer is the record \<open>sys_env\<close>; the options are given as \<open>getopt\<close> returns them.  A table of links is visited in an
  order of its own: the interfaces are given as a list.
\<close>

record sys_env =
  sy_exists :: "int \<Rightarrow> bool"
  sy_file :: "string \<Rightarrow> string option"
  sy_sigaction :: "string \<Rightarrow> bool"
  sy_daemon :: bool
  sy_fopen :: "string \<Rightarrow> bool"
  sy_debug :: bool
  sy_socket :: bool
  sy_addr :: "string \<Rightarrow> u32 option"
  sy_mtu :: "string \<Rightarrow> u32 option"
  sy_hwaddr :: "string \<Rightarrow> (bool \<times> mac_t) option"
  sy_lookupnet :: "string \<Rightarrow> u32 option"
  sy_open :: "string \<Rightarrow> bool"
  sy_compile :: "string \<Rightarrow> u32 \<Rightarrow> bool"
  sy_setfilter :: "string \<Rightarrow> bool"

section \<open>The command line\<close>

record main_options =
  mo_config :: string
  mo_daemonize :: bool

text \<open>The program ends with a status, after it has asked another process to end or not, or it goes on.\<close>

datatype options = ExitWith int | Halted int | Go main_options

fun read_options :: "sys_env \<Rightarrow> main_options \<Rightarrow> (char \<times> string) list \<Rightarrow> options" where
  "read_options S m [] = Go m"
| "read_options S m ((c, optarg) # os) =
     (if c = CHR ''c'' then read_options S (m\<lparr>mo_config := optarg\<rparr>) os
      else if c = CHR ''x'' then
        (let pid = atoi optarg in if sy_exists S pid then Halted pid else ExitWith 1)
      else if c = CHR ''V'' then ExitWith 0
      else if c = CHR ''s'' then ExitWith (-1)
      else if c = CHR ''d'' then read_options S (m\<lparr>mo_daemonize := True\<rparr>) os
      else ExitWith 1)"

definition main_arguments :: "sys_env \<Rightarrow> int \<Rightarrow> (char \<times> string) list \<Rightarrow> options" where
  "main_arguments S argc os =
     (if argc < 2 then ExitWith 1 else read_options S \<lparr>mo_config = [], mo_daemonize = False\<rparr> os)"

text \<open>The line for the system log: the arguments with blanks between them, cut at the size of the buffer.\<close>

abbreviation MAXPATHLEN :: nat where "MAXPATHLEN \<equiv> 4096"

text \<open>\<open>g_strlcat\<close>: the new contents and the length that would have been needed.\<close>

definition g_strlcat :: "string \<Rightarrow> string \<Rightarrow> nat \<Rightarrow> string \<times> nat" where
  "g_strlcat dest src siz = (take (siz - 1) (dest @ src), length dest + length src)"

fun syslog_loop :: "string \<Rightarrow> string list \<Rightarrow> string" where
  "syslog_loop buf [] = buf"
| "syslog_loop buf (a # as) =
     (let (buf, n) = g_strlcat buf '' '' MAXPATHLEN in
      if MAXPATHLEN \<le> n then buf
      else let (buf, n) = g_strlcat buf a MAXPATHLEN in if MAXPATHLEN \<le> n then buf else syslog_loop buf as)"

fun init_syslog :: "string list \<Rightarrow> string" where
  "init_syslog [] = []"
| "init_syslog (a # as) =
     (let (buf, n) = g_strlcat [] a MAXPATHLEN in if MAXPATHLEN \<le> n then buf else syslog_loop buf as)"

section \<open>Signals (init_signal)\<close>

datatype sig_action = Terminate | Ignored | RotateLog

definition signal_table :: "(string \<times> sig_action) list" where
  "signal_table = map (\<lambda>x. (x, Terminate)) [''SIGHUP'', ''SIGINT'', ''SIGQUIT'', ''SIGILL'', ''SIGSEGV'', ''SIGTERM'', ''SIGBUS'']
     @ map (\<lambda>x. (x, Ignored)) [''SIGABRT'', ''SIGALRM'', ''SIGUSR2'', ''SIGPOLL''] @ [(''SIGUSR1'', RotateLog)]"

fun install_signals :: "sys_env \<Rightarrow> (string \<rightharpoonup> sig_action) \<Rightarrow> (string \<times> sig_action) list \<Rightarrow> (string \<rightharpoonup> sig_action) res" where
  "install_signals S h [] = Inr h"
| "install_signals S h ((x, a) # xs) =
     rbind (guard ExitCall (sy_sigaction S x)) (\<lambda>_. install_signals S (h(x \<mapsto> a)) xs)"

definition init_signal :: "sys_env \<Rightarrow> (string \<rightharpoonup> sig_action) res" where
  "init_signal S = install_signals S Map.empty signal_table"

section \<open>Interfaces (set_iface_info)\<close>

definition set_iface_info :: "sys_env \<Rightarrow> interface \<Rightarrow> interface res" where
  "set_iface_info S i =
     rbind (nonnull (if_name i)) (\<lambda>name.
     rbind (guard ExitCall (length name < 16)) (\<lambda>_.
     rbind (guard ExitCall (sy_socket S)) (\<lambda>_.
     let i = (case sy_addr S name of None \<Rightarrow> i | Some a \<Rightarrow> i\<lparr>if_ip := Some a\<rparr>) in
     rbind (valid (sy_mtu S name)) (\<lambda>mtu.
     rbind (valid (sy_hwaddr S name)) (\<lambda>(ethernet, mac).
     rbind (guard ExitCall ethernet) (\<lambda>_.
     Inr (i\<lparr>if_mtu := mtu, if_mac := mac\<rparr>)))))))"

section \<open>Capturing (init_pcap, wait_pcap)\<close>

text \<open>A capture that was opened: its filter, whether a thread runs its loop, and whether the loop was told to end.\<close>

record capture =
  cap_filter :: "string option"
  cap_promisc :: int
  cap_looper :: bool
  cap_break :: bool

text \<open>One interface; the answer is false where the function returns early.\<close>

definition init_link :: "sys_env \<Rightarrow> interface \<Rightarrow> (interface \<times> capture \<times> bool) res" where
  "init_link S i =
     rbind (set_iface_info S i) (\<lambda>i.
     rbind (nonnull (if_name i)) (\<lambda>name.
     rbind (if if_ip i \<noteq> None then valid (sy_lookupnet S name) else Inr 0) (\<lambda>netmask.
     rbind (guard ExitCall (sy_open S name)) (\<lambda>_.
     let c = \<lparr>cap_filter = None, cap_promisc = 0, cap_looper = True, cap_break = False\<rparr> in
     (case if_filter i of
        None \<Rightarrow> Inr (i, c, True)
      | Some f \<Rightarrow>
          rbind (guard ExitCall (sy_compile S f netmask)) (\<lambda>_.
          Inr (if sy_setfilter S f then (i, c\<lparr>cap_filter := Some f\<rparr>, True) else (i, c\<lparr>cap_looper := False\<rparr>, False))))))))"

fun init_pcap :: "sys_env \<Rightarrow> hb_state \<Rightarrow> (ptr \<rightharpoonup> capture) \<Rightarrow> ptr list \<Rightarrow> (hb_state \<times> (ptr \<rightharpoonup> capture)) res" where
  "init_pcap S s caps [] = Inr (s, caps)"
| "init_pcap S s caps (p # ps) =
     rbind (get_iface s (Some p)) (\<lambda>i.
     rbind (init_link S i) (\<lambda>(i, c, ok).
     let s = s\<lparr>st_ifaces := (st_ifaces s)(p \<mapsto> i)\<rparr>; caps = caps(p \<mapsto> c) in
     if ok then init_pcap S s caps ps else Inr (s, caps)))"

text \<open>The signal handler tells every loop to end; a capture that was not opened is a null pointer, here and where the
  captures are closed.\<close>

fun term_signal_handler :: "(ptr \<rightharpoonup> capture) \<Rightarrow> ptr list \<Rightarrow> (ptr \<rightharpoonup> capture) res" where
  "term_signal_handler caps [] = Inr caps"
| "term_signal_handler caps (p # ps) =
     rbind (nonnull (caps p)) (\<lambda>c. term_signal_handler (caps(p \<mapsto> c\<lparr>cap_break := True\<rparr>)) ps)"

text \<open>\<open>pcap_loop\<close> with a count of -1 returns when it was told to end, or of itself when reading from the device fails;
  the set \<open>failed\<close> holds the links whose loop has ended in that way.  \<open>g_thread_join\<close> waits for the thread of a link until
  then, and returns at once where no thread was made.\<close>

definition loop_ended :: "ptr set \<Rightarrow> ptr \<Rightarrow> capture \<Rightarrow> bool" where
  "loop_ended failed p c \<longleftrightarrow> cap_break c \<or> p \<in> failed"

definition join_looper :: "ptr set \<Rightarrow> (ptr \<rightharpoonup> capture) \<Rightarrow> ptr \<Rightarrow> unit res" where
  "join_looper failed caps p =
     (case caps p of None \<Rightarrow> Inr () | Some c \<Rightarrow> guard Hangs (cap_looper c \<longrightarrow> loop_ended failed p c))"

fun wait_pcap :: "ptr set \<Rightarrow> (ptr \<rightharpoonup> capture) \<Rightarrow> ptr list \<Rightarrow> (ptr \<rightharpoonup> capture) res" where
  "wait_pcap failed caps [] = Inr caps"
| "wait_pcap failed caps (p # ps) =
     rbind (join_looper failed caps p) (\<lambda>_.
     rbind (nonnull (caps p)) (\<lambda>_. wait_pcap failed (caps(p := None)) ps))"

section \<open>The start (main)\<close>

text \<open>\<open>close_hash\<close> resets the pointer to the settings, but not the one to the modules: after it that pointer dangles.\<close>

datatype module_table = ModuleTable "string \<rightharpoonup> config" | ModuleFreed

record running =
  rn_hb :: hb_state
  rn_config :: "config option"
  rn_modules :: module_table
  rn_output :: output_t
  rn_background :: bool
  rn_debug :: bool
  rn_log :: log_state
  rn_queues :: "raw_pcap list list"
  rn_captures :: "ptr \<rightharpoonup> capture"

definition ICONFIG_REQUIRED :: "config \<Rightarrow> string \<Rightarrow> int res" where
  "ICONFIG_REQUIRED cfg k = rbind (config_required cfg k) cfg_int"

text \<open>\<open>open_debug_log\<close>, when debugging is on and a file is named.\<close>

definition open_debug_log :: "sys_env \<Rightarrow> log_env \<Rightarrow> config \<Rightarrow> unit res" where
  "open_debug_log S G cfg =
     rbind (config_required cfg ''log_directory'') (\<lambda>_.
     rbind (guard ExitCall (le_chdir_log G)) (\<lambda>_.
     rbind (config_required cfg ''debug_file'') (\<lambda>_.
     rbind (guard ExitCall (sy_debug S)) (\<lambda>_.
     rbind (config_required cfg ''exec_directory'') (\<lambda>_. Inr ())))))"


text \<open>The database is used in a build with MySQL only (\<open>have_mysql\<close>); a debug file that is opened becomes the standard
  output.\<close>

definition start_outputs ::
  "bool \<Rightarrow> sys_env \<Rightarrow> log_env \<Rightarrow> config \<Rightarrow> output_t \<Rightarrow> log_state \<Rightarrow> (bool \<times> log_state) res" where
  "start_outputs have_mysql S G cfg output g =
     rbind (ICONFIG cfg ''debug'') (\<lambda>n.
     rbind (if 0 < n \<and> cfg ''debug_file'' \<noteq> None then open_debug_log S G cfg else Inr ()) (\<lambda>_.
     rbind (if output = OUTPUT_MYSQL
            then rbind (guard ExitCall have_mysql) (\<lambda>_. rbind (init_mysql_log G cfg g) (\<lambda>(_, g). Inr g)) else Inr g) (\<lambda>g.
     rbind (if output = OUTPUT_LOGFILES then open_connection_log G cfg g else Inr g) (\<lambda>g.
     Inr (0 < n, g)))))"

definition main_start ::
  "bool \<Rightarrow> env \<Rightarrow> load_env \<Rightarrow> sys_env \<Rightarrow> log_env \<Rightarrow> main_options \<Rightarrow> hb_state \<Rightarrow> log_state \<Rightarrow> (hb_state \<Rightarrow> ptr list) \<Rightarrow> running res" where
  "main_start have_mysql E L S G m s0 g order =
     rbind (startup E L s0 (sy_file S (mo_config m))) (\<lambda>ls.
     let s = ls_hb ls; cfg = ls_config ls in
     rbind (init_signal S) (\<lambda>_.
     rbind (ICONFIG_REQUIRED cfg ''output'') (\<lambda>n.
     let output = to_output n; back = (mo_daemonize m \<and> output \<noteq> OUTPUT_STDOUT) in
     rbind (guard ExitCall (back \<longrightarrow> sy_daemon S)) (\<lambda>_.
     rbind (config_required cfg ''exec_directory'') (\<lambda>v.
     rbind (cfg_string v) (\<lambda>dir.
     rbind (guard ExitCall (sy_fopen S (dir @ ''/honeybrid.pid''))) (\<lambda>_.
     rbind (start_outputs have_mysql S G cfg output g) (\<lambda>(dbg, g).
     rbind (ICONFIG_REQUIRED cfg ''decision_threads'') (\<lambda>t.
     rbind (init_mod_vmi cfg) (\<lambda>_.
     rbind (init_pcap S s Map.empty (order s)) (\<lambda>(s, caps).
     Inr \<lparr>rn_hb = s, rn_config = Some cfg, rn_modules = ModuleTable (ls_modules ls), rn_output = output, rn_background = back, rn_debug = dbg, rn_log = g,
          rn_queues = replicate (unat (word_of_int t :: u32)) [], rn_captures = caps\<rparr>)))))))))))"

section \<open>The end (close_thread, close_hash, close_all)\<close>

text \<open>Every decision thread deals with what its queue holds before the mark that ends it.\<close>

fun drain_queue :: "env \<Rightarrow> hb_state \<Rightarrow> raw_pcap list \<Rightarrow> hb_state res" where
  "drain_queue E s [] = Inr s"
| "drain_queue E s (raw # raws) = rbind (de_step E s raw) (\<lambda>s. drain_queue E s raws)"

fun close_thread :: "env \<Rightarrow> hb_state \<Rightarrow> raw_pcap list list \<Rightarrow> hb_state res" where
  "close_thread E s [] = Inr s"
| "close_thread E s (q # qs) = rbind (drain_queue E s q) (\<lambda>s. close_thread E s qs)"

definition free_interface :: "hb_state \<Rightarrow> ptr \<Rightarrow> hb_state res" where
  "free_interface s i =
     rbind (guard DoubleFree (st_ifaces s i \<noteq> None)) (\<lambda>_. Inr (s\<lparr>st_ifaces := (st_ifaces s)(i := None)\<rparr>))"

fun free_interfaces :: "hb_state \<Rightarrow> ptr list \<Rightarrow> hb_state res" where
  "free_interfaces s [] = Inr s"
| "free_interfaces s (i # is) = rbind (free_interface s i) (\<lambda>s. free_interfaces s is)"

fun free_targets :: "hb_state \<Rightarrow> ptr list \<Rightarrow> hb_state res" where
  "free_targets s [] = Inr s"
| "free_targets s (p # ps) = rbind (free_target s p) (\<lambda>s. free_targets s ps)"

text \<open>The settings and the modules hold only texts and numbers of their own; destroying a table that was destroyed
  before is a double free.\<close>

definition close_hash :: "hb_state \<Rightarrow> config option \<Rightarrow> module_table \<Rightarrow> ptr list \<Rightarrow> (hb_state \<times> config option \<times> module_table) res" where
  "close_hash s config modules order =
     rbind (guard DoubleFree (modules \<noteq> ModuleFreed)) (\<lambda>_.
     rbind (free_interfaces s order) (\<lambda>s.
     rbind (free_targets s (map snd (targets s))) (\<lambda>s.
     Inr (s\<lparr>links := Map.empty, module_to_save := Map.empty, targets := []\<rparr>, None, ModuleFreed))))"

definition close_all :: "env \<Rightarrow> running \<Rightarrow> ptr list \<Rightarrow> running res" where
  "close_all E r order =
     rbind (close_thread E (rn_hb r) (rn_queues r)) (\<lambda>s.
     rbind (close_conn_trees E s) (\<lambda>s.
     rbind (nonnull (rn_config r)) (\<lambda>cfg.
     rbind (ICONFIG_REQUIRED cfg ''output'') (\<lambda>n.
     rbind (if to_output n = OUTPUT_LOGFILES then close_connection_log (rn_log r) else Inr (rn_log r)) (\<lambda>g.
     rbind (close_hash s (rn_config r) (rn_modules r) order) (\<lambda>(s, config, modules).
     Inr (r\<lparr>rn_hb := s, rn_config := config, rn_modules := modules, rn_log := g, rn_queues := []\<rparr>)))))))"

text \<open>The end of \<open>main\<close>: the captures, then everything else.  \<open>close_modules\<close> only ends the virtual machines.\<close>

definition main_end :: "env \<Rightarrow> ptr set \<Rightarrow> running \<Rightarrow> (hb_state \<Rightarrow> ptr list) \<Rightarrow> running res" where
  "main_end E failed r order =
     rbind (wait_pcap failed (rn_captures r) (order (rn_hb r))) (\<lambda>caps.
     close_all E (r\<lparr>rn_captures := caps\<rparr>) (order (rn_hb r)))"

section \<open>Theorems\<close>

lemma take_over: "n \<le> length xs \<Longrightarrow> take n (xs @ ys) = take n xs"
  by simp

lemma take_over_Cons: "n \<le> Suc (length xs) \<Longrightarrow> take n (x # xs @ ys) = take n (x # xs)"
  by (cases n) simp_all

lemma syslog_loop_join:
  "length buf < MAXPATHLEN \<Longrightarrow> syslog_loop buf as = take (MAXPATHLEN - 1) (buf @ concat (map ((#) CHR '' '') as))"
proof (induction as arbitrary: buf)
  case (Cons a as)
  show ?case
  proof (cases "length buf + 1 < MAXPATHLEN \<and> length (buf @ '' '' @ a) < MAXPATHLEN")
    case True
    then have "take (MAXPATHLEN - 1) (buf @ '' '' @ a) = buf @ '' '' @ a" by (intro take_all) simp
    with True Cons.IH [of "buf @ '' '' @ a"] show ?thesis by (simp add: g_strlcat_def Let_def)
  qed (use Cons.prems in \<open>auto simp: g_strlcat_def Let_def take_over take_over_Cons min_def\<close>)
qed simp

lemma join_blank: "join '' '' (a # as) = a @ concat (map ((#) CHR '' '') as)"
  by (induction as arbitrary: a) simp_all

theorem init_syslog_line: "init_syslog args = take (MAXPATHLEN - 1) (join '' '' args)"
proof (cases args)
  case (Cons a as)
  then show ?thesis
    using syslog_loop_join [of a as] by (cases "length a < MAXPATHLEN") (auto simp: g_strlcat_def Let_def join_blank take_over)
qed simp


text \<open>An interface for which the kernel and the capture library answer.\<close>

definition answers :: "sys_env \<Rightarrow> interface \<Rightarrow> bool" where
  "answers S i = (case if_name i of
     None \<Rightarrow> False
   | Some n \<Rightarrow> length n < 16 \<and> sy_socket S \<and> sy_mtu S n \<noteq> None \<and>
       (case sy_hwaddr S n of None \<Rightarrow> False | Some (ethernet, _) \<Rightarrow> ethernet) \<and> sy_lookupnet S n \<noteq> None \<and> sy_open S n)"

definition filters :: "sys_env \<Rightarrow> interface \<Rightarrow> bool" where
  "filters S i = (case if_filter i of None \<Rightarrow> True | Some f \<Rightarrow> sy_setfilter S f)"

lemma init_link_opens:
  assumes "answers S i" and "\<And>f m. if_filter i = Some f \<Longrightarrow> sy_compile S f m"
  shows "\<exists>i' c. init_link S i = Inr (i', c, filters S i) \<and> cap_looper c = filters S i \<and> \<not> cap_break c \<and> if_name i' = if_name i \<and>
    if_filter i' = if_filter i \<and> if_target i' = if_target i"
  using assms
  by (auto simp: answers_def filters_def init_link_def set_iface_info_def valid_def guard_def Let_def split: option.splits)


definition openable :: "sys_env \<Rightarrow> hb_state \<Rightarrow> ptr \<Rightarrow> bool" where
  "openable S s p \<longleftrightarrow> (\<exists>i. st_ifaces s p = Some i \<and> answers S i \<and> (\<forall>f m. if_filter i = Some f \<longrightarrow> sy_compile S f m))"

definition filtered :: "sys_env \<Rightarrow> hb_state \<Rightarrow> ptr \<Rightarrow> bool" where
  "filtered S s p \<longleftrightarrow> (\<exists>i. st_ifaces s p = Some i \<and> filters S i)"

lemma init_pcap_step:
  assumes "openable S s p"
  shows "\<exists>s' c. (\<forall>q. openable S s' q = openable S s q \<and> filtered S s' q = filtered S s q) \<and> cap_looper c = filtered S s p \<and> \<not> cap_break c \<and>
    (\<forall>ps. init_pcap S s caps (p # ps) = (if filtered S s p then init_pcap S s' (caps(p \<mapsto> c)) ps else Inr (s', caps(p \<mapsto> c))))"
proof -
  from assms obtain i where i: "st_ifaces s p = Some i" "answers S i" "\<And>f m. if_filter i = Some f \<Longrightarrow> sy_compile S f m"
    by (auto simp: openable_def)
  from init_link_opens [OF i(2,3)] obtain i' c where l: "init_link S i = Inr (i', c, filters S i)" "cap_looper c = filters S i" "\<not> cap_break c"
    "if_name i' = if_name i" "if_filter i' = if_filter i" by blast
  let ?s = "s\<lparr>st_ifaces := (st_ifaces s)(p \<mapsto> i')\<rparr>"
  have "openable S ?s q = openable S s q \<and> filtered S ?s q = filtered S s q" for q
    using i l by (auto simp: openable_def filtered_def answers_def filters_def)
  moreover have "filtered S s p = filters S i" using i by (simp add: filtered_def)
  ultimately show ?thesis using i l by (intro exI [of _ ?s] exI [of _ c]) (simp add: get_iface_def Let_def)
qed

text \<open>What is opened: every interface up to the first whose filter is refused.\<close>

lemma init_pcap_all:
  assumes "\<forall>p \<in> set ps. openable S s p \<and> filtered S s p"
  shows "\<exists>s' caps'. (\<forall>qs. init_pcap S s caps (ps @ qs) = init_pcap S s' caps' qs) \<and>
    (\<forall>q. openable S s' q = openable S s q \<and> filtered S s' q = filtered S s q) \<and>
    dom caps' = dom caps \<union> set ps \<and> (\<forall>q c. caps' q = Some c \<longrightarrow> cap_looper c \<and> \<not> cap_break c \<or> caps q = Some c)"
  using assms
proof (induction ps arbitrary: s caps)
  case Nil
  then show ?case by (intro exI [of _ s] exI [of _ caps]) simp
next
  case (Cons p ps)
  from Cons.prems init_pcap_step [of S s p caps] obtain s1 c where 1:
    "\<forall>q. openable S s1 q = openable S s q \<and> filtered S s1 q = filtered S s q" "cap_looper c" "\<not> cap_break c"
    "\<And>qs. init_pcap S s caps (p # qs) = init_pcap S s1 (caps(p \<mapsto> c)) qs" by auto
  have "\<forall>q \<in> set ps. openable S s1 q \<and> filtered S s1 q" using Cons.prems 1(1) by simp
  from Cons.IH [OF this, of "caps(p \<mapsto> c)"] obtain s2 caps2 where
    "\<forall>qs. init_pcap S s1 (caps(p \<mapsto> c)) (ps @ qs) = init_pcap S s2 caps2 qs"
    "\<forall>q. openable S s2 q = openable S s1 q \<and> filtered S s2 q = filtered S s1 q"
    "dom caps2 = dom (caps(p \<mapsto> c)) \<union> set ps" "\<forall>q c'. caps2 q = Some c' \<longrightarrow> cap_looper c' \<and> \<not> cap_break c' \<or> (caps(p \<mapsto> c)) q = Some c'" by blast
  with 1 show ?case by (intro exI [of _ s2] exI [of _ caps2]) (auto split: if_split_asm)
qed


text \<open>A link whose capture is open and whose thread, if there is one, has come to its end.\<close>

definition waited :: "ptr set \<Rightarrow> (ptr \<rightharpoonup> capture) \<Rightarrow> ptr \<Rightarrow> bool" where
  "waited failed caps p \<longleftrightarrow> (\<exists>c. caps p = Some c \<and> (cap_looper c \<longrightarrow> loop_ended failed p c))"

lemma join_looper_eq:
  "join_looper failed caps p = Inr () \<longleftrightarrow> caps p = None \<or> waited failed caps p"
  "join_looper failed caps p \<noteq> Inr () \<Longrightarrow> join_looper failed caps p = Inl Hangs"
  by (auto simp: join_looper_def waited_def guard_def split: option.split option.split_asm if_split_asm)

lemma wait_pcap_append:
  "distinct ps \<Longrightarrow> \<forall>p \<in> set ps. waited failed caps p \<Longrightarrow>
    wait_pcap failed caps (ps @ qs) = wait_pcap failed (caps |` (- set ps)) qs"
proof (induction ps arbitrary: caps)
  case (Cons p ps)
  moreover have "(caps(p := None)) |` (- set ps) = caps |` (- set (p # ps))" by (auto simp: restrict_map_def)
  moreover have "\<forall>r \<in> set ps. waited failed (caps(p := None)) r" using Cons.prems by (auto simp: waited_def)
  moreover have "join_looper failed caps p = Inr ()" "caps p \<noteq> None" using Cons.prems by (auto simp: join_looper_eq waited_def)
  ultimately show ?case using Cons.IH [of "caps(p := None)"] by (auto simp: nonnull_def simp del: restrict_map_insert)
qed (simp add: restrict_map_def)

lemma wait_pcap_hangs:
  "distinct ps \<Longrightarrow> \<forall>p \<in> set ps. caps p \<noteq> None \<Longrightarrow> \<not> (\<forall>p \<in> set ps. waited failed caps p) \<Longrightarrow>
    wait_pcap failed caps (ps @ qs) = Inl Hangs"
proof (induction ps arbitrary: caps)
  case (Cons p ps)
  show ?case
  proof (cases "waited failed caps p")
    case True
    then have "join_looper failed caps p = Inr ()" by (simp add: join_looper_eq)
    moreover have "\<not> (\<forall>r \<in> set ps. waited failed (caps(p := None)) r)" "\<forall>r \<in> set ps. (caps(p := None)) r \<noteq> None"
      using Cons.prems True by (auto simp: waited_def)
    then have "wait_pcap failed (caps(p := None)) (ps @ qs) = Inl Hangs" using Cons.prems(1) by (intro Cons.IH) (simp_all del: fun_upd_apply)
    ultimately show ?thesis using Cons.prems(2) by (auto simp: nonnull_def)
  next
    case False
    then have "join_looper failed caps p = Inl Hangs" using Cons.prems(2) by (intro join_looper_eq(2)) (simp add: join_looper_eq)
    then show ?thesis by simp
  qed
qed simp

lemma term_signal_append:
  "\<forall>p \<in> set ps. caps p \<noteq> None \<Longrightarrow>
    \<exists>caps'. term_signal_handler caps (ps @ qs) = term_signal_handler caps' qs \<and> dom caps' = dom caps \<and>
      (\<forall>p \<in> set ps. \<exists>c. caps' p = Some c \<and> cap_break c) \<and> (\<forall>p c. caps p = Some c \<and> cap_break c \<longrightarrow> (\<exists>c. caps' p = Some c \<and> cap_break c))"
proof (induction ps arbitrary: caps)
  case (Cons p ps)
  then obtain c where c: "caps p = Some c" by auto
  let ?caps = "caps(p \<mapsto> c\<lparr>cap_break := True\<rparr>)"
  have "\<forall>r \<in> set ps. ?caps r \<noteq> None" using Cons.prems by auto
  from Cons.IH [OF this] obtain caps' where t: "term_signal_handler ?caps (ps @ qs) = term_signal_handler caps' qs" "dom caps' = dom ?caps"
    "\<forall>r \<in> set ps. \<exists>c. caps' r = Some c \<and> cap_break c" "\<forall>r c. ?caps r = Some c \<and> cap_break c \<longrightarrow> (\<exists>c. caps' r = Some c \<and> cap_break c)" by blast
  have b: "\<exists>c'. caps' p = Some c' \<and> cap_break c'" using t(4) [rule_format, of p "c\<lparr>cap_break := True\<rparr>"] by simp
  moreover have "\<exists>c'. caps' r = Some c' \<and> cap_break c'" if "caps r = Some d \<and> cap_break d" for r d
    using that b t(4) [rule_format, of r d] by (cases "r = p") simp_all
  moreover have "dom caps' = dom caps" using t(2) c by auto
  ultimately show ?case using t(1,3) c by (intro exI [of _ caps']) (simp add: nonnull_def, blast)
qed auto

text \<open>C20: With interfaces the kernel and the capture library answer for, and filters they take, every link is captured
  by a thread of its own.  The program waits as long as there is a link and no loop was told to end; a signal tells
  every loop to end, after it the wait is over and every capture is closed.\<close>

theorem captures_open:
  assumes "distinct ps" and "\<forall>p \<in> set ps. openable S s p \<and> filtered S s p"
  shows "\<exists>s' caps caps'. init_pcap S s Map.empty ps = Inr (s', caps) \<and>
    (\<forall>p \<in> set ps. \<exists>c. caps p = Some c \<and> cap_looper c \<and> \<not> cap_break c) \<and>
    (ps \<noteq> [] \<longrightarrow> wait_pcap {} caps ps = Inl Hangs) \<and>
    term_signal_handler caps ps = Inr caps' \<and> (\<forall>p \<in> set ps. \<exists>c. caps' p = Some c \<and> cap_break c) \<and>
    wait_pcap {} caps' ps = Inr Map.empty"
proof -
  from init_pcap_all [OF assms(2), of Map.empty] obtain s' caps where i: "\<And>qs. init_pcap S s Map.empty (ps @ qs) = init_pcap S s' caps qs"
    and d: "dom caps = set ps" and c: "\<And>q c. caps q = Some c \<Longrightarrow> cap_looper c \<and> \<not> cap_break c" by auto
  have o: "\<forall>p \<in> set ps. caps p \<noteq> None" using d by auto
  from term_signal_append [OF this, of "[]"] d obtain caps' where t: "term_signal_handler caps ps = Inr caps'" "dom caps' = set ps"
    "\<forall>p \<in> set ps. \<exists>c. caps' p = Some c \<and> cap_break c" by auto
  then have "caps' |` (- set ps) = Map.empty" "\<forall>p \<in> set ps. waited {} caps' p" by (auto simp: restrict_map_def fun_eq_iff waited_def loop_ended_def)
  then have "wait_pcap {} caps' ps = Inr Map.empty" using wait_pcap_append [OF assms(1), of "{}" caps' "[]"] by simp
  moreover have "wait_pcap {} caps ps = Inl Hangs" if "ps \<noteq> []"
  proof -
    have "\<not> (\<forall>p \<in> set ps. waited {} caps p)" using that c by (cases ps) (auto simp: waited_def loop_ended_def)
    then show ?thesis using wait_pcap_hangs [OF assms(1) o, of "{}" "[]"] by simp
  qed
  moreover have "init_pcap S s Map.empty ps = Inr (s', caps)" using i [of "[]"] by simp
  moreover have "\<forall>p \<in> set ps. \<exists>c. caps p = Some c \<and> cap_looper c \<and> \<not> cap_break c" using c d by blast
  ultimately show ?thesis using t(1,3) by blast
qed

definition ex_sys :: sys_env where
  "ex_sys = \<lparr>sy_exists = (\<lambda>_. True), sy_file = (\<lambda>_. Some ex_file), sy_sigaction = (\<lambda>_. True), sy_daemon = True, sy_fopen = (\<lambda>_. True),
     sy_debug = True, sy_socket = True, sy_addr = (\<lambda>_. Some 7), sy_mtu = (\<lambda>_. Some 1500), sy_hwaddr = (\<lambda>_. Some (True, 2)),
     sy_lookupnet = (\<lambda>_. Some 0xFF), sy_open = (\<lambda>_. True), sy_compile = (\<lambda>_ _. True), sy_setfilter = (\<lambda>_. True)\<rparr>"

theorem captures_open_witness:
  "\<exists>s' caps c caps'. init_pcap ex_sys (ls_hb ex_linked) Map.empty [100] = Inr (s', caps) \<and> caps 100 = Some c \<and> cap_looper c \<and>
     wait_pcap {} caps [100] = Inl Hangs \<and> term_signal_handler caps [100] = Inr caps' \<and> wait_pcap {} caps' [100] = Inr Map.empty"
proof -
  have "\<forall>p \<in> set [100]. openable ex_sys (ls_hb ex_linked) p \<and> filtered ex_sys (ls_hb ex_linked) p"
    by (simp add: openable_def filtered_def answers_def filters_def ex_sys_def ex_linked_def ex_start_def zero_iface_def)
  from captures_open [OF _ this] show ?thesis by auto
qed

text \<open>C36: A filter that compiles but is refused ends the opening of the captures without an error: no later link is
  captured.  The first signal reads through the null pointer of such a link, and so does the end of the program, which
  is reached as soon as the loops of the links before it have ended of themselves, and not earlier.\<close>

theorem filter_refused:
  assumes "distinct (ps @ [p])" and "\<forall>r \<in> set ps. openable S s r \<and> filtered S s r" and "openable S s p" and "\<not> filtered S s p"
    and "q \<notin> set (ps @ [p])"
  shows "\<exists>s' caps. init_pcap S s Map.empty (ps @ p # q # qs) = Inr (s', caps) \<and> caps q = None \<and>
    (\<forall>failed. wait_pcap failed caps (ps @ p # q # qs) = Inl (if set ps \<subseteq> failed then NullDeref else Hangs)) \<and>
    term_signal_handler caps (ps @ p # q # qs) = Inl NullDeref"
proof -
  from init_pcap_all [OF assms(2), of Map.empty] obtain s1 caps1 where i: "\<And>qs. init_pcap S s Map.empty (ps @ qs) = init_pcap S s1 caps1 qs"
    and o1: "openable S s1 p" "\<not> filtered S s1 p"
    and c: "dom caps1 = set ps" "\<And>q c. caps1 q = Some c \<Longrightarrow> cap_looper c \<and> \<not> cap_break c" using assms(3,4) by auto
  from init_pcap_step [OF o1(1), of caps1] o1(2) obtain s2 c2 where 2: "\<And>qs. init_pcap S s1 caps1 (p # qs) = Inr (s2, caps1(p \<mapsto> c2))"
    and l2: "\<not> cap_looper c2" by auto
  let ?caps = "caps1(p \<mapsto> c2)"
  have l: "\<forall>r \<in> set (ps @ [p]). ?caps r \<noteq> None" "?caps q = None" using c(1) assms(5) by auto
  have w: "waited failed ?caps r \<longleftrightarrow> r = p \<or> r \<in> failed" if "r \<in> set (ps @ [p])" for failed r
    using that l(1) l2 c(2) by (auto simp: waited_def loop_ended_def split: if_split_asm)
  have "wait_pcap failed ?caps ((ps @ [p]) @ q # qs) = Inl (if set ps \<subseteq> failed then NullDeref else Hangs)" for failed
  proof (cases "set ps \<subseteq> failed")
    case True
    then have "\<forall>r \<in> set (ps @ [p]). waited failed ?caps r" using w by auto
    moreover have "(?caps |` (- set (ps @ [p]))) q = None" using l(2) by (metis restrict_in restrict_out)
    ultimately show ?thesis using True by (simp only: wait_pcap_append [OF assms(1)]) (simp add: nonnull_def join_looper_def)
  next
    case False
    then have "\<not> (\<forall>r \<in> set (ps @ [p]). waited failed ?caps r)" using w assms(1) by auto
    from wait_pcap_hangs [OF assms(1) l(1) this, of "q # qs"] False show ?thesis by simp
  qed
  moreover have "term_signal_handler ?caps ((ps @ [p]) @ q # qs) = Inl NullDeref"
  proof -
    obtain caps' where t: "term_signal_handler ?caps ((ps @ [p]) @ q # qs) = term_signal_handler caps' (q # qs)" "dom caps' = dom ?caps"
      using term_signal_append [OF l(1), of "q # qs"] by blast
    from t(2) l(2) have "caps' q = None" by blast
    with t(1) show ?thesis by (simp add: nonnull_def)
  qed
  ultimately show ?thesis using i 2 l(2) by (intro exI [of _ s2] exI [of _ ?caps]) simp
qed

theorem filter_refused_witness:
  "\<exists>s' caps. init_pcap (ex_sys\<lparr>sy_setfilter := \<lambda>_. False\<rparr>) (ex_state\<lparr>st_ifaces := [1 \<mapsto> zero_iface\<lparr>if_name := Some ''eth0'',
      if_filter := Some ''ip''\<rparr>, 2 \<mapsto> zero_iface\<lparr>if_name := Some ''eth1''\<rparr>]\<rparr>) Map.empty [1, 2] = Inr (s', caps) \<and>
    caps 2 = None \<and> wait_pcap {} caps [1, 2] = Inl NullDeref \<and> term_signal_handler caps [1, 2] = Inl NullDeref"
proof -
  let ?S = "ex_sys\<lparr>sy_setfilter := \<lambda>_. False\<rparr>"
  let ?s = "ex_state\<lparr>st_ifaces := [1 \<mapsto> zero_iface\<lparr>if_name := Some ''eth0'', if_filter := Some ''ip''\<rparr>, 2 \<mapsto> zero_iface\<lparr>if_name := Some ''eth1''\<rparr>]\<rparr>"
  have "openable ?S ?s 1" "\<not> filtered ?S ?s 1"
    by (simp_all add: openable_def filtered_def answers_def filters_def ex_sys_def zero_iface_def)
  then show ?thesis using filter_refused [of "[]" 1 ?S ?s 2 "[]"] by auto
qed


section \<open>A program that is up\<close>

lemma init_link_target: "init_link S i = Inr (i', c, ok) \<Longrightarrow> if_target i' = if_target i"
  by (auto simp: init_link_def set_iface_info_def Let_def elim!: rbindE split: option.split_asm if_split_asm)

lemma wired_iface:
  assumes "wired s" and "st_ifaces s p = Some i" and "if_target i' = if_target i"
  shows "wired (s\<lparr>st_ifaces := (st_ifaces s)(p \<mapsto> i')\<rparr>)"
proof -
  let ?s = "s\<lparr>st_ifaces := (st_ifaces s)(p \<mapsto> i')\<rparr>"
  have "placed ?s q" if "placed s q" for q using that assms(2) by (auto simp: placed_def) metis
  then have "extends s ?s" using assms(2) by (auto simp: extends_def)
  with assms extends_target show ?thesis by (auto simp: wired_def)
qed

lemma init_pcap_keeps:
  "init_pcap S s caps ps = Inr (s', caps') \<Longrightarrow> (wired s \<longrightarrow> wired s') \<and> apart s s'"
proof (induction ps arbitrary: s caps)
  case (Cons p ps)
  from Cons.prems obtain i i' c ok where i: "st_ifaces s p = Some i" "init_link S i = Inr (i', c, ok)"
    and r: "(if ok then init_pcap S (s\<lparr>st_ifaces := (st_ifaces s)(p \<mapsto> i')\<rparr>) (caps(p \<mapsto> c)) ps
      else Inr (s\<lparr>st_ifaces := (st_ifaces s)(p \<mapsto> i')\<rparr>, caps(p \<mapsto> c))) = Inr (s', caps')"
    by (auto simp: get_iface_def deref_eq_Inr Let_def elim!: rbindE)
  let ?s = "s\<lparr>st_ifaces := (st_ifaces s)(p \<mapsto> i')\<rparr>"
  have "wired s \<longrightarrow> wired ?s" using wired_iface [OF _ i(1) init_link_target [OF i(2)]] by blast
  moreover have "apart s ?s" by simp
  moreover have "(wired ?s \<longrightarrow> wired s') \<and> apart ?s s'"
  proof (cases ok)
    case True
    with r have "init_pcap S ?s (caps(p \<mapsto> c)) ps = Inr (s', caps')" by simp
    then show ?thesis by (rule Cons.IH)
  qed (use r in simp)
  ultimately show ?case using apart_trans by blast
qed simp

lemma main_start_steps:
  assumes "main_start have_mysql E L S G m s0 g order = Inr r"
  obtains ls where "startup E L s0 (sy_file S (mo_config m)) = Inr ls" "init_pcap S (ls_hb ls) Map.empty (order (ls_hb ls)) = Inr (rn_hb r, rn_captures r)"
  using assms unfolding main_start_def Let_def by (auto elim!: rbindE)

text \<open>C2: A program that comes up is in a reachable state of the engine, and every reference of its configuration is
  live if no link is defined twice: the interface of every link; of every handler its interface, address and hardware
  address; of every target its handlers and its uplink; of every uplink its target.\<close>

theorem main_start_ready:
  assumes "main_start have_mysql E L S G m s0 g order = Inr r"
    and "sy_file S (mo_config m) = Some file" and "yyparse (yylex file) = Some ss" and "distinct (link_names ss)"
    and "st_ifaces s0 = Map.empty" and "st_targets s0 = Map.empty" and "st_conns s0 = Map.empty" and "fresh_ok s0"
  shows "reachable (rn_hb r) \<and> wired (rn_hb r)"
proof -
  obtain ls where ls: "startup E L s0 (Some file) = Inr ls" "init_pcap S (ls_hb ls) Map.empty (order (ls_hb ls)) = Inr (rn_hb r, rn_captures r)"
    using main_start_steps [OF assms(1)] assms(2) by metis
  have "wired (ls_hb ls)" using startup_wired [OF ls(1) assms(3-6)] by simp
  moreover have "reachable (ls_hb ls)" by (rule reachable_start [OF ls(1) assms(7,8)])
  ultimately show ?thesis using init_pcap_keeps [OF ls(2)] apart_quiet by (blast intro: reachable_step hb_step.configure)
qed

theorem main_start_ready_witness:
  "\<exists>r. main_start False ex_env ex_load_env ex_sys ex_log_env \<lparr>mo_config = [], mo_daemonize = False\<rparr> (ls_hb ex_start) ex_log (\<lambda>_. [100]) = Inr r \<and>
     reachable (rn_hb r) \<and> wired (rn_hb r)"
proof -
  obtain ls i where ls: "startup ex_env ex_load_env (ls_hb ex_start) (Some ex_file) = Inr ls"
    "ls_config ls = [''output'' \<mapsto> CfgInt 2, ''decision_threads'' \<mapsto> CfgInt 4, ''exec_directory'' \<mapsto> CfgString ''/var/run'']"
    "st_ifaces (ls_hb ls) 100 = Some i" "if_name i = Some ''eth0''" "if_filter i = None"
    using ex_startup by blast
  have "\<forall>p \<in> set [100]. openable ex_sys (ls_hb ls) p \<and> filtered ex_sys (ls_hb ls) p"
    using ls by (simp add: openable_def filtered_def answers_def filters_def ex_sys_def)
  from init_pcap_all [OF this, of Map.empty] obtain s' caps where p: "init_pcap ex_sys (ls_hb ls) Map.empty [100] = Inr (s', caps)"
    by (metis append_Nil2 init_pcap.simps(1))
  have f: "sy_file ex_sys x = Some ex_file" "sy_fopen ex_sys y" for x y by (simp_all add: ex_sys_def)
  have "\<exists>h. init_signal ex_sys = Inr h" by (simp add: init_signal_def signal_table_def guard_def ex_sys_def)
  then obtain r where r: "main_start False ex_env ex_load_env ex_sys ex_log_env \<lparr>mo_config = [], mo_daemonize = False\<rparr> (ls_hb ex_start) ex_log (\<lambda>_. [100]) = Inr r"
    using ls p f by (auto simp: main_start_def ICONFIG_REQUIRED_def config_required_def to_output_def start_outputs_def ICONFIG_def init_mod_vmi_def
        cfg_int_def cfg_string_def guard_def Let_def)
  have "distinct (link_names (ex_statements None))" by (simp add: ex_statements_def)
  moreover have "fresh_ok (ls_hb ex_start)" "st_conns (ls_hb ex_start) = Map.empty" by (simp_all add: ex_start_def ex_state_def fresh_ok_def)
  ultimately show ?thesis using main_start_ready [OF r f(1) ex_file_parses] r by (auto simp: ex_start_def)
qed

end
