(* ===== verification/Shutdown.thy ===== *)
theory Shutdown
  imports Startup
begin

text \<open>
  What the configuration built is released once: no handler belongs to two targets or twice to one (\<open>tidy\<close>), so
  \<open>close_hash\<close> frees every interface, target and handler exactly once.
\<close>

section \<open>Every handler has one owner\<close>

definition handler_list :: "target \<Rightarrow> ptr list" where
  "handler_list t = (case tg_front_handler t of None \<Rightarrow> [] | Some q \<Rightarrow> [q]) @ map snd (tg_back_handlers t) @ tg_intra_handlers_list t"

definition tidy :: "hb_state \<Rightarrow> bool" where
  "tidy s \<longleftrightarrow>
     (\<forall>p t. st_targets s p = Some t \<longrightarrow> p < st_next s \<and> distinct (handler_list t) \<and> (\<forall>q \<in> set (handler_list t). q < st_next s)) \<and>
     (\<forall>p p' t t'. st_targets s p = Some t \<longrightarrow> st_targets s p' = Some t' \<longrightarrow> p \<noteq> p' \<longrightarrow> set (handler_list t) \<inter> set (handler_list t') = {}) \<and>
     distinct (map snd (targets s)) \<and> snd ` set (targets s) \<subseteq> {..<st_next s}"

lemma tidyD:
  assumes "tidy s" and "st_targets s p = Some t"
  shows "p < st_next s" "distinct (handler_list t)" "\<forall>q \<in> set (handler_list t). q < st_next s"
  using assms by (simp_all add: tidy_def)

lemma tidy_disjoint:
  assumes "tidy s" and "st_targets s p = Some t" and "st_targets s p' = Some t'" and "p \<noteq> p'"
  shows "set (handler_list t) \<inter> set (handler_list t') = {}"
  using assms by (simp add: tidy_def)

text \<open>A step of the loader that gives a target at most one handler, the one that was just made.\<close>

definition grown :: "hb_state \<Rightarrow> ptr \<Rightarrow> target \<Rightarrow> hb_state \<Rightarrow> bool" where
  "grown s p t s' \<longleftrightarrow> (\<exists>t'. st_targets s' = (st_targets s)(p \<mapsto> t') \<and> targets s' = targets s \<and> st_next s \<le> st_next s' \<and>
     (handler_list t' = handler_list t \<or>
      st_next s < st_next s' \<and> set (handler_list t') \<subseteq> insert (st_next s) (set (handler_list t)) \<and>
      (st_next s \<notin> set (handler_list t) \<longrightarrow> distinct (handler_list t) \<longrightarrow> distinct (handler_list t'))))"

lemma tidy_grown:
  assumes "grown s p t s'" and "tidy s" and "st_targets s p = Some t"
  shows "tidy s'" "\<exists>t'. st_targets s' p = Some t'" "targets s' = targets s" "st_next s \<le> st_next s'"
proof -
  from assms(1) obtain t' where t': "st_targets s' = (st_targets s)(p \<mapsto> t')" "targets s' = targets s" "st_next s \<le> st_next s'"
    and h: "handler_list t' = handler_list t \<or>
      st_next s < st_next s' \<and> set (handler_list t') \<subseteq> insert (st_next s) (set (handler_list t)) \<and>
      (st_next s \<notin> set (handler_list t) \<longrightarrow> distinct (handler_list t) \<longrightarrow> distinct (handler_list t'))"
    unfolding grown_def by blast
  show "\<exists>t'. st_targets s' p = Some t'" "targets s' = targets s" "st_next s \<le> st_next s'" using t' by simp_all
  note old = tidyD [OF assms(2,3)]
  then have f: "st_next s \<notin> set (handler_list t)" by auto
  have new: "distinct (handler_list t')" "set (handler_list t') \<subseteq> insert (st_next s) (set (handler_list t))"
    using h old(2) f by auto
  have "q < st_next s'" if "q \<in> set (handler_list t')" for q
    using h
  proof
    assume "handler_list t' = handler_list t"
    with that old(3) t'(3) show ?thesis by (auto intro: order_less_le_trans)
  next
    assume n: "st_next s < st_next s' \<and> set (handler_list t') \<subseteq> insert (st_next s) (set (handler_list t)) \<and>
      (st_next s \<notin> set (handler_list t) \<longrightarrow> distinct (handler_list t) \<longrightarrow> distinct (handler_list t'))"
    with that have "q = st_next s \<or> q \<in> set (handler_list t)" by blast
    with n old(3) show ?thesis by (auto intro: order.strict_trans)
  qed
  note new = new this
  have apart_t: "set (handler_list t') \<inter> set (handler_list u) = {}" if "st_targets s r = Some u" "r \<noteq> p" for r u
  proof -
    have "set (handler_list t) \<inter> set (handler_list u) = {}" using tidy_disjoint [OF assms(2,3) that(1)] that(2) by simp
    moreover have "\<forall>q \<in> set (handler_list u). q < st_next s" using tidyD(3) [OF assms(2) that(1)] .
    ultimately show ?thesis using new(2) by auto
  qed
  show "tidy s'"
    unfolding tidy_def
  proof (intro conjI allI impI)
    fix r u
    assume r: "st_targets s' r = Some u"
    then consider "r = p" "u = t'" | "r \<noteq> p" "st_targets s r = Some u" using t'(1) by (auto split: if_split_asm)
    note u = this
    show "r < st_next s'" "distinct (handler_list u)" "\<forall>q \<in> set (handler_list u). q < st_next s'"
      using u old(1) new(1,3) t'(3) tidyD [OF assms(2), of r u] by (cases; auto intro: order_less_le_trans)+
    fix r' u'
    assume r': "st_targets s' r' = Some u'" "r \<noteq> r'"
    then consider "r' = p" "u' = t'" | "r' \<noteq> p" "st_targets s r' = Some u'" using t'(1) by (auto split: if_split_asm)
    note u' = this
    from u show "set (handler_list u) \<inter> set (handler_list u') = {}"
    proof cases
      case 1
      with u' r'(2) apart_t show ?thesis by cases simp_all
    next
      case 2
      from u' show ?thesis
      proof cases
        case 1
        with apart_t [OF 2(2,1)] show ?thesis by blast
      next
        case 2
        with \<open>st_targets s r = Some u\<close> r'(2) show ?thesis using tidy_disjoint [OF assms(2)] by simp
      qed
    qed
  next
    show "distinct (map snd (targets s'))" "snd ` set (targets s') \<subseteq> {..<st_next s'}"
      using assms(2) t'(2,3) by (auto simp: tidy_def)
  qed
qed

lemma distinct_values:
  assumes "distinct (map snd t)" and "v \<notin> snd ` set t"
  shows "distinct (map snd (g_tree_insert cmp t k v))"
  using assms
proof (induction t)
  case (Cons a t)
  obtain k' v' where a: "a = (k', v')" by (cases a)
  have "v' \<notin> snd ` set (g_tree_insert cmp t k v)" using tree_values [of cmp t k v] Cons.prems a by (auto simp: image_iff)
  with Cons a show ?case by (auto simp: image_iff)
qed simp


lemma grown_new:
  assumes "new_handler s h = (q, hb)" and "st_targets hb' = (st_targets hb)(p \<mapsto> t')" and "targets hb' = targets hb" and "st_next hb' = st_next hb"
    and "set (handler_list t') \<subseteq> insert q (set (handler_list t))" and "q \<notin> set (handler_list t) \<Longrightarrow> distinct (handler_list t) \<Longrightarrow> distinct (handler_list t')"
  shows "grown (ls_hb s) p t hb'"
  using assms unfolding grown_def new_handler_def alloc_def by (intro exI [of _ t']) (auto simp: put_handler_def)

lemma grown_frontend:
  assumes "load_clause E L s p (Frontend pl) = Inr s'" and "st_targets (ls_hb s) p = Some t"
  shows "grown (ls_hb s) p t (ls_hb s')"
proof -
  from assms obtain h q hb where n: "new_handler s h = (q, hb)"
    and s': "s' = s\<lparr>ls_hb := put_target p (t\<lparr>tg_front_handler := Some q\<rparr>) hb\<rparr>"
    by (auto simp: get_target_def elim!: rbindE split: prod.split_asm)
  show ?thesis by (rule grown_new [OF n, of _ p "t\<lparr>tg_front_handler := Some q\<rparr>"])
    (auto simp: s' put_target_def handler_list_def split: option.split_asm)
qed

lemma add_back_targets:
  assumes "add_back_handler hb (Some p) (Some q) = Inr (r, hb')" and "st_targets hb p = Some t"
  shows "st_targets hb' = (st_targets hb)(p \<mapsto> t\<lparr>tg_back_handler_count := tg_back_handler_count t + 1,
      tg_back_handlers := g_tree_insert intcmp (tg_back_handlers t) (tg_back_handler_count t + 1) q\<rparr>)"
    "targets hb' = targets hb" "st_next hb' = st_next hb"
  using assms by (auto simp: add_back_handler_def get_target_def put_target_def put_handler_def Let_def elim!: rbindE)

lemma grown_backend:
  assumes "load_clause E L s p (Backend pl) = Inr s'" and "st_targets (ls_hb s) p = Some t"
  shows "grown (ls_hb s) p t (ls_hb s')"
proof -
  from assms obtain h q hb hb1 r where n: "new_handler s h = (q, hb)"
    and a: "add_back_handler hb1 (Some p) (Some q) = Inr (r, ls_hb s')"
    and hb1: "hb1 = (if pl_rule pl = None then hb else put_target p (t\<lparr>tg_back_handler_count := tg_back_handler_count t + 1\<rparr>) hb)"
    by (auto simp: get_target_def elim!: rbindE split: prod.split_asm if_split_asm)
  have st: "st_targets hb p = Some t" using n assms(2) by (auto simp: new_handler_def alloc_def put_handler_def)
  define t1 where "t1 = (if pl_rule pl = None then t else t\<lparr>tg_back_handler_count := tg_back_handler_count t + 1\<rparr>)"
  have t1: "st_targets hb1 = (st_targets hb)(p \<mapsto> t1)" "tg_front_handler t1 = tg_front_handler t"
      "tg_back_handlers t1 = tg_back_handlers t" "tg_intra_handlers_list t1 = tg_intra_handlers_list t" "targets hb1 = targets hb" "st_next hb1 = st_next hb"
    using st by (simp_all add: hb1 t1_def put_target_def fun_upd_idem)
  let ?n = "tg_back_handler_count t1 + 1"
  let ?t = "t1\<lparr>tg_back_handler_count := ?n, tg_back_handlers := g_tree_insert intcmp (tg_back_handlers t) ?n q\<rparr>"
  have s': "st_targets (ls_hb s') = (st_targets hb)(p \<mapsto> ?t)" "targets (ls_hb s') = targets hb" "st_next (ls_hb s') = st_next hb"
    using add_back_targets [OF a, of t1] t1 by simp_all
  have v: "set (map snd (g_tree_insert intcmp (tg_back_handlers t) ?n q)) \<subseteq> insert q (snd ` set (tg_back_handlers t))"
    using tree_values by (simp del: g_tree_insert.simps)
  show ?thesis
  proof (rule grown_new [OF n s'])
    show "set (handler_list ?t) \<subseteq> insert q (set (handler_list t))" using v t1 by (auto simp: handler_list_def)
    assume q: "q \<notin> set (handler_list t)" and d: "distinct (handler_list t)"
    then have "distinct (map snd (g_tree_insert intcmp (tg_back_handlers t) ?n q))"
      by (intro distinct_values) (auto simp: handler_list_def)
    with q d v t1 show "distinct (handler_list ?t)" by (auto simp: handler_list_def split: option.split_asm)
  qed
qed

lemma add_intra_targets:
  assumes "add_intra_handler E hb (Some p) a (Some q) = Inr (r, hb')" and "st_targets hb p = Some t"
  shows "hb' = hb \<or> st_targets hb' = (st_targets hb)(p \<mapsto> t\<lparr>tg_intra_handlers_list := tg_intra_handlers_list t @ [q],
      tg_intra_handlers := g_tree_insert (ev_addr_cmp E) (tg_intra_handlers t) a q\<rparr>) \<and> targets hb' = targets hb \<and> st_next hb' = st_next hb"
  using assms by (auto simp: add_intra_handler_def get_target_def put_target_def put_handler_def elim!: rbindE split: if_split_asm)

lemma grown_internal:
  assumes "load_clause E L s p (Internal ip pl) = Inr s'" and "st_targets (ls_hb s) p = Some t"
  shows "grown (ls_hb s) p t (ls_hb s')"
proof -
  from assms(1) obtain h q hb r a where n: "new_handler s (h\<lparr>hd_exclusive := 1\<rparr>) = (q, hb)" and a: "add_intra_handler E hb (Some p) a (Some q) = Inr (r, ls_hb s')"
    by (auto elim!: rbindE split: prod.split_asm)
  have st: "st_targets hb p = Some t" using n assms(2) by (auto simp: new_handler_def alloc_def put_handler_def)
  let ?t = "t\<lparr>tg_intra_handlers_list := tg_intra_handlers_list t @ [q], tg_intra_handlers := g_tree_insert (ev_addr_cmp E) (tg_intra_handlers t) a q\<rparr>"
  from add_intra_targets [OF a st] consider "ls_hb s' = hb"
    | "st_targets (ls_hb s') = (st_targets hb)(p \<mapsto> ?t)" "targets (ls_hb s') = targets hb" "st_next (ls_hb s') = st_next hb" by blast
  then show ?thesis
  proof cases
    case 1
    with st show ?thesis by (intro grown_new [OF n, of _ p t]) (auto simp: fun_upd_idem)
  next
    case 2
    then show ?thesis by (intro grown_new [OF n 2]) (auto simp: handler_list_def)
  qed
qed

lemma grown_tree:
  assumes "load_tree L s p e f = Inr s'" and "st_targets (ls_hb s) p = Some t" and "\<And>n t. handler_list (f n t) = handler_list t"
  shows "grown (ls_hb s) p t (ls_hb s')"
  using assms by (auto simp: load_tree_def grown_def get_target_def put_target_def elim!: rbindE)

lemma load_clause_grown:
  assumes "load_clause E L s p c = Inr s'" and "st_targets (ls_hb s) p = Some t"
  shows "grown (ls_hb s) p t (ls_hb s')"
  using assms(1)
proof (cases rule: load_clause_cases)
  case (Intra ip pl)
  show ?thesis by (rule grown_internal [OF assms(1) [unfolded Intra] assms(2)])
next
  case (Tree e f)
  show ?thesis by (rule grown_tree [OF Tree(1) assms(2)]) (use Tree(2) in \<open>simp add: keeps_handlers_def handler_list_def\<close>)
qed (use assms grown_frontend grown_backend in blast)+

lemma load_clauses_tidy:
  assumes "load_clauses E L s p cs = Inr s'" and "tidy (ls_hb s)" and "st_targets (ls_hb s) p = Some t"
  shows "tidy (ls_hb s') \<and> (\<exists>t'. st_targets (ls_hb s') p = Some t') \<and> targets (ls_hb s') = targets (ls_hb s)"
  using assms
proof (induction cs arbitrary: s t)
  case (Cons c cs)
  from Cons.prems(1) obtain s1 where 1: "load_clause E L s p c = Inr s1" "load_clauses E L s1 p cs = Inr s'" by (auto elim!: rbindE)
  note g = tidy_grown [OF load_clause_grown [OF 1(1) Cons.prems(3)] Cons.prems(2,3)]
  then obtain t' where "st_targets (ls_hb s1) p = Some t'" by blast
  from Cons.IH [OF 1(2) g(1) this] g(3) show ?case by simp
qed auto


lemma grown_refl: "st_targets s p = Some t \<Longrightarrow> grown s p t s"
  unfolding grown_def by (intro exI [of _ t]) (simp add: fun_upd_idem)

lemma load_route_grown:
  assumes "load_route L s p r = Inr hb" and "st_targets (ls_hb s) p = Some t"
  shows "grown (ls_hb s) p t hb"
  using assms grown_refl [OF assms(2)] by (cases "(L, s, p, r)" rule: load_route.cases)
    (auto simp: grown_def get_target_def put_target_def handler_list_def elim!: rbindE)

lemma add_target_tidy:
  assumes "add_target hb (Some p) = Inr (x, hb')" and "tidy hb" and "p \<notin> snd ` set (targets hb)" and "\<exists>t. st_targets hb p = Some t"
  shows "tidy hb'"
proof -
  let ?n = "target_counter hb + 1"
  from assms(4) obtain t where t: "st_targets hb p = Some t" ..
  let ?hb = "put_target p (t\<lparr>tg_targetID := ?n\<rparr>) (hb\<lparr>target_counter := ?n\<rparr>)"
  have "grown hb p t ?hb" by (auto simp: grown_def put_target_def handler_list_def)
  note g = tidy_grown [OF this assms(2) t]
  have "tidy (?hb\<lparr>targets := g_tree_insert intcmp (targets ?hb) ?n p\<rparr>)"
  proof -
    have "snd ` set (g_tree_insert intcmp (targets hb) ?n p) \<subseteq> {..<st_next hb}"
      by (rule order_trans [OF tree_values]) (use assms(2) tidyD(1) [OF assms(2) t] in \<open>auto simp: tidy_def\<close>)
    moreover have "distinct (map snd (g_tree_insert intcmp (targets hb) ?n p))"
      using assms(2,3) by (intro distinct_values) (simp_all add: tidy_def)
    ultimately show ?thesis using g(1) by (simp add: tidy_def put_target_def)
  qed
  with g(1) assms(1) t show ?thesis by (auto simp: add_target_def get_target_def Let_def split: if_split_asm)
qed

lemma load_target_tidy:
  assumes "load_target E L s r cs = Inr s'" and "tidy (ls_hb s)"
  shows "tidy (ls_hb s')"
proof -
  let ?p = "st_next (ls_hb s)" let ?hb = "put_target ?p zero_target ((ls_hb s)\<lparr>st_next := ?p + 1\<rparr>)"
  from assms(1) obtain s1 hb x where c: "load_clauses E L (s\<lparr>ls_hb := ?hb\<rparr>) ?p cs = Inr s1"
    and r: "load_route L s1 ?p r = Inr hb" and a: "add_target hb (Some ?p) = Inr (x, ls_hb s')"
    by (auto simp: load_target_def alloc_def elim!: rbindE)
  have "tidy ?hb" using assms(2) by (auto simp: tidy_def put_target_def handler_list_def zero_target_def less_Suc_eq)
  then have 1: "tidy (ls_hb s1)" "\<exists>t. st_targets (ls_hb s1) ?p = Some t" "targets (ls_hb s1) = targets (ls_hb s)"
    using load_clauses_tidy [OF c] by (auto simp: put_target_def)
  then obtain t where "st_targets (ls_hb s1) ?p = Some t" by blast
  note 2 = tidy_grown [OF load_route_grown [OF r this] 1(1) this]
  have "?p \<notin> snd ` set (targets hb)" using assms(2) 1(3) 2(3) by (auto simp: tidy_def)
  with 2(1,2) show ?thesis using add_target_tidy [OF a] by blast
qed

lemma load_statements_tidy: "load_statements E L s xs = Inr s' \<Longrightarrow> tidy (ls_hb s) \<Longrightarrow> tidy (ls_hb s')"
proof (induction xs arbitrary: s)
  case (Cons x xs)
  from Cons.prems(1) obtain s1 where 1: "load_statement E L s x = Inr s1" "load_statements E L s1 xs = Inr s'" by (auto elim!: rbindE)
  have "tidy (ls_hb s1)"
  proof (cases x)
    case (SLink tag ls)
    with 1(1) have "st_targets (ls_hb s1) = st_targets (ls_hb s)" "targets (ls_hb s1) = targets (ls_hb s)" "st_next (ls_hb s) \<le> st_next (ls_hb s1)"
      by (auto simp: load_link_def alloc_def Let_def elim!: rbindE split: option.split_asm)
    with Cons.prems(2) show ?thesis unfolding tidy_def by (auto intro: order_less_le_trans)
  qed (use 1(1) Cons.prems(2) load_target_tidy in \<open>auto simp: load_module_def Let_def elim!: rbindE\<close>)
  with Cons.IH [OF 1(2)] show ?case .
qed simp

section \<open>The release\<close>

lemma free_handlers_ok:
  "distinct qs \<Longrightarrow> \<forall>q \<in> set qs. st_handlers s q \<noteq> None \<Longrightarrow> free_handlers s qs = Inr (s\<lparr>st_handlers := st_handlers s |` (- set qs)\<rparr>)"
proof (induction qs arbitrary: s)
  case (Cons q qs)
  let ?s = "s\<lparr>st_handlers := (st_handlers s)(q := None)\<rparr>"
  have "\<forall>r \<in> set qs. st_handlers ?s r \<noteq> None" using Cons.prems by auto
  moreover have "(st_handlers s)(q := None) |` (- set qs) = st_handlers s |` (- set (q # qs))" by (auto simp: restrict_map_def)
  ultimately show ?case using Cons by (simp add: free_handler_def guard_def del: restrict_map_insert)
qed (simp add: restrict_map_def)

lemma free_target_ok:
  assumes "st_targets s p = Some t" and "distinct (handler_list t)" and "\<forall>q \<in> set (handler_list t). st_handlers s q \<noteq> None"
  shows "free_target s p = Inr (s\<lparr>st_handlers := st_handlers s |` (- set (handler_list t)), st_targets := (st_targets s)(p := None)\<rparr>)"
proof -
  have f: "free_handler s q = free_handlers s (case q of None \<Rightarrow> [] | Some q \<Rightarrow> [q])" for s q by (cases q) (auto simp: free_handler_def rbind_def split: sum.split)
  have app: "free_handlers s (xs @ ys) = rbind (free_handlers s xs) (\<lambda>s. free_handlers s ys)" for s xs ys
    by (induction xs arbitrary: s) (simp_all add: rbind_assoc)
  have "free_target s p = rbind (free_handlers s (handler_list t)) (\<lambda>s. Inr (s\<lparr>st_targets := (st_targets s)(p := None)\<rparr>))"
    unfolding free_target_def handler_list_def app f using assms(1) by (simp add: get_target_def rbind_assoc)
  then show ?thesis using free_handlers_ok [OF assms(2,3)] by simp
qed


lemma free_targets_ok:
  "distinct ps \<Longrightarrow> tidy s \<Longrightarrow>
    \<forall>p \<in> set ps. \<exists>t. st_targets s p = Some t \<and> (\<forall>q \<in> set (handler_list t). st_handlers s q \<noteq> None) \<Longrightarrow>
    \<exists>s'. free_targets s ps = Inr s' \<and> st_ifaces s' = st_ifaces s \<and> (\<forall>p \<in> set ps. st_targets s' p = None) \<and>
      (\<forall>p t. p \<in> set ps \<and> st_targets s p = Some t \<longrightarrow> (\<forall>q \<in> set (handler_list t). st_handlers s' q = None)) \<and>
      (\<forall>p. st_targets s p = None \<longrightarrow> st_targets s' p = None) \<and> (\<forall>q. st_handlers s q = None \<longrightarrow> st_handlers s' q = None)"
proof (induction ps arbitrary: s)
  case (Cons p ps)
  then obtain t where t: "st_targets s p = Some t" "\<forall>q \<in> set (handler_list t). st_handlers s q \<noteq> None" by auto
  let ?s = "s\<lparr>st_handlers := st_handlers s |` (- set (handler_list t)), st_targets := (st_targets s)(p := None)\<rparr>"
  have f: "free_target s p = Inr ?s" using free_target_ok [OF t(1) tidyD(2) [OF Cons.prems(2) t(1)] t(2)] .
  have "tidy ?s" using Cons.prems(2) by (auto simp: tidy_def)
  moreover have "\<exists>u. st_targets ?s r = Some u \<and> (\<forall>q \<in> set (handler_list u). st_handlers ?s q \<noteq> None)" if r: "r \<in> set ps" for r
  proof -
    obtain u where u: "st_targets s r = Some u" "\<forall>q \<in> set (handler_list u). st_handlers s q \<noteq> None"
      using Cons.prems(3) r by (meson list.set_intros(2))
    moreover have "r \<noteq> p" using Cons.prems(1) r by auto
    ultimately show ?thesis using tidy_disjoint [OF Cons.prems(2) t(1) u(1)] by (auto simp: restrict_map_def)
  qed
  ultimately obtain s' where s': "free_targets ?s ps = Inr s'" "st_ifaces s' = st_ifaces ?s" "\<forall>p \<in> set ps. st_targets s' p = None"
      "\<forall>p t. p \<in> set ps \<and> st_targets ?s p = Some t \<longrightarrow> (\<forall>q \<in> set (handler_list t). st_handlers s' q = None)"
      "\<forall>p. st_targets ?s p = None \<longrightarrow> st_targets s' p = None" "\<forall>q. st_handlers ?s q = None \<longrightarrow> st_handlers s' q = None"
    using Cons.IH [of ?s] Cons.prems(1) by auto
  have "st_targets s' p = None" "\<forall>q \<in> set (handler_list t). st_handlers s' q = None" using s'(5,6) by (auto simp: restrict_map_def)
  with f s' t(1) Cons.prems(1) show ?case by (intro exI [of _ s']) (auto simp: restrict_map_def split: if_split_asm)
qed auto

lemma free_interfaces_ok:
  "distinct is \<Longrightarrow> \<forall>i \<in> set is. st_ifaces s i \<noteq> None \<Longrightarrow> free_interfaces s is = Inr (s\<lparr>st_ifaces := st_ifaces s |` (- set is)\<rparr>)"
proof (induction "is" arbitrary: s)
  case (Cons i "is")
  let ?s = "s\<lparr>st_ifaces := (st_ifaces s)(i := None)\<rparr>"
  have "\<forall>r \<in> set is. st_ifaces ?s r \<noteq> None" using Cons.prems by auto
  moreover have "(st_ifaces s)(i := None) |` (- set is) = st_ifaces s |` (- set (i # is))" by (auto simp: restrict_map_def)
  ultimately show ?case using Cons by (simp add: free_interface_def guard_def del: restrict_map_insert)
qed (simp add: restrict_map_def)


text \<open>C19: The tables a configuration filled are released without touching an object twice: if no link is defined twice,
  \<open>close_hash\<close> frees every interface of a link, every target and every handler of a target exactly once, and the settings and the
  modules are gone.\<close>

theorem close_hash_once:
  assumes "startup E L s0 (Some file) = Inr ls" and "yyparse (yylex file) = Some ss" and "distinct (link_names ss)"
    and "st_ifaces s0 = Map.empty" and "st_targets s0 = Map.empty" and "distinct order" and "set order = ran (links (ls_hb ls))"
  shows "\<exists>s'. close_hash (ls_hb ls) (Some (ls_config ls)) (ModuleTable (ls_modules ls)) order = Inr (s', None, ModuleFreed) \<and> (\<forall>i \<in> ran (links (ls_hb ls)). st_ifaces s' i = None) \<and>
    (\<forall>p t. p \<in> snd ` set (targets (ls_hb ls)) \<and> st_targets (ls_hb ls) p = Some t \<longrightarrow>
      st_targets s' p = None \<and> (\<forall>q \<in> set (handler_list t). st_handlers s' q = None))"
proof -
  from assms(1,2) obtain config hb where i: "init_variables s0 = Inr (config, hb)"
    and l: "load_statements E L (load_start config hb) ss = Inr ls"
    by (auto simp: startup_def init_parser_def valid_def elim!: rbindE)
  have "tidy hb" "wired hb" "links hb = Map.empty"
    using i assms(4,5) by (auto simp: init_variables_def ICONFIG_def Let_def tidy_def wired_def)
  then have w: "tidy (ls_hb ls)" "wired (ls_hb ls)"
    using load_statements_tidy [OF l] load_statements_wired [OF l] assms(3) by (simp_all add: load_start_def)
  let ?s = "(ls_hb ls)\<lparr>st_ifaces := st_ifaces (ls_hb ls) |` (- set order)\<rparr>"
  have "\<forall>i \<in> set order. st_ifaces (ls_hb ls) i \<noteq> None" using w(2) assms(7) by (auto simp: wired_def)
  then have f: "free_interfaces (ls_hb ls) order = Inr ?s" by (rule free_interfaces_ok [OF assms(6)])
  have h: "set (handler_list t) \<subseteq> handlers_of t" for t by (auto simp: handler_list_def handlers_of_def split: option.split_asm)
  have "\<exists>t. st_targets ?s p = Some t \<and> (\<forall>q \<in> set (handler_list t). st_handlers ?s q \<noteq> None)" if p: "p \<in> set (map snd (targets ?s))" for p
  proof -
    obtain t where t: "st_targets (ls_hb ls) p = Some t" using w(2) p by (auto simp: wired_def)
    then have "\<forall>q \<in> handlers_of t. placed (ls_hb ls) q" using w(2) by (simp add: wired_def target_wired_def)
    with h t show ?thesis by (fastforce simp: placed_def)
  qed
  moreover have "tidy ?s" "distinct (map snd (targets ?s))" using w(1) by (simp_all add: tidy_def)
  ultimately obtain s' where s': "free_targets ?s (map snd (targets ?s)) = Inr s'" "st_ifaces s' = st_ifaces ?s"
      "\<forall>p \<in> set (map snd (targets ?s)). st_targets s' p = None"
      "\<forall>p t. p \<in> set (map snd (targets ?s)) \<and> st_targets ?s p = Some t \<longrightarrow> (\<forall>q \<in> set (handler_list t). st_handlers s' q = None)"
    using free_targets_ok [of "map snd (targets ?s)" ?s] by blast
  from s'(2) assms(7) have "\<forall>i \<in> ran (links (ls_hb ls)). st_ifaces s' i = None" by (simp add: restrict_map_def)
  moreover have "close_hash (ls_hb ls) (Some (ls_config ls)) (ModuleTable (ls_modules ls)) order =
      Inr (s'\<lparr>links := Map.empty, module_to_save := Map.empty, targets := []\<rparr>, None, ModuleFreed)"
    using f s'(1) by (simp add: close_hash_def)
  ultimately show ?thesis using s'(3,4) by (intro exI [of _ "s'\<lparr>links := Map.empty, module_to_save := Map.empty, targets := []\<rparr>"]) auto
qed


theorem close_hash_once_witness:
  "\<exists>ls s'. startup ex_env ex_load_env (ls_hb ex_start) (Some ex_file) = Inr ls \<and>
     close_hash (ls_hb ls) (Some (ls_config ls)) (ModuleTable (ls_modules ls)) [100] = Inr (s', None, ModuleFreed) \<and> st_ifaces s' 100 = None"
proof -
  obtain ls where ls: "startup ex_env ex_load_env (ls_hb ex_start) (Some ex_file) = Inr ls" "links (ls_hb ls) = [''up'' \<mapsto> 100]"
    using ex_startup by blast
  have "distinct (link_names (ex_statements None))" by (simp add: ex_statements_def)
  from close_hash_once [OF ls(1) ex_file_parses this, of "[100]"] ls show ?thesis by (auto simp: ex_start_def)
qed

end
