(* ===== verification/Dump.thy ===== *)
theory Dump
  imports Log
begin

text \<open>
  The dump of a payload for debugging (\<open>connections.c\<close>: \<open>print_hex_ascii_line\<close>, \<open>print_payload\<close>): rows of sixteen bytes,
  each with its offset, the bytes in hexadecimal and as characters.
\<close>

definition hex_column :: "byte list \<Rightarrow> string" where
  "hex_column bs =
     concat (map (\<lambda>(i, b). hex [b] @ '' '' @ (if i = 7 then '' '' else [])) (enumerate 0 bs)) @
     (if length bs < 8 then '' '' else []) @ concat (replicate (16 - length bs) ''   '')"

definition print_hex_ascii_line :: "byte list \<Rightarrow> nat \<Rightarrow> string" where
  "print_hex_ascii_line payload offset =
     [CHR 0x09] @ dec_pad CHR ''0'' 5 offset @ ''   '' @ hex_column payload @ ''   '' @
     map (\<lambda>b. if 32 \<le> b \<and> b \<le> 126 then char_of (unat b) else CHR ''.'') payload @ [CHR 0x0A]"

text \<open>The loop for more than one row.  The length of a row is sixteen modulo what is left, which is sixteen as long as
  more is left.\<close>

function dump_loop :: "byte list \<Rightarrow> nat \<Rightarrow> string" where
  "dump_loop ch offset =
     (let line_len = 16 mod length ch; rest = drop line_len ch; line = print_hex_ascii_line (take line_len ch) offset in
      if length rest \<le> 16 then line @ print_hex_ascii_line rest (offset + 16) else line @ dump_loop rest (offset + 16))"
  by pat_completeness auto
termination
proof (relation "measure (length \<circ> fst)", goal_cases)
  case (2 ch offset line_len rest line)
  then have "16 < length ch" by simp
  with 2 show ?case by (simp add: mod_less)
qed simp

declare dump_loop.simps [simp del]

definition print_payload :: "byte list \<Rightarrow> string" where
  "print_payload payload =
     (if payload = [] then []
      else if length payload \<le> 16 then print_hex_ascii_line payload 0
      else dump_loop payload 0)"

section \<open>What is printed\<close>

fun rows :: "byte list \<Rightarrow> nat \<Rightarrow> string list" where
  "rows bs offset = (if bs = [] then [] else print_hex_ascii_line (take 16 bs) offset # rows (drop 16 bs) (offset + 16))"

declare rows.simps [simp del]

lemma dump_loop_rows: "16 < length ch \<Longrightarrow> dump_loop ch offset = concat (rows ch offset)"
proof (induction ch offset rule: dump_loop.induct)
  case (1 ch offset)
  have n: "16 mod length ch = 16" using 1(2) by (simp add: mod_less)
  have ne: "ch \<noteq> []" "drop 16 ch \<noteq> []" using 1(2) by auto
  show ?case
  proof (cases "length (drop 16 ch) \<le> 16")
    case True
    with n ne show ?thesis by (subst dump_loop.simps, subst rows.simps, subst rows.simps) (simp add: Let_def rows.simps [of "[]"])
  next
    case False
    with 1(1) [OF refl refl refl] n have "dump_loop (drop 16 ch) (offset + 16) = concat (rows (drop 16 ch) (offset + 16))" by simp
    with False n ne show ?thesis by (subst dump_loop.simps, subst rows.simps) (simp add: Let_def)
  qed
qed

text \<open>A payload is printed as one row for every sixteen bytes, in order, each with the offset of its first byte.\<close>

theorem print_payload_rows: "print_payload payload = concat (rows payload 0)"
proof (cases "16 < length payload")
  case False
  then show ?thesis by (cases "payload = []") (simp_all add: print_payload_def rows.simps)
qed (auto simp: print_payload_def dump_loop_rows)

text \<open>Every row but the last has the same width: its columns line up.\<close>

lemma hex_column_width: "length bs \<le> 16 \<Longrightarrow> length (hex_column bs) = 49"
proof -
  have h: "length (concat (map (\<lambda>(i, b). hex [b] @ '' '' @ (if i = 7 then '' '' else [])) (enumerate n bs)))
      = 3 * length bs + (if n \<le> 7 \<and> 7 < n + length bs then 1 else 0)" for n
    by (induction bs arbitrary: n) (auto simp: hex_def)
  show "length bs \<le> 16 \<Longrightarrow> length (hex_column bs) = 49"
    unfolding hex_column_def using h [of 0] by (auto simp: length_concat sum_list_replicate)
qed

end
