(* ===== verification/Spec2Isabelle.thy ===== *)
theory Spec2Isabelle
  imports Shutdown Dump
begin

text \<open>
  A model of honeybrid, a gateway between attackers and honeypots, with the theorems that make it correct.

  \<^bold>\<open>The program.\<close>  Honeybrid (\<open>src/src/\<close>) sits between an uplink and two kinds of honeypots.  A frame of an
  attacker is captured (\<open>honeybrid.c\<close>: \<open>pcap_cb\<close>) and queued for a decision thread (\<open>de_thread\<close>), which parses it
  (\<open>process_packet\<close>, \<open>connections.c\<close>: \<open>init_pkt\<close>), finds or creates its connection (\<open>init_conn\<close>, \<open>conn_lookup\<close>,
  \<open>create_conn\<close>) and asks the decision engine (\<open>decision_engine.c\<close>: \<open>DE_process_packet\<close>), which walks a tree of modules
  (\<open>mod_*.c\<close>).  The packet is first translated to the low interaction honeypot (LIH; \<open>netcode.c\<close>: \<open>proxy_ext2int\<close>,
  \<open>nat\<close>).  When a rule accepts, the connection is redirected: the packets kept so far are replayed to a high
  interaction honeypot (HIH), the answers of the HIH are compared with those the LIH gave (\<open>replay\<close>,
  \<open>test_expected\<close>), and once they agree the rest is forwarded with shifted sequence numbers and time stamps
  (\<open>forward_ext2hih\<close>, \<open>forward_hih2ext\<close>).  A connection a honeypot opens is controlled, and may go to a host inside
  (INTRA).  A configuration file (\<open>config_syntax.l\<close>, \<open>config_rules.y\<close>) defines the links, modules, rules, targets and
  handlers before the threads start.  A cleaning thread removes connections that were not used for a while (\<open>clean\<close>, \<open>remove_conn\<close>).

  \<^bold>\<open>The theories\<close>, each after those it uses:
  \<^item> \<open>HB_Prelude\<close>: the result type \<open>'a res\<close> (a value, or the \<open>fault\<close> a C program runs into: a null or dangling
    pointer, a double free, an access out of bounds, a loop or a lock that never ends), bytes in memory, byte order.
  \<^item> \<open>GTree\<close>: glib's balanced tree as a sorted association list; the locale \<open>comparator\<close> states what a comparison
    function owes it, the locale \<open>tree_map\<close> what the tree gives back, and the first is shown to give the second.
  \<^item> \<open>HB_Types\<close>: the enumerations and structures of \<open>types.h\<close> and \<open>structs.h\<close>, the comparison functions of
    \<open>convenience.c\<close> (interpretations of \<open>comparator\<close>), and \<open>env\<close>, what the code asks of the outside: the clock, \<open>rand\<close>,
    whether an injection succeeds, and the functions of libdnet, PCRE and OpenSSL it calls.
  \<^item> \<open>HB_State\<close>: the globals (\<open>globals.h\<close>) and the heap, one partial function per kind of object; a freed object is
    absent.  \<open>Scenario\<close>: the small network at which the theorems are instantiated.
  \<^item> \<open>Checksum\<close>, \<open>Tcp_Timestamps\<close>, \<open>Netcode\<close>, \<open>Nat_Rewrite\<close>, \<open>Replay\<close>: \<open>netcode.c\<close>.  \<open>Checksum\<close>: the checksum loop
    is the one's complement sum, and the segment it is stored into verifies against a sum over the pseudo header that is
    defined from the frame alone (\<open>tcp_segment_sum\<close>).  \<open>Tcp_Timestamps\<close>: the options are stripped or shifted; exactly
    on which options the walk never ends.  \<open>Nat_Rewrite\<close>: what a translated or forwarded frame holds, byte by byte, and
    which bytes are damaged when the IP header has options.  \<open>Replay\<close>: progress, agreement and the stuck case of a
    redirection.
  \<^item> \<open>Packet\<close>: \<open>process_packet\<close>, \<open>init_pkt\<close>, \<open>store_pkt\<close>; an accepted packet is well-formed.
  \<^item> \<open>Connections\<close>: \<open>connections.c\<close>.  \<open>Conn_Invariant\<close>: the six trees hold only live connections, under keys removal
    will find (\<open>conns_ok\<close>), and every operation keeps that.  \<open>Conn_Theorems\<close>: lookup after creation, removal, expiry.
  \<^item> \<open>Management\<close>: \<open>management.c\<close> and the free functions of \<open>structs.c\<close>.
  \<^item> \<open>Modules\<close>, \<open>Module_Theorems\<close>: \<open>modules.c\<close> and the modules \<open>mod_yesno\<close>, \<open>mod_counter\<close>, \<open>mod_random\<close>,
    \<open>mod_backpick_random\<close>, \<open>mod_control\<close>, \<open>mod_source\<close>, \<open>mod_source_time\<close>, \<open>mod_hash\<close>, \<open>mod_dns_control\<close>, \<open>mod_vmi\<close>.
  \<^item> \<open>Decision_Engine\<close>: \<open>decision_engine.c\<close>; the walk through the tree the code builds for a rule is the conjunction of
    the modules of its last group, the only group the tree reaches.
  \<^item> \<open>Rpc_Server\<close>: the methods of the remote control (\<open>rpc_server.c\<close>) on top of \<open>Management\<close>; what the XML-RPC library
    reads from a call is an argument.
  \<^item> \<open>Honeybrid_Main\<close>: the settings, the capture, the decision thread and the closing of the trees (\<open>honeybrid.c\<close>).
    \<open>Engine_Invariant\<close>: a frame changes only its own connection, along the edges its rule decides.  \<open>Engine_Run\<close>: the
    program as a transition system, and its invariant; a run begins with the configuration loaded, and a step is a frame,
    a sweep, a backup, a change of the targets by hand or by remote control.  \<open>reachable_under P\<close> are the states of the
    runs in which \<open>P\<close> holds throughout; the invariant is that of the runs under \<open>no_dns_rules\<close>, and a theorem shows how
    it fails otherwise.
  \<^item> \<open>Config_Lexer\<close>, \<open>Config_Parser\<close>, \<open>Config_Load\<close>: the configuration (\<open>config_syntax.l\<close>, \<open>config_rules.y\<close>).  The scanner
    takes the longest match of its rules; the productions are functions from syntax trees to tokens, the parser is built
    from combinators and accepts exactly what they generate (the locale \<open>production\<close>, interpreted for every non-terminal
    that repeats); the actions fill the settings, the links, the modules and the targets.  \<open>Config_Theorems\<close>: text is read
    back, the references of a loaded configuration are live (\<open>wired\<close>), and which numbers the back handlers get.
  \<^item> \<open>Startup\<close>: the command line, the signals, the interfaces and captures, the start and the end of the program
    (\<open>honeybrid.c\<close>, \<open>set_iface_info\<close> of \<open>netcode.c\<close>).  \<open>Shutdown\<close>: what the configuration built is freed once (\<open>tidy\<close>).
  \<^item> \<open>Dump\<close>: the dump of a payload (\<open>connections.c\<close>: \<open>print_payload\<close>).
  \<^item> \<open>Log\<close>: what is written for a removed connection (\<open>log.c\<close>, \<open>constants.c\<close>), the rotation of the file and the
    statements for the database, on a state of its own (\<open>log_state\<close>); a line can be read back, and its durations add up
    as far as they are rounded.

  \<^bold>\<open>How the code is read.\<close>  A function of the source that changes shared state is a function from the state (and
  \<open>env\<close>) to a result with the new state; each early return is a branch.  A structure is a record, its pointers are
  addresses into the heap, a packet's headers are offsets into its frame.  Machine integers keep their width; where
  C leaves a signed overflow undefined, it is a fault.  A decision thread holds the mutex of the connection from the
  lookup on (\<open>cn_locked\<close>), so its work on a frame is one step; taking a mutex that is held is the fault \<open>Hangs\<close>.

  \<^bold>\<open>Bounds and fuel.\<close>  No loop has fuel.  The walks over packet buffers recurse with a measure.  The walks over TCP
  options, which may never end, are \<open>partial_function\<close>s: not returning is \<open>None\<close>, which becomes the fault \<open>Hangs\<close>, and
  when they return is a theorem.  So is the splitting of a rule, whose regular expressions are a parameter.

  \<^bold>\<open>Not modelled.\<close>  The start and the stop of the XML-RPC server thread, the virtual machines of \<open>mod_vmi.c\<close> (its
  initialisation never succeeds), what is written to the debug log, \<open>pcap_tool.c\<close> (not part of the build), \<open>daemon.c\<close> and
  \<open>err.c\<close> (replacements of library functions), and \<open>udp_checksum\<close> (never called).  The actions of the configuration run on
  the tree of the whole file, where the code runs them as it reads; a file with a syntax error ends the program either
  way.  The results of \<open>getopt\<close>, of the kernel and of the capture library are arguments.  A removed connection is appended to \<open>st_log\<close>, and what
  \<open>connection_log\<close> writes for it is in \<open>Log\<close>; a fault of the log is not a fault of \<open>remove_conn\<close>.  Times are exact
  microseconds, where the code has floating-point seconds; where the code keeps a time in an \<open>int\<close> the conversion and
  the differences have its 32 bits, and what does not fit is a fault.  Threads are interleaved by whole steps; the order in
  which two mutexes are taken is not modelled.  The module that redirects DNS queries is modelled and its frames are steps
  of a run, but the invariant is shown for runs without it (\<open>no_dns_rules\<close>): it rewrites handlers and trees while the
  engine walks them, and leaves a connection in a tree after it is freed.  A lookup in the trees of
  pins compares with every key, where the code compares with those on one path.  The theorems on checksums after a
  translation are for IP headers without options, as the code writes at a fixed offset; what it does to a frame with
  options is shown in \<open>Nat_Rewrite\<close>.
\<close>

section \<open>Properties of the whole program\<close>

text \<open>C1: As long as no rule of the configuration uses the module that redirects DNS queries: in every state the program
  reaches, an entry of any of the six connection trees belongs to a live connection whose mutex is free, so the
  connection a packet is looked up to can be locked: no decision thread reads a freed connection or waits for ever.
  (With that module a connection can stay in a tree after it was freed, see the end of \<open>Engine_Run\<close>.)\<close>

theorem reachable_sound:
  assumes "reachable_under no_dns_rules s"
  shows "(\<forall>k p. conn_find (ext_tree1 s) k = Some p \<or> conn_find (ext_tree2 s) k = Some p \<or> conn_find (int_tree1 s) k = Some p \<or>
      conn_find (int_tree2 s) k = Some p \<or> conn_find (intra_tree1 s) k = Some p \<or> conn_find (intra_tree2 s) k = Some p \<longrightarrow>
      (\<exists>c. st_conns s p = Some c \<and> \<not> cn_locked c)) \<and>
    (\<forall>pkt p q. lookup_trees s pkt = Inr (Some (p, q)) \<longrightarrow> (\<exists>s'. lock_conn s p = Inr s'))"
proof -
  have ok: "conns_ok s" "\<And>p c. st_conns s p = Some c \<Longrightarrow> \<not> cn_locked c"
    using reachable_ok [OF assms] by (auto simp: engine_ok_def)
  have 1: "\<exists>c. st_conns s p = Some c \<and> \<not> cn_locked c"
    if "conn_find (ext_tree1 s) k = Some p \<or> conn_find (ext_tree2 s) k = Some p \<or> conn_find (int_tree1 s) k = Some p \<or>
      conn_find (int_tree2 s) k = Some p \<or> conn_find (intra_tree1 s) k = Some p \<or> conn_find (intra_tree2 s) k = Some p" for k p
    using that ok ownedD unfolding conns_ok_def by meson
  have "\<exists>s'. lock_conn s p = Inr s'" if "lookup_trees s pkt = Inr (Some (p, q))" for pkt p q
  proof -
    have "\<exists>c. st_conns s p = Some c \<and> \<not> cn_locked c"
      using that unfolding lookup_trees_def Let_def
      by (auto split: if_split_asm option.split_asm elim!: rbindE intro: 1)
    then show ?thesis by (auto simp: lock_conn_def get_conn_def)
  qed
  with 1 show ?thesis by blast
qed

lemma ex_no_dns: "no_dns_rules ex_state"
  by (simp add: no_dns_rules_def ex_state_def ex_front_def ex_back_def ex_target_def no_dns_opt_def)

lemma ex_started: "reachable_under no_dns_rules ex_state"
proof -
  obtain config s where i: "init_variables ex_state = Inr (config, s)" by (simp add: init_variables_def ICONFIG_def Let_def)
  have e: "st_conns ex_state = Map.empty" "fresh_ok ex_state" using ex_state_ok by (simp_all add: ex_state_def)
  have q: "quiet s ex_state" using i e(2)
    by (auto simp: init_variables_def ICONFIG_def Let_def quiet_def same_conns_def) (simp_all add: ex_state_def)
  have "startup ex_env ex_load_env ex_state (Some []) = Inr (load_start config s)"
    by (simp add: startup_def i init_parser_def valid_def yylex.simps yyparse.simps)
  moreover have "no_dns_rules s" using i ex_no_dns no_dns_config [of ex_state s]
    by (auto simp: init_variables_def ICONFIG_def Let_def same_config_def)
  ultimately have "reachable_under no_dns_rules s" using reachable_under.start [of ex_env ex_load_env ex_state "Some []"] e
    by (fastforce simp: load_start_def)
  then show ?thesis using q ex_no_dns by (blast intro: reachable_under.step hb_step.configure)
qed

theorem reachable_sound_witness:
  "\<exists>s c. reachable_under no_dns_rules s \<and> conn_find (ext_tree1 s) (ext_key_of ex_pkt) = Some 100 \<and> st_conns s 100 = Some c \<and> \<not> cn_locked c"
proof -
  let ?raw = "\<lparr>raw_header = ex_header, raw_packet = ex_syn, raw_iface = 11\<rparr>"
  obtain s' where s': "serve_pkt ex_env ex_state ex_pkt = Inr s'" "ext_tree1 s' = [(ext_key_of ex_pkt, 100)]" "same_config ex_state s'"
    using ex_served by blast
  have p: "\<not> pkt_fragmented ex_pkt" "\<not> pkt_broadcast ex_pkt" "pkt_in ex_pkt = 11"
    "ether_dhost (pkt_FRAME ex_pkt) (pkt_eth ex_pkt) = if_mac ex_uplink"
    by (simp_all add: ex_pkt_def zero_pkt_def ex_syn_at frame_eval ex_uplink_def)
  have "no_dns_rules s'" using ex_no_dns no_dns_config [OF s'(3)] by simp
  moreover have "de_step ex_env ex_state ?raw = Inr s'" using p s'(1) process_ex_syn by (simp add: de_step_def get_iface_def)
  ultimately have r: "reachable_under no_dns_rules s'" using ex_started by (blast intro: reachable_under.step hb_step.frame)
  have f: "conn_find (ext_tree1 s') (ext_key_of ex_pkt) = Some 100"
    by (simp add: s' conn_find_def conn_key_cmp_def)
  from reachable_sound [OF r] f have "\<exists>c. st_conns s' 100 = Some c \<and> \<not> cn_locked c" by blast
  with r f show ?thesis by blast
qed

text \<open>C3: What the decision engine does with a connection that a frame of it is asked about, when no rule uses the module
  that redirects DNS queries.  The rule of its state is walked first (\<open>asked\<close>).  In INIT, accepted or without a rule the
  connection goes to PROXY if the target has no back handler (and, accepted, no picker) and to DECISION otherwise;
  rejected it goes to DROP.  In DECISION, accepted it goes to REPLAY or, where the redirection fails, stays; rejected it
  goes to PROXY; otherwise it stays.  In CONTROL, accepted or deferred it stays, without a rule it goes to PROXY, rejected
  or dropped it goes to DROP.  Any other state stays.  The packet goes on if nothing was decided, or if it was accepted
  in another state than DECISION.  No other connection is touched and the trees stay consistent.\<close>

theorem de_transitions:
  assumes "DE_process_packet E s pkt = Inr (r, s')" and "pkt_conn pkt = Some p" and "st_conns s p = Some c"
    and "conns_ok s" and "fresh_ok s" and "no_dns_rules s" and "fit c"
  shows "\<exists>d s1 c'. asked E s c pkt = Inr (d, s1) \<and> r = goes_on (cn_state c) (dh_result d) \<and> st_conns s' = (st_conns s)(p \<mapsto> c') \<and>
    cn_state c' \<in> outcome_states (st_targets s (cn_target c)) (cn_state c) (dh_result d) \<and> conns_ok s'"
  using DE_process_packet_outcome [OF assms] by (auto simp: good_def)

theorem de_transitions_witness:
  "\<exists>s' c'. DE_process_packet ex_env ex_tracked (ex_pkt\<lparr>pkt_conn := Some 100\<rparr>) = Inr (OK, s') \<and>
     st_conns s' 100 = Some c' \<and> cn_state c' = DECISION"
proof -
  let ?p = "ex_pkt\<lparr>pkt_conn := Some 100\<rparr>"
  have c: "st_conns ex_tracked 100 = Some ex_tracked_conn" "cn_state ex_tracked_conn = INIT" "fit ex_tracked_conn"
    by (simp_all add: ex_tracked_def ex_tracked_fields fit_def)
  have r: "no_dns_rules ex_tracked"
    by (simp add: no_dns_rules_def ex_tracked_def ex_state_def ex_front_def ex_back_def ex_target_def no_dns_opt_def)
  have t: "cn_target ex_tracked_conn = 50" by (simp add: ex_tracked_conn_def fill_conn_def zero_conn_def Let_def)
  have cfg: "get_target ex_tracked 50 = Inr ex_target" "get_handler ex_tracked (Some 21) = Inr ex_front"
    "tg_front_handler ex_target = Some 21" "tg_back_handler_count ex_target = 1" "hd_rule ex_front = None"
    by (simp_all add: ex_tracked_def get_target_def get_handler_def) (simp_all add: ex_target_def ex_front_def)
  have "\<exists>s'. DE_process_packet ex_env ex_tracked ?p = Inr (OK, s')"
    by (simp add: DE_process_packet_def get_conn_def c t cfg de_init_def conn_front_handler_def get_decision_def de_outcome_def
        de_no_rule_def Let_def)
  then obtain s' where d: "DE_process_packet ex_env ex_tracked ?p = Inr (OK, s')" ..
  have "asked ex_env ex_tracked ex_tracked_conn ?p = Inr (x, s1) \<Longrightarrow> dh_result x = DE_NO_RULE" for x s1
    by (auto simp: asked_def c t cfg de_init_def conn_front_handler_def get_decision_def Let_def)
  moreover have "outcome_states (st_targets ex_tracked 50) INIT DE_NO_RULE = {DECISION}"
    using cfg(1,4) by (simp add: outcome_states_def get_target_def deref_eq_Inr)
  ultimately show ?thesis using de_transitions [OF d _ c(1) ex_tracked_ok r c(3)] c(2) t d by auto
qed

text \<open>Where the IP header of a frame begins.\<close>

definition frame_ip :: "mem \<Rightarrow> nat" where
  "frame_ip f = (if ntohs (ether_type f 0) = ETHERTYPE_VLAN then 18 else 14)"

lemma pcap_cb_queued:
  assumes "pcap_cb E s n i header packet = Inr (Queued q raw, s')"
  obtains ifc where "st_ifaces s i = Some ifc" "s' = s" "n \<noteq> 0"
    "q = drop_bit 24 ((if if_target ifc \<noteq> None then ip_saddr packet (frame_ip packet) else ip_daddr packet (frame_ip packet))
           AND 0xFF000000) mod n"
    "raw = \<lparr>raw_header = header, raw_packet = packet, raw_iface = i\<rparr>"
  using assms unfolding pcap_cb_def Let_def IP2QUEUEID_def frame_ip_def get_iface_def
  by (auto simp: deref_opt_def deref_eq_Inr guard_def elim!: rbindE split: if_split_asm)

lemma pcap_cb_ip:
  assumes "ntohs (ether_type packet 0) = ETHERTYPE_IP" and "34 \<le> unat (ph_caplen header)" and "st_ifaces s i \<noteq> None" and "n \<noteq> 0"
  shows "\<exists>q raw. pcap_cb E s n i header packet = Inr (Queued q raw, s)"
  using assms by (auto simp: pcap_cb_def get_iface_def inside_def guard_def IP2QUEUEID_def Let_def)

text \<open>C4: The frames of one attacker go through one queue: a frame from an address on an uplink and a frame to that
  address on an inside interface are given to the same decision thread, and it is one of the threads there are.\<close>

theorem same_queue:
  assumes "pcap_cb E s n i1 header1 frame1 = Inr (Queued q1 raw1, s1)" and "pcap_cb E' s' n i2 header2 frame2 = Inr (Queued q2 raw2, s2)"
    and "st_ifaces s i1 = Some uplink" and "if_target uplink \<noteq> None"
    and "st_ifaces s' i2 = Some downlink" and "if_target downlink = None"
    and "ip_saddr frame1 (frame_ip frame1) = ip_daddr frame2 (frame_ip frame2)"
  shows "q1 = q2 \<and> q1 < n"
proof -
  obtain ifc1 where 1: "st_ifaces s i1 = Some ifc1" "n \<noteq> 0"
    "q1 = drop_bit 24 ((if if_target ifc1 \<noteq> None then ip_saddr frame1 (frame_ip frame1) else ip_daddr frame1 (frame_ip frame1))
           AND 0xFF000000) mod n" using pcap_cb_queued [OF assms(1)] .
  obtain ifc2 where 2: "st_ifaces s' i2 = Some ifc2"
    "q2 = drop_bit 24 ((if if_target ifc2 \<noteq> None then ip_saddr frame2 (frame_ip frame2) else ip_daddr frame2 (frame_ip frame2))
           AND 0xFF000000) mod n" using pcap_cb_queued [OF assms(2)] .
  have "q1 < n" using 1(2,3) by (simp add: word_mod_less_divisor word_neq_0_conv)
  with 1 2 assms(3-7) show ?thesis by simp
qed

text \<open>The answer to the captured SYN, as the honeypot sends it.\<close>

definition ex_synack :: mem where
  "ex_synack = ex_syn(26 := 10, 29 := 2, 30 := 192, 33 := 7, 34 := 0, 35 := 80, 36 := 48, 37 := 57)"

theorem same_queue_witness:
  "\<exists>q raw1 raw2. pcap_cb ex_env ex_state 4 11 ex_header ex_syn = Inr (Queued q raw1, ex_state) \<and>
     pcap_cb ex_env ex_state 4 12 ex_header ex_synack = Inr (Queued q raw2, ex_state) \<and> q < 4"
proof -
  have f: "ntohs (ether_type ex_syn 0) = ETHERTYPE_IP" "ntohs (ether_type ex_synack 0) = ETHERTYPE_IP"
    by (simp_all add: ex_synack_def ex_syn_at frame_eval)
  obtain q1 raw1 where 1: "pcap_cb ex_env ex_state 4 11 ex_header ex_syn = Inr (Queued q1 raw1, ex_state)"
    using pcap_cb_ip [OF f(1), of ex_header ex_state 11 4 ex_env] by (auto simp: ex_header_def)
  obtain q2 raw2 where 2: "pcap_cb ex_env ex_state 4 12 ex_header ex_synack = Inr (Queued q2 raw2, ex_state)"
    using pcap_cb_ip [OF f(2), of ex_header ex_state 12 4 ex_env] by (auto simp: ex_header_def)
  have "ip_saddr ex_syn (frame_ip ex_syn) = ip_daddr ex_synack (frame_ip ex_synack)"
    by (simp add: frame_ip_def f) (simp add: ex_synack_def ex_syn_at frame_eval)
  with same_queue [OF 1 2, of ex_uplink ex_downlink] 1 2 show ?thesis by auto
qed

text \<open>C34: The settings are read from the configuration table that was just made, before the file is parsed.  Whatever
  the file says, after the start a packet is always stored, nothing is answered on a refused connection, no HIH
  is exclusive and a connection that a HIH opens is never denied.\<close>

theorem settings_ignored:
  assumes "startup E L s0 file = Inr ls"
  shows "(\<forall>c pkt. fst (store_pkt (ls_hb ls) c pkt) = OK) \<and> (\<forall>E c pkt. refuse E (ls_hb ls) c pkt = Inr (ls_hb ls)) \<and>
     (\<forall>bh ip c. pin_target (ls_hb ls) bh ip c = Inr (True, c, ls_hb ls)) \<and>
     (\<forall>E p c pkt. st_conns (ls_hb ls) p = Some c \<and> cn_state c = INIT \<longrightarrow> handle_hih E (ls_hb ls) p pkt = control_hih E (ls_hb ls) p pkt)"
proof -
  have "(ucast (n :: u32) :: u64) < -1" for n
  proof -
    have "unat n < 2 ^ 32" by (rule unsigned_less [THEN order_less_le_trans]) simp
    then show ?thesis by (simp add: word_less_nat_alt unsigned_ucast_eq take_bit_nat_eq_self unsigned_minus_1_eq_mask mask_eq_exp_minus_1)
  qed
  then show ?thesis using startup_settings [OF assms]
    by (simp add: store_pkt_def refuse_def pin_target_def handle_hih_def get_conn_def Let_def)
qed

theorem settings_ignored_witness:
  "\<exists>ls. startup ex_env ex_load_env (ls_hb ex_start) (Some ex_file) = Inr ls \<and> fst (store_pkt (ls_hb ls) ex_tracked_conn ex_pkt) = OK \<and>
     refuse ex_env (ls_hb ls) ex_tracked_conn ex_pkt = Inr (ls_hb ls)"
proof -
  obtain ls where ls: "startup ex_env ex_load_env (ls_hb ex_start) (Some ex_file) = Inr ls" using ex_startup by blast
  from settings_ignored [OF ls] ls show ?thesis by blast
qed

end
